theory Spec2Isabelle
  imports Complex_Main "HOL-Library.Word" "HOL-Library.Sublist"
begin

section \<open>JavaScript values and containers\<close>

unbundle bit_operations_syntax

text \<open>The exceptions the modelled code can raise.\<close>

datatype js_error = TypeError | RangeError

definition then_js :: "js_error + 'a \<Rightarrow> ('a \<Rightarrow> js_error + 'b) \<Rightarrow> js_error + 'b" where
  "then_js r f = (case r of Inl e \<Rightarrow> Inl e | Inr x \<Rightarrow> f x)"

text \<open>
  JavaScript truthiness of a property read that yields a string or \<^verbatim>\<open>undefined\<close>:
  a missing property and the empty string are falsy.
\<close>

definition truthy :: "string option \<Rightarrow> bool" where
  "truthy v = (case v of None \<Rightarrow> False | Some s \<Rightarrow> s \<noteq> [])"

text \<open>
  A \<^verbatim>\<open>Map\<close> keeps its keys in insertion order: \<^verbatim>\<open>set\<close> replaces the value of a
  key that is present, in place, and appends a new key at the end; \<^verbatim>\<open>get\<close> is
  \<^const>\<open>map_of\<close>.
\<close>

definition map_set :: "'k \<Rightarrow> 'v \<Rightarrow> ('k \<times> 'v) list \<Rightarrow> ('k \<times> 'v) list" where
  "map_set k v xs =
     (if k \<in> fst ` set xs then map (\<lambda>kv. if fst kv = k then (k, v) else kv) xs
      else xs @ [(k, v)])"

definition map_delete :: "'k \<Rightarrow> ('k \<times> 'v) list \<Rightarrow> ('k \<times> 'v) list" where
  "map_delete k xs = filter (\<lambda>kv. fst kv \<noteq> k) xs"

text \<open>\<^verbatim>\<open>s.includes(sub)\<close> and \<^verbatim>\<open>s.startsWith(p)\<close> on strings.\<close>

definition startsWith :: "string \<Rightarrow> string \<Rightarrow> bool" where
  "startsWith s p = (take (length p) s = p)"

fun includes_str :: "string \<Rightarrow> string \<Rightarrow> bool" where
  "includes_str [] sub = (sub = [])"
| "includes_str (c # s) sub = (startsWith (c # s) sub \<or> includes_str s sub)"


section \<open>Speaker attribution: data model\<close>

text \<open>
  The speaking state of one participant, the two kinds of interval event, a voice-activity
  sample and a speech interval event, as the objects the JavaScript passes around.
  Timestamps are the integer milliseconds of \<^verbatim>\<open>Date.now()\<close>.
\<close>

datatype speaking_state = NOT_SPEAKING | SPEAKING

datatype interval_type = Start | End

record sample =
  isSpeaking :: bool
  timestamp :: int

record speech_interval =
  itype :: interval_type
  timestampMs :: int

record caption_audio_time =
  cap_timestampMs :: int
  speakerId :: string

text \<open>
  \<^verbatim>\<open>DominantSpeakerManager\<close>. \<^verbatim>\<open>speechIntervalsPerParticipant\<close> is a plain object
  keyed by participant id; it is kept as an association list in the order in which
  \<^verbatim>\<open>Object.entries\<close> enumerates it (insertion order for the platform's participant ids,
  which are not array indices, and are never names of \<^verbatim>\<open>Object.prototype\<close>).
\<close>

record dominant_speaker_manager =
  dominantSpeakerStreamId :: "string option"
  captionAudioTimes :: "caption_audio_time list"
  speechIntervalsPerParticipant :: "(string \<times> speech_interval list) list"

definition new_DominantSpeakerManager :: dominant_speaker_manager where
  "new_DominantSpeakerManager =
     \<lparr>dominantSpeakerStreamId = None, captionAudioTimes = [], speechIntervalsPerParticipant = []\<rparr>"

text \<open>
  \<^verbatim>\<open>if (!obj[speakerId]) obj[speakerId] = []; obj[speakerId].push(iv)\<close>: the event is
  appended to the participant's list, which is created when it is missing.
\<close>

fun push_interval ::
  "string \<Rightarrow> speech_interval \<Rightarrow> (string \<times> speech_interval list) list
     \<Rightarrow> (string \<times> speech_interval list) list" where
  "push_interval p iv [] = [(p, [iv])]"
| "push_interval p iv ((q, ivs) # rest) =
     (if q = p then (q, ivs @ [iv]) # rest else (q, ivs) # push_interval p iv rest)"

definition addSpeechIntervalStart ::
  "int \<Rightarrow> string \<Rightarrow> dominant_speaker_manager \<Rightarrow> dominant_speaker_manager" where
  "addSpeechIntervalStart ts p d =
     d\<lparr>speechIntervalsPerParticipant :=
         push_interval p \<lparr>itype = Start, timestampMs = ts\<rparr> (speechIntervalsPerParticipant d)\<rparr>"

definition addSpeechIntervalEnd ::
  "int \<Rightarrow> string \<Rightarrow> dominant_speaker_manager \<Rightarrow> dominant_speaker_manager" where
  "addSpeechIntervalEnd ts p d =
     d\<lparr>speechIntervalsPerParticipant :=
         push_interval p \<lparr>itype = End, timestampMs = ts\<rparr> (speechIntervalsPerParticipant d)\<rparr>"

definition addCaptionAudioTime ::
  "int \<Rightarrow> string \<Rightarrow> dominant_speaker_manager \<Rightarrow> dominant_speaker_manager" where
  "addCaptionAudioTime ts p d =
     d\<lparr>captionAudioTimes := captionAudioTimes d @ [\<lparr>cap_timestampMs = ts, speakerId = p\<rparr>]\<rparr>"

text \<open>The interval events recorded for a participant (none when the key is absent).\<close>

definition intervals_of :: "dominant_speaker_manager \<Rightarrow> string \<Rightarrow> speech_interval list" where
  "intervals_of d p = (case map_of (speechIntervalsPerParticipant d) p of None \<Rightarrow> [] | Some ivs \<Rightarrow> ivs)"

section \<open>Speaker attribution: the per-participant state machine\<close>

record participant_speaking_state_machine =
  participantId :: string
  state :: speaking_state
  samples :: "sample list"

definition new_ParticipantSpeakingStateMachine :: "string \<Rightarrow> participant_speaking_state_machine" where
  "new_ParticipantSpeakingStateMachine p = \<lparr>participantId = p, state = NOT_SPEAKING, samples = []\<rparr>"

text \<open>\<^verbatim>\<open>xs.slice(-n)\<close>: the last \<open>n\<close> elements, all of them when there are fewer.\<close>

definition slice_last :: "nat \<Rightarrow> 'a list \<Rightarrow> 'a list" where
  "slice_last n xs = drop (length xs - n) xs"

text \<open>
  \<^verbatim>\<open>ParticipantSpeakingStateMachine.addSample\<close>, on the machine and the manager it
  reports to. \<^verbatim>\<open>lastFiveSamples[0]\<close> is read only after the length test, so the
  list has five elements there.
\<close>

definition addSample ::
  "sample \<Rightarrow> participant_speaking_state_machine \<times> dominant_speaker_manager
     \<Rightarrow> participant_speaking_state_machine \<times> dominant_speaker_manager" where
  "addSample s md =
     (let m = fst md; d = snd md;
          pushed = samples m @ [s];
          window = (if length pushed > 10 then tl pushed else pushed);
          m1 = m\<lparr>samples := window\<rparr>;
          lastFiveSamples = slice_last 5 window
      in if length lastFiveSamples < 5 then (m1, d)
         else
           let majorityOfLastFiveSamplesWereTrue = (length (filter isSpeaking lastFiveSamples) > 3);
               previousState = state m1;
               firstOfLastFiveSamplesTimestamp = timestamp (hd lastFiveSamples);
               m2 = m1\<lparr>state := (if majorityOfLastFiveSamplesWereTrue then SPEAKING else NOT_SPEAKING)\<rparr>
           in if previousState = NOT_SPEAKING \<and> state m2 = SPEAKING
              then (m2, addSpeechIntervalStart firstOfLastFiveSamplesTimestamp (participantId m2) d)
              else if previousState = SPEAKING \<and> state m2 = NOT_SPEAKING
              then (m2, addSpeechIntervalEnd (firstOfLastFiveSamplesTimestamp - 100) (participantId m2) d)
              else (m2, d))"

text \<open>Feeding a sequence of samples, oldest first, to a machine.\<close>

definition addSamples ::
  "sample list \<Rightarrow> participant_speaking_state_machine \<times> dominant_speaker_manager
     \<Rightarrow> participant_speaking_state_machine \<times> dominant_speaker_manager" where
  "addSamples xs md = fold addSample xs md"

section \<open>Speaker attribution: the query\<close>

text \<open>
  \<^verbatim>\<open>getLastSpeakerIdForTimestampMs\<close>: among the caption entries at or before the
  timestamp, \<^verbatim>\<open>reduce\<close> without an initial value keeps the entry with the greatest
  timestamp, the earliest one added among equals. A speaker id that is \<^verbatim>\<open>null\<close> or
  \<^verbatim>\<open>undefined\<close> is read as the empty string, which is falsy as they are.
\<close>

definition getLastSpeakerIdForTimestampMs :: "int \<Rightarrow> dominant_speaker_manager \<Rightarrow> string option" where
  "getLastSpeakerIdForTimestampMs T d =
     (let captionAudioTimesBeforeTimestampMs =
            filter (\<lambda>captionAudioTime. cap_timestampMs captionAudioTime \<le> T) (captionAudioTimes d)
      in if length captionAudioTimesBeforeTimestampMs = 0 then None
         else Some (speakerId
                (fold (\<lambda>captionAudioTime max'.
                         if cap_timestampMs captionAudioTime > cap_timestampMs max'
                         then captionAudioTime else max')
                   (tl captionAudioTimesBeforeTimestampMs) (hd captionAudioTimesBeforeTimestampMs))))"

text \<open>
  The inner loop of \<^verbatim>\<open>getSpeakerIdForTimestampMsUsingSpeechIntervals\<close> over one
  participant's events, on the pair \<^verbatim>\<open>(isCurrentlySpeaking, timestampMsOfLastStart)\<close>;
  the first event later than the timestamp ends the loop.
\<close>

fun scan_intervals :: "int \<Rightarrow> speech_interval list \<Rightarrow> bool \<times> int option \<Rightarrow> bool \<times> int option" where
  "scan_intervals T [] acc = acc"
| "scan_intervals T (interval # intervals) acc =
     (if timestampMs interval > T then acc
      else case itype interval of
             Start \<Rightarrow> scan_intervals T intervals (True, Some (timestampMs interval))
           | End \<Rightarrow> scan_intervals T intervals (False, snd acc))"

text \<open>The list \<^verbatim>\<open>speakersAtTimestamp\<close> of pairs \<^verbatim>\<open>{speakerId, timestampMsOfLastStart}\<close>.\<close>

definition speakersAtTimestamp ::
  "int \<Rightarrow> dominant_speaker_manager \<Rightarrow> (string \<times> int option) list" where
  "speakersAtTimestamp T d =
     concat (map (\<lambda>entry.
                    (let scanned = scan_intervals T (snd entry) (False, None)
                     in if fst scanned then [(fst entry, snd scanned)] else []))
               (speechIntervalsPerParticipant d))"

text \<open>A \<^verbatim>\<open>null\<close> operand of \<^verbatim>\<open><\<close> converts to 0.\<close>

definition to_number :: "int option \<Rightarrow> int" where
  "to_number v = (case v of None \<Rightarrow> 0 | Some n \<Rightarrow> n)"

definition getSpeakerIdForTimestampMsUsingSpeechIntervals ::
  "int \<Rightarrow> dominant_speaker_manager \<Rightarrow> string option" where
  "getSpeakerIdForTimestampMsUsingSpeechIntervals T d =
     (let speakers = speakersAtTimestamp T d
      in if length speakers = 0 then None
         else if length speakers = 1 then Some (fst (hd speakers))
         else
           let participantForLastCaptionAudioTime =
                 (if length (captionAudioTimes d) > 0 then getLastSpeakerIdForTimestampMs T d else None)
           in if truthy participantForLastCaptionAudioTime
                 \<and> (\<exists>speaker \<in> set speakers. fst speaker = the participantForLastCaptionAudioTime)
              then participantForLastCaptionAudioTime
              else Some (fst (fold (\<lambda>speaker min'.
                                      if to_number (snd speaker) < to_number (snd min')
                                      then speaker else min')
                                (tl speakers) (hd speakers))))"

text \<open>
  The words of the attribution query. The events of a participant at or before a
  timestamp; the participant is open when the last of them is a start, and then the
  timestamp of that start is the start of the current open interval. A list of events is
  chronological when its timestamps never decrease.
\<close>

definition events_at_or_before :: "int \<Rightarrow> speech_interval list \<Rightarrow> speech_interval list" where
  "events_at_or_before T ivs = filter (\<lambda>iv. timestampMs iv \<le> T) ivs"

definition is_open :: "int \<Rightarrow> speech_interval list \<Rightarrow> bool" where
  "is_open T ivs \<longleftrightarrow>
     events_at_or_before T ivs \<noteq> [] \<and> itype (last (events_at_or_before T ivs)) = Start"

definition open_since :: "int \<Rightarrow> speech_interval list \<Rightarrow> int" where
  "open_since T ivs = timestampMs (last (events_at_or_before T ivs))"

definition chronological :: "speech_interval list \<Rightarrow> bool" where
  "chronological ivs \<longleftrightarrow> sorted (map timestampMs ivs)"

definition open_participants ::
  "int \<Rightarrow> dominant_speaker_manager \<Rightarrow> (string \<times> speech_interval list) list" where
  "open_participants T d = filter (\<lambda>entry. is_open T (snd entry)) (speechIntervalsPerParticipant d)"

text \<open>An entry is a most recent caption entry at or before a timestamp.\<close>

definition most_recent_caption :: "int \<Rightarrow> caption_audio_time list \<Rightarrow> caption_audio_time \<Rightarrow> bool" where
  "most_recent_caption T caps e \<longleftrightarrow>
     e \<in> set caps \<and> cap_timestampMs e \<le> T
     \<and> (\<forall>e' \<in> set caps. cap_timestampMs e' \<le> T \<longrightarrow> cap_timestampMs e' \<le> cap_timestampMs e)"

text \<open>
  The order in which the state machine records the events of one participant: a start is
  never stamped earlier than an event recorded before it, an end is never stamped earlier
  than an end recorded before it, and a start never directly follows a start. (An end is
  stamped 100 ms before the first sample of its window, so it may be stamped earlier than
  the start it closes.)
\<close>

definition recorded_in_order :: "speech_interval list \<Rightarrow> bool" where
  "recorded_in_order ivs \<longleftrightarrow>
     sorted_wrt (\<lambda>x y. (itype y = Start \<longrightarrow> timestampMs x \<le> timestampMs y)
                     \<and> (itype x = End \<and> itype y = End \<longrightarrow> timestampMs x \<le> timestampMs y)) ivs
     \<and> successively (\<lambda>x y. \<not> (itype x = Start \<and> itype y = Start)) ivs"

definition well_ordered_intervals :: "dominant_speaker_manager \<Rightarrow> bool" where
  "well_ordered_intervals d \<longleftrightarrow>
     (\<forall>entry \<in> set (speechIntervalsPerParticipant d).
        chronological (snd entry) \<or> recorded_in_order (snd entry))"

section \<open>Identifier reconciliation: data model\<close>

text \<open>
  The value of an attribute line of a session description: the text after the first colon,
  or \<^verbatim>\<open>true\<close> for a flag line without a colon.
\<close>

datatype attr_value = AFlag | AText string

record participant =
  displayName :: "string option"
  participant_id :: "string option"

record virtual_stream =
  sourceId :: string
  isScreenShare :: bool
  isWebcam :: bool
  isActive :: bool
  participant :: participant

record physical_stream =
  clientStreamId :: attr_value
  serverStreamId :: string

text \<open>
  \<^verbatim>\<open>VirtualStreamToPhysicalStreamMappingManager\<close>: three \<^verbatim>\<open>Map\<close>s and the two plain
  objects that link a physical client stream id to a virtual stream id and back. The
  objects are read by key only, so they are maps; their keys are identifiers of the
  meeting platform, never names of \<^verbatim>\<open>Object.prototype\<close>.
\<close>

record mapping_manager =
  virtualStreams :: "(string \<times> virtual_stream) list"
  physicalStreamsByClientStreamId :: "(attr_value \<times> physical_stream) list"
  physicalStreamsByServerStreamId :: "(string \<times> physical_stream) list"
  physicalClientStreamIdToVirtualStreamIdMapping :: "string \<rightharpoonup> string"
  virtualStreamIdToPhysicalClientStreamIdMapping :: "string \<rightharpoonup> string"

definition new_MappingManager :: mapping_manager where
  "new_MappingManager =
     \<lparr>virtualStreams = [], physicalStreamsByClientStreamId = [],
      physicalStreamsByServerStreamId = [],
      physicalClientStreamIdToVirtualStreamIdMapping = Map.empty,
      virtualStreamIdToPhysicalClientStreamIdMapping = Map.empty\<rparr>"

section \<open>Identifier reconciliation: operations\<close>

text \<open>
  \<^verbatim>\<open>upsertPhysicalClientStreamIdToVirtualStreamIdMapping\<close>, on the two identifiers after
  \<^verbatim>\<open>toString()\<close>. With the sentinel \<^verbatim>\<open>'-1'\<close> the entry of the physical id is deleted,
  and the inverse entry of the virtual id it pointed to when that id is truthy (otherwise
  an error is logged). Any other value is stored in both objects.
\<close>

definition upsertPhysicalClientStreamIdToVirtualStreamIdMapping ::
  "string \<Rightarrow> string \<Rightarrow> mapping_manager \<Rightarrow> mapping_manager" where
  "upsertPhysicalClientStreamIdToVirtualStreamIdMapping physicalClientStreamIdString virtualStreamIdString m =
     (if virtualStreamIdString = ''-1'' then
        (let virtualStreamIdToDelete =
               physicalClientStreamIdToVirtualStreamIdMapping m physicalClientStreamIdString;
             inverse_after =
               (if truthy virtualStreamIdToDelete
                then (virtualStreamIdToPhysicalClientStreamIdMapping m)(the virtualStreamIdToDelete := None)
                else virtualStreamIdToPhysicalClientStreamIdMapping m)
         in m\<lparr>virtualStreamIdToPhysicalClientStreamIdMapping := inverse_after,
               physicalClientStreamIdToVirtualStreamIdMapping :=
                 (physicalClientStreamIdToVirtualStreamIdMapping m)(physicalClientStreamIdString := None)\<rparr>)
      else
        m\<lparr>physicalClientStreamIdToVirtualStreamIdMapping :=
             (physicalClientStreamIdToVirtualStreamIdMapping m)
               (physicalClientStreamIdString \<mapsto> virtualStreamIdString),
          virtualStreamIdToPhysicalClientStreamIdMapping :=
             (virtualStreamIdToPhysicalClientStreamIdMapping m)
               (virtualStreamIdString \<mapsto> physicalClientStreamIdString)\<rparr>)"

text \<open>A source-selection operation: the pair of identifiers of one call.\<close>

definition apply_selections :: "(string \<times> string) list \<Rightarrow> mapping_manager \<Rightarrow> mapping_manager" where
  "apply_selections ops m =
     fold (\<lambda>op. upsertPhysicalClientStreamIdToVirtualStreamIdMapping (fst op) (snd op)) ops m"

text \<open>
  The two link objects are mutual inverses: an entry of one is matched by the reversed
  entry of the other, and neither has an entry beyond those.
\<close>

definition mutual_inverses :: "mapping_manager \<Rightarrow> bool" where
  "mutual_inverses m \<longleftrightarrow>
     (\<forall>p v. physicalClientStreamIdToVirtualStreamIdMapping m p = Some v
            \<longleftrightarrow> virtualStreamIdToPhysicalClientStreamIdMapping m v = Some p)"

text \<open>\<^verbatim>\<open>upsertVirtualStream\<close>: the stream is stored under its source id.\<close>

definition upsertVirtualStream :: "virtual_stream \<Rightarrow> mapping_manager \<Rightarrow> mapping_manager" where
  "upsertVirtualStream virtualStream m =
     m\<lparr>virtualStreams := map_set (sourceId virtualStream) virtualStream (virtualStreams m)\<rparr>"

definition removeVirtualStreamsForParticipant ::
  "string option \<Rightarrow> mapping_manager \<Rightarrow> mapping_manager" where
  "removeVirtualStreamsForParticipant participantId' m =
     (let virtualStreamsToRemove =
            filter (\<lambda>vs. participant_id (participant vs) = participantId') (map snd (virtualStreams m))
      in m\<lparr>virtualStreams := fold (\<lambda>vs. map_delete (sourceId vs)) virtualStreamsToRemove (virtualStreams m)\<rparr>)"

text \<open>\<^verbatim>\<open>upsertPhysicalStreams\<close>: every record is indexed under both of its identifiers.\<close>

definition upsertPhysicalStreams :: "physical_stream list \<Rightarrow> mapping_manager \<Rightarrow> mapping_manager" where
  "upsertPhysicalStreams physicalStreams m =
     fold (\<lambda>physicalStream m'.
             m'\<lparr>physicalStreamsByClientStreamId :=
                   map_set (clientStreamId physicalStream) physicalStream (physicalStreamsByClientStreamId m'),
                 physicalStreamsByServerStreamId :=
                   map_set (serverStreamId physicalStream) physicalStream (physicalStreamsByServerStreamId m')\<rparr>)
          physicalStreams m"

text \<open>\<^verbatim>\<open>virtualStreamIdToParticipant\<close>, called with the dominant speaker's stream id
  (\<^verbatim>\<open>null\<close> until one is signalled).\<close>

definition virtualStreamIdToParticipant :: "string option \<Rightarrow> mapping_manager \<Rightarrow> participant option" where
  "virtualStreamIdToParticipant virtualStreamId m =
     (case virtualStreamId of None \<Rightarrow> None
      | Some k \<Rightarrow> map_option participant (map_of (virtualStreams m) k))"

definition setDominantSpeakerStreamId ::
  "string \<Rightarrow> dominant_speaker_manager \<Rightarrow> dominant_speaker_manager" where
  "setDominantSpeakerStreamId sid d = d\<lparr>dominantSpeakerStreamId := Some sid\<rparr>"

definition getDominantSpeaker :: "dominant_speaker_manager \<Rightarrow> mapping_manager \<Rightarrow> participant option" where
  "getDominantSpeaker d m = virtualStreamIdToParticipant (dominantSpeakerStreamId d) m"

text \<open>
  The local list \<^verbatim>\<open>virtualSteamsThatHavePhysicalStreams\<close> of
  \<^verbatim>\<open>getVirtualVideoStreamIdToSend\<close>: the screenshare and webcam streams, in the order of
  the \<^verbatim>\<open>Map\<close>, whose source id is not a key of the physical-to-virtual object and is a
  key of the virtual-to-physical object.
\<close>

definition virtualSteamsThatHavePhysicalStreams :: "mapping_manager \<Rightarrow> virtual_stream list" where
  "virtualSteamsThatHavePhysicalStreams m =
     filter (\<lambda>virtualStream.
               (let hasCorrespondingPhysicalStream =
                      truthy (virtualStreamIdToPhysicalClientStreamIdMapping m (sourceId virtualStream));
                    isNotVirtualStreamForBot =
                      \<not> truthy (physicalClientStreamIdToVirtualStreamIdMapping m (sourceId virtualStream))
                in (isScreenShare virtualStream \<or> isWebcam virtualStream)
                   \<and> isNotVirtualStreamForBot \<and> hasCorrespondingPhysicalStream))
            (map snd (virtualStreams m))"

definition getVirtualVideoStreamIdToSend ::
  "dominant_speaker_manager \<Rightarrow> mapping_manager \<Rightarrow> string option" where
  "getVirtualVideoStreamIdToSend d m =
     (let candidates = virtualSteamsThatHavePhysicalStreams m
      in if candidates = [] then None
         else
           case find (\<lambda>vs. isScreenShare vs \<and> isActive vs) candidates of
             Some firstActiveScreenShareStream \<Rightarrow> Some (sourceId firstActiveScreenShareStream)
           | None \<Rightarrow>
               (case (case getDominantSpeaker d m of
                        None \<Rightarrow> None
                      | Some dominantSpeaker \<Rightarrow>
                          find (\<lambda>vs. participant_id (participant vs) = participant_id dominantSpeaker
                                      \<and> isWebcam vs \<and> isActive vs) candidates) of
                  Some dominantSpeakerVideoStream \<Rightarrow> Some (sourceId dominantSpeakerVideoStream)
                | None \<Rightarrow> Some (sourceId (hd candidates))))"

text \<open>
  \<^verbatim>\<open>getVideoStreamIdToSend\<close>. Without a virtual stream id (none, or the empty string) the
  first server stream id that contains \<^verbatim>\<open>Video\<close> is returned; otherwise the server stream
  id of the physical stream stored under the linked client stream id, or nothing when no
  such record is stored.
\<close>

definition getVideoStreamIdToSend ::
  "dominant_speaker_manager \<Rightarrow> mapping_manager \<Rightarrow> string option" where
  "getVideoStreamIdToSend d m =
     (let virtualVideoStreamIdToSend = getVirtualVideoStreamIdToSend d m
      in if \<not> truthy virtualVideoStreamIdToSend
         then find (\<lambda>physicalServerStreamId. includes_str physicalServerStreamId ''Video'')
                (map fst (physicalStreamsByServerStreamId m))
         else
           case virtualStreamIdToPhysicalClientStreamIdMapping m (the virtualVideoStreamIdToSend) of
             None \<Rightarrow> None
           | Some physicalClientStreamId \<Rightarrow>
               (case map_of (physicalStreamsByClientStreamId m) (AText physicalClientStreamId) of
                  None \<Rightarrow> None
                | Some physicalStream \<Rightarrow> Some (serverStreamId physicalStream)))"

section \<open>Selected video source: the words of the specification\<close>

text \<open>
  The reconciliation link of a virtual source is the physical client stream id stored
  under its source id; the source is linked when that id is truthy. The physical stream
  record bound to the source is the record stored under the linked id, and the source has
  a resolved physical stream when there is such a record. The source is the agent's own
  outgoing stream when its source id is itself linked as a physical client stream id.
\<close>

definition linked_client_id :: "mapping_manager \<Rightarrow> virtual_stream \<Rightarrow> string option" where
  "linked_client_id m vs = virtualStreamIdToPhysicalClientStreamIdMapping m (sourceId vs)"

definition has_link :: "mapping_manager \<Rightarrow> virtual_stream \<Rightarrow> bool" where
  "has_link m vs \<longleftrightarrow> truthy (linked_client_id m vs)"

definition bound_PhysicalStream :: "mapping_manager \<Rightarrow> virtual_stream \<Rightarrow> physical_stream option" where
  "bound_PhysicalStream m vs =
     (case linked_client_id m vs of
        None \<Rightarrow> None
      | Some link \<Rightarrow> map_of (physicalStreamsByClientStreamId m) (AText link))"

definition has_resolved_PhysicalStream :: "mapping_manager \<Rightarrow> virtual_stream \<Rightarrow> bool" where
  "has_resolved_PhysicalStream m vs \<longleftrightarrow> bound_PhysicalStream m vs \<noteq> None"

definition is_own_outgoing_stream :: "mapping_manager \<Rightarrow> virtual_stream \<Rightarrow> bool" where
  "is_own_outgoing_stream m vs \<longleftrightarrow>
     truthy (physicalClientStreamIdToVirtualStreamIdMapping m (sourceId vs))"

text \<open>
  The sources the specification chooses among: screenshare or webcam, not the agent's own
  outgoing stream, with a resolved physical stream. And the sources that are only linked,
  whether or not a record is stored under the linked id.
\<close>

definition resolved_sources :: "mapping_manager \<Rightarrow> virtual_stream list" where
  "resolved_sources m =
     filter (\<lambda>vs. (isScreenShare vs \<or> isWebcam vs) \<and> \<not> is_own_outgoing_stream m vs
                   \<and> has_resolved_PhysicalStream m vs)
            (map snd (virtualStreams m))"

definition linked_sources :: "mapping_manager \<Rightarrow> virtual_stream list" where
  "linked_sources m =
     filter (\<lambda>vs. (isScreenShare vs \<or> isWebcam vs) \<and> \<not> is_own_outgoing_stream m vs
                   \<and> has_link m vs)
            (map snd (virtualStreams m))"

text \<open>
  The choice among a list of sources: the first active screenshare; failing that the first
  active webcam of the participant of the signalled dominant speaker; failing that the
  first source.
\<close>

definition preferred_source ::
  "participant option \<Rightarrow> virtual_stream list \<Rightarrow> virtual_stream option" where
  "preferred_source dominantSpeaker sources =
     (if sources = [] then None
      else case find (\<lambda>vs. isScreenShare vs \<and> isActive vs) sources of
             Some screenshare \<Rightarrow> Some screenshare
           | None \<Rightarrow>
               (case dominantSpeaker of
                  None \<Rightarrow> Some (hd sources)
                | Some speaker \<Rightarrow>
                    (case find (\<lambda>vs. participant_id (participant vs) = participant_id speaker
                                     \<and> isWebcam vs \<and> isActive vs) sources of
                       Some webcam \<Rightarrow> Some webcam
                     | None \<Rightarrow> Some (hd sources))))"

text \<open>
  Two rosters for the scenario of the specification: the selection messages link
  description id 54 to source 7 and description id 55 to source 9, both active webcams.
  In the first the session description has delivered the records of both description
  ids; in the second only the record of 55, the one of 54 being still to come.
\<close>

definition roster_two_webcams :: mapping_manager where
  "roster_two_webcams =
     upsertVirtualStream
       \<lparr>sourceId = ''9'', isScreenShare = False, isWebcam = True, isActive = True,
        participant = \<lparr>displayName = Some ''Bob'', participant_id = Some ''P2''\<rparr>\<rparr>
       (upsertVirtualStream
          \<lparr>sourceId = ''7'', isScreenShare = False, isWebcam = True, isActive = True,
           participant = \<lparr>displayName = Some ''Alice'', participant_id = Some ''P1''\<rparr>\<rparr>
          (apply_selections [(''54'', ''7''), (''55'', ''9'')] new_MappingManager))"

definition roster_both_records :: mapping_manager where
  "roster_both_records =
     upsertPhysicalStreams
       [\<lparr>clientStreamId = AText ''54'', serverStreamId = ''mainVideo-1''\<rparr>,
        \<lparr>clientStreamId = AText ''55'', serverStreamId = ''mainVideo-2''\<rparr>]
       roster_two_webcams"

definition roster_one_record :: mapping_manager where
  "roster_one_record =
     upsertPhysicalStreams
       [\<lparr>clientStreamId = AText ''55'', serverStreamId = ''mainVideo-2''\<rparr>]
       roster_two_webcams"

section \<open>Identifier reconciliation: session descriptions\<close>

text \<open>\<^verbatim>\<open>s.split('\r\n')\<close> and \<^verbatim>\<open>s.split(' ')\<close>: the empty string gives one empty piece.\<close>

fun split_crlf_from :: "string \<Rightarrow> string \<Rightarrow> string list" where
  "split_crlf_from cur [] = [cur]"
| "split_crlf_from cur [c] = [cur @ [c]]"
| "split_crlf_from cur (c1 # c2 # rest) =
     (if c1 = CHR 0x0D \<and> c2 = CHR 0x0A then cur # split_crlf_from [] rest
      else split_crlf_from (cur @ [c1]) (c2 # rest))"

definition split_crlf :: "string \<Rightarrow> string list" where
  "split_crlf s = split_crlf_from [] s"

fun split_char_from :: "char \<Rightarrow> string \<Rightarrow> string \<Rightarrow> string list" where
  "split_char_from sep cur [] = [cur]"
| "split_char_from sep cur (c # rest) =
     (if c = sep then cur # split_char_from sep [] rest else split_char_from sep (cur @ [c]) rest)"

definition split_space :: "string \<Rightarrow> string list" where
  "split_space s = split_char_from (CHR '' '') [] s"

text \<open>\<^verbatim>\<open>s.indexOf(c)\<close> (\<open>None\<close> for -1) and \<^verbatim>\<open>s.substring(a, b)\<close>, which swaps its
  arguments when the first is the larger.\<close>

definition indexOf :: "string \<Rightarrow> char \<Rightarrow> nat option" where
  "indexOf s c = (if c \<in> set s then Some (length (takeWhile (\<lambda>x. x \<noteq> c) s)) else None)"

definition substring :: "string \<Rightarrow> nat \<Rightarrow> nat \<Rightarrow> string" where
  "substring s a b = take (max a b - min a b) (drop (min a b) s)"

text \<open>
  An attribute object: \<^verbatim>\<open>if (!attrs[key]) attrs[key] = []; attrs[key].push(value)\<close>.
  Attribute names are taken not to be names of \<^verbatim>\<open>Object.prototype\<close>.
\<close>

fun push_attribute ::
  "string \<Rightarrow> attr_value \<Rightarrow> (string \<times> attr_value list) list \<Rightarrow> (string \<times> attr_value list) list" where
  "push_attribute key v [] = [(key, [v])]"
| "push_attribute key v ((k, vs) # rest) =
     (if k = key then (k, vs @ [v]) # rest else (k, vs) # push_attribute key v rest)"

record sdp_media =
  media_type :: string
  description :: string
  attributes :: "(string \<times> attr_value list) list"

text \<open>
  The result of \<^verbatim>\<open>parseSDP\<close>: the media sections and the session-level attributes. The
  session-level fields (\<^verbatim>\<open>v= o= s= c= t= b=\<close>) are recognised and skipped; the
  \<^verbatim>\<open>connection\<close> and \<^verbatim>\<open>bandwidth\<close> of a media section are never set, since the
  session-level branches for \<^verbatim>\<open>c=\<close> and \<^verbatim>\<open>b=\<close> come first.
\<close>

record parsed_sdp =
  media :: "sdp_media list"
  session_attributes :: "(string \<times> attr_value list) list"

definition parse_attribute :: "string \<Rightarrow> string \<times> attr_value" where
  "parse_attribute line =
     (case indexOf line (CHR '':'') of
        None \<Rightarrow> (drop 2 line, AFlag)
      | Some colonIndex \<Rightarrow> (substring line 2 colonIndex, AText (drop (colonIndex + 1) line)))"

text \<open>One line of the loop; \<^verbatim>\<open>currentMedia\<close> is the media section pushed last.\<close>

definition parse_line :: "string \<Rightarrow> parsed_sdp \<Rightarrow> parsed_sdp" where
  "parse_line line parsed =
     (if startsWith line ''v='' \<or> startsWith line ''o='' \<or> startsWith line ''s=''
         \<or> startsWith line ''c='' \<or> startsWith line ''t='' \<or> startsWith line ''b=''
      then parsed
      else if startsWith line ''m=''
      then parsed\<lparr>media := media parsed @
             [\<lparr>media_type = drop 2 (hd (split_space line)), description = line, attributes = []\<rparr>]\<rparr>
      else if startsWith line ''a=''
      then (let kv = parse_attribute line
            in if media parsed \<noteq> []
               then parsed\<lparr>media := butlast (media parsed) @
                      [(last (media parsed))
                         \<lparr>attributes := push_attribute (fst kv) (snd kv) (attributes (last (media parsed)))\<rparr>]\<rparr>
               else parsed\<lparr>session_attributes :=
                      push_attribute (fst kv) (snd kv) (session_attributes parsed)\<rparr>)
      else parsed)"

definition parseSDP :: "string \<Rightarrow> parsed_sdp" where
  "parseSDP sdp = fold parse_line (split_crlf sdp) \<lparr>media = [], session_attributes = []\<rparr>"

text \<open>
  \<^verbatim>\<open>extractMSID\<close>: nothing for an empty entry, the text after \<^verbatim>\<open>msid:\<close> of the first
  part that starts so, nothing when no part does. The value \<^verbatim>\<open>true\<close> of a flag line has
  no \<^verbatim>\<open>split\<close>, so the call throws.
\<close>

definition extractMSID :: "attr_value \<Rightarrow> js_error + string option" where
  "extractMSID rawSSRCEntry =
     (case rawSSRCEntry of
        AFlag \<Rightarrow> Inl TypeError
      | AText raw \<Rightarrow>
          if raw = [] then Inr None
          else (case find (\<lambda>part. startsWith part ''msid:'') (split_space raw) of
                  Some part \<Rightarrow> Inr (Some (hd (split_space (drop 5 part))))
                | None \<Rightarrow> Inr None))"

text \<open>\<^verbatim>\<open>xs.map(f)\<close> for an \<open>f\<close> that may throw: the first exception ends the map.\<close>

fun map_throwing :: "('a \<Rightarrow> js_error + 'b) \<Rightarrow> 'a list \<Rightarrow> js_error + 'b list" where
  "map_throwing f [] = Inr []"
| "map_throwing f (x # xs) =
     (case f x of Inl e \<Rightarrow> Inl e
      | Inr y \<Rightarrow> (case map_throwing f xs of Inl e \<Rightarrow> Inl e | Inr ys \<Rightarrow> Inr (y # ys)))"

text \<open>\<^verbatim>\<open>[...new Set(xs)]\<close>: the distinct elements in the order of their first occurrence.\<close>

definition set_in_order :: "'a list \<Rightarrow> 'a list" where
  "set_in_order xs = rev (remdups (rev xs))"

text \<open>\<^verbatim>\<open>attrs[key] || []\<close>.\<close>

definition attribute_values :: "sdp_media \<Rightarrow> string \<Rightarrow> attr_value list" where
  "attribute_values sdpMediaEntry key =
     (case map_of (attributes sdpMediaEntry) key of None \<Rightarrow> [] | Some vs \<Rightarrow> vs)"

definition attr_truthy :: "attr_value option \<Rightarrow> bool" where
  "attr_truthy v = (case v of None \<Rightarrow> False | Some AFlag \<Rightarrow> True | Some (AText s) \<Rightarrow> s \<noteq> [])"

text \<open>The body of the loop of \<^verbatim>\<open>extractStreamIdToSSRCMappingFromSDP\<close> for one media section:
  the records it pushes.\<close>

definition media_entry_mapping :: "sdp_media \<Rightarrow> js_error + physical_stream list" where
  "media_entry_mapping sdpMediaEntry =
     (let sdpMediaEntrySSRCNumbersRaw = attribute_values sdpMediaEntry ''ssrc''
      in case map_throwing extractMSID sdpMediaEntrySSRCNumbersRaw of
           Inl e \<Rightarrow> Inl e
         | Inr msids \<Rightarrow>
             (let sdpMediaEntrySSRCNumbers = set_in_order msids;
                  streamIds = attribute_values sdpMediaEntry ''x-source-streamid'';
                  streamId = (case streamIds of [] \<Rightarrow> None | v # _ \<Rightarrow> Some v)
              in Inr (concat (map (\<lambda>ssrc.
                                     if truthy ssrc \<and> attr_truthy streamId
                                     then [\<lparr>clientStreamId = the streamId, serverStreamId = the ssrc\<rparr>]
                                     else [])
                               sdpMediaEntrySSRCNumbers))))"

fun extract_mapping :: "sdp_media list \<Rightarrow> physical_stream list \<Rightarrow> js_error + physical_stream list" where
  "extract_mapping [] mapping = Inr mapping"
| "extract_mapping (sdpMediaEntry # sdpMediaList) mapping =
     (case media_entry_mapping sdpMediaEntry of
        Inl e \<Rightarrow> Inl e
      | Inr pushed \<Rightarrow> extract_mapping sdpMediaList (mapping @ pushed))"

definition extractStreamIdToSSRCMappingFromSDP :: "string \<Rightarrow> js_error + physical_stream list" where
  "extractStreamIdToSSRCMappingFromSDP sdp = extract_mapping (media (parseSDP sdp)) []"

text \<open>
  The interceptor of \<^verbatim>\<open>setRemoteDescription\<close>: the mapping extracted from the description
  is upserted; an exception leaves the manager as it was.
\<close>

definition setRemoteDescription :: "string \<Rightarrow> mapping_manager \<Rightarrow> js_error + mapping_manager" where
  "setRemoteDescription sdp m =
     (case extractStreamIdToSSRCMappingFromSDP sdp of
        Inl e \<Rightarrow> Inl e
      | Inr mapping \<Rightarrow> Inr (upsertPhysicalStreams mapping m))"

definition store_after :: "string \<Rightarrow> mapping_manager \<Rightarrow> mapping_manager" where
  "store_after sdp m = (case setRemoteDescription sdp m of Inl e \<Rightarrow> m | Inr m' \<Rightarrow> m')"

section \<open>Wire protocol\<close>

type_synonym byte = "8 word"

text \<open>
  The little-endian bytes of a word, as \<^verbatim>\<open>DataView.setInt32(offset, value, true)\<close> and
  \<^verbatim>\<open>setBigInt64\<close> lay them out, and the word read back from little-endian bytes.
\<close>

definition bytes_le :: "nat \<Rightarrow> 'a::len word \<Rightarrow> byte list" where
  "bytes_le n w = map (\<lambda>i. ucast (drop_bit (8 * i) w)) [0..<n]"

definition word_le :: "byte list \<Rightarrow> 'a::len word" where
  "word_le bs = foldr (\<lambda>b acc. ucast b OR push_bit 8 acc) bs 0"

text \<open>
  \<^verbatim>\<open>new TextEncoder().encode(s)\<close>. Identifiers are kept as the string of their UTF-8
  bytes, so encoding reads each character as its byte.
\<close>

definition utf8_encode :: "string \<Rightarrow> byte list" where
  "utf8_encode s = map (\<lambda>c. word_of_nat (of_char c)) s"

text \<open>
  A \<^verbatim>\<open>Uint8Array\<close> is the list of its bytes. \<^verbatim>\<open>message.set(src, offset)\<close> and the
  \<^verbatim>\<open>DataView\<close> setters throw a \<^verbatim>\<open>RangeError\<close> when the bytes do not fit.
\<close>

definition new_Uint8Array :: "nat \<Rightarrow> byte list" where
  "new_Uint8Array n = replicate n 0"

definition set_bytes :: "byte list \<Rightarrow> nat \<Rightarrow> byte list \<Rightarrow> js_error + byte list" where
  "set_bytes src offset message =
     (if offset + length src \<le> length message
      then Inr (take offset message @ src @ drop (offset + length src) message)
      else Inl RangeError)"

definition setInt32 :: "nat \<Rightarrow> int \<Rightarrow> byte list \<Rightarrow> js_error + byte list" where
  "setInt32 offset v message = set_bytes (bytes_le 4 (word_of_int v :: 32 word)) offset message"

definition setUint8 :: "nat \<Rightarrow> nat \<Rightarrow> byte list \<Rightarrow> js_error + byte list" where
  "setUint8 offset v message = set_bytes [word_of_nat v] offset message"

definition setBigInt64 :: "nat \<Rightarrow> int \<Rightarrow> byte list \<Rightarrow> js_error + byte list" where
  "setBigInt64 offset v message = set_bytes (bytes_le 8 (word_of_int v :: 64 word)) offset message"

text \<open>\<^verbatim>\<open>WebSocketClient.MESSAGE_TYPES\<close>.\<close>

definition MESSAGE_TYPE_JSON :: int where "MESSAGE_TYPE_JSON = 1"
definition MESSAGE_TYPE_VIDEO :: int where "MESSAGE_TYPE_VIDEO = 2"
definition MESSAGE_TYPE_AUDIO :: int where "MESSAGE_TYPE_AUDIO = 3"
definition MESSAGE_TYPE_ENCODED_MP4_CHUNK :: int where "MESSAGE_TYPE_ENCODED_MP4_CHUNK = 4"
definition MESSAGE_TYPE_PER_PARTICIPANT_AUDIO :: int where "MESSAGE_TYPE_PER_PARTICIPANT_AUDIO = 5"

text \<open>
  \<^verbatim>\<open>WebSocketClient\<close>: whether the socket is open, whether media sending is enabled, and
  the binary messages handed to \<^verbatim>\<open>ws.send\<close> so far, oldest first.
\<close>

record web_socket_client =
  ws_open :: bool
  mediaSendingEnabled :: bool
  sent :: "byte list list"

text \<open>
  The message built inside the \<^verbatim>\<open>try\<close> block of \<^verbatim>\<open>sendPerParticipantAudio\<close>, from the
  participant id and the bytes of \<^verbatim>\<open>audioData.buffer\<close>.
\<close>

definition per_participant_audio_message :: "string \<Rightarrow> byte list \<Rightarrow> js_error + byte list" where
  "per_participant_audio_message participantId' audioBytes =
     (let participantIdBytes = utf8_encode participantId';
          message = new_Uint8Array (4 + 1 + length participantIdBytes + length audioBytes)
      in then_js (setInt32 0 MESSAGE_TYPE_PER_PARTICIPANT_AUDIO message) (\<lambda>message.
         then_js (setUint8 4 (length participantIdBytes) message) (\<lambda>message.
         then_js (set_bytes participantIdBytes 5 message) (\<lambda>message.
         set_bytes audioBytes (5 + length participantIdBytes) message))))"

definition sendPerParticipantAudio ::
  "string \<Rightarrow> byte list \<Rightarrow> web_socket_client \<Rightarrow> web_socket_client" where
  "sendPerParticipantAudio participantId' audioBytes ws =
     (if \<not> ws_open ws then ws
      else if \<not> mediaSendingEnabled ws then ws
      else case per_participant_audio_message participantId' audioBytes of
             Inl e \<Rightarrow> ws
           | Inr message \<Rightarrow> ws\<lparr>sent := sent ws @ [message]\<rparr>)"

text \<open>
  The message built inside the \<^verbatim>\<open>try\<close> block of \<^verbatim>\<open>sendVideo\<close>; the timestamp is an
  integer, so \<^verbatim>\<open>BigInt(timestamp)\<close> does not throw.
\<close>

definition video_message :: "int \<Rightarrow> string \<Rightarrow> int \<Rightarrow> int \<Rightarrow> byte list \<Rightarrow> js_error + byte list" where
  "video_message timestamp' streamId width height videoBytes =
     (let streamIdBytes = utf8_encode streamId;
          message = new_Uint8Array (4 + 8 + 4 + length streamIdBytes + 4 + 4 + length videoBytes)
      in then_js (setInt32 0 MESSAGE_TYPE_VIDEO message) (\<lambda>message.
         then_js (setBigInt64 4 timestamp' message) (\<lambda>message.
         then_js (setInt32 12 (int (length streamIdBytes)) message) (\<lambda>message.
         then_js (set_bytes streamIdBytes 16 message) (\<lambda>message.
         (let streamIdOffset = 16 + length streamIdBytes
          in then_js (setInt32 streamIdOffset width message) (\<lambda>message.
             then_js (setInt32 (streamIdOffset + 4) height message) (\<lambda>message.
             set_bytes videoBytes (streamIdOffset + 8) message))))))))"

definition sendVideo ::
  "int \<Rightarrow> string \<Rightarrow> int \<Rightarrow> int \<Rightarrow> byte list \<Rightarrow> web_socket_client \<Rightarrow> web_socket_client" where
  "sendVideo timestamp' streamId width height videoBytes ws =
     (if \<not> ws_open ws then ws
      else if \<not> mediaSendingEnabled ws then ws
      else case video_message timestamp' streamId width height videoBytes of
             Inl e \<Rightarrow> ws
           | Inr message \<Rightarrow> ws\<lparr>sent := sent ws @ [message]\<rparr>)"

text \<open>
  Modelled from the spec: the receiver of the wire messages is not among the sources. The
  two decoders read a message by the layout of the wire framing: a 4-byte little-endian
  type tag; for per-participant audio a 1-byte identifier length, the identifier bytes
  and the sample payload; for video an 8-byte timestamp, a 4-byte stream-id length, the
  stream-id bytes, a 4-byte width, a 4-byte height and the pixel payload.
\<close>

definition decode_per_participant_audio :: "byte list \<Rightarrow> (byte list \<times> byte list) option" where
  "decode_per_participant_audio message =
     (if length message < 5 then None
      else if (word_le (take 4 message) :: 32 word) \<noteq> 5 then None
      else let n = unat (message ! 4)
           in if length message < 5 + n then None
              else Some (take n (drop 5 message), drop (5 + n) message))"

definition decode_video ::
  "byte list \<Rightarrow> (64 word \<times> byte list \<times> 32 word \<times> 32 word \<times> byte list) option" where
  "decode_video message =
     (if length message < 16 then None
      else if (word_le (take 4 message) :: 32 word) \<noteq> 2 then None
      else let timestamp_word = (word_le (take 8 (drop 4 message)) :: 64 word);
               n = unat (word_le (take 4 (drop 12 message)) :: 32 word)
           in if length message < 16 + n + 8 then None
              else Some (timestamp_word,
                         take n (drop 16 message),
                         word_le (take 4 (drop (16 + n) message)),
                         word_le (take 4 (drop (16 + n + 4) message)),
                         drop (16 + n + 8) message))"

section \<open>Capture and relay: the audio track pipeline\<close>

text \<open>
  A sample of the mono \<^verbatim>\<open>Float32Array\<close> built from a frame is kept as the 32 bits of its
  IEEE 754 encoding; \<^verbatim>\<open>value !== 0\<close> is false exactly for the two zeros. For a frame
  with several channels the buffer is the average of the channels, computed in floating
  point before the code modelled here.
\<close>

type_synonym float32 = "32 word"

definition is_nonzero :: "float32 \<Rightarrow> bool" where
  "is_nonzero v \<longleftrightarrow> v \<noteq> 0 \<and> v \<noteq> 0x80000000"

definition some_nonzero :: "float32 list \<Rightarrow> bool" where
  "some_nonzero audioData' \<longleftrightarrow> (\<exists>v \<in> set audioData'. is_nonzero v)"

text \<open>The bytes of \<^verbatim>\<open>audioData.buffer\<close> on a little-endian platform.\<close>

definition buffer_bytes :: "float32 list \<Rightarrow> byte list" where
  "buffer_bytes audioData' = concat (map (bytes_le 4) audioData')"

record audio_format =
  originalNumberOfChannels :: nat
  numberOfFrames :: nat
  sampleRate :: nat
  sample_format :: string
  duration :: nat

record audio_frame =
  frame_format :: audio_format
  frame_audioData :: "float32 list"

record queued_chunk =
  audioArrivalTime :: int
  audioData :: "float32 list"

record debug_info =
  framesWithoutDominantSpeaker :: nat
  framesWithDominantSpeaker :: nat
  totalFrames :: nat

definition zero_debug_info :: debug_info where
  "zero_debug_info = \<lparr>framesWithoutDominantSpeaker = 0, framesWithDominantSpeaker = 0, totalFrames = 0\<rparr>"

text \<open>The JSON messages of the pipeline, by their \<^verbatim>\<open>type\<close> field and payload.\<close>

datatype json_message =
    AudioFormatUpdate audio_format
  | WebRTCTrackIsNonSilent "string option"
  | MultipleAudioQueuesDetected "string option"
  | HandleAudioTrackDebugInfo "string option" debug_info
  | AudioTrackEnded "string option"
  | AudioQueueFlush "string option"

text \<open>
  The calls a callback makes on the socket client, in order: \<^verbatim>\<open>sendPerParticipantAudio\<close>
  with the reading of \<^verbatim>\<open>Date.now()\<close> that admitted the chunk, the speaker and the chunk,
  and \<^verbatim>\<open>sendJson\<close>. The client drops a call while the socket is not open, and an audio
  call also while media sending is disabled.
\<close>

datatype client_call =
    PerParticipantAudio int string queued_chunk
  | Json json_message

text \<open>
  The variables of one \<^verbatim>\<open>handleAudioTrack\<close> closure: the id of the track, the handle of
  its polling interval and whether the interval has been cleared.
\<close>

record audio_track =
  trackId :: "string option"
  lastAudioFormat :: "audio_format option"
  audioDataQueue :: "queued_chunk list"
  trackIsNonSilent :: bool
  handleAudioTrackDebugInfo :: debug_info
  timeSinceLastDebugInfoSend :: int
  queueProcessingInterval :: nat
  intervalCleared :: bool

definition ACTIVE_SPEAKER_LATENCY_MS :: int where
  "ACTIVE_SPEAKER_LATENCY_MS = 2000"

definition new_audio_track :: "string option \<Rightarrow> nat \<Rightarrow> audio_track" where
  "new_audio_track track_id handle =
     \<lparr>trackId = track_id, lastAudioFormat = None, audioDataQueue = [], trackIsNonSilent = False,
      handleAudioTrackDebugInfo = zero_debug_info, timeSinceLastDebugInfoSend = 0,
      queueProcessingInterval = handle, intervalCleared = False\<rparr>"

text \<open>
  The body of the \<^verbatim>\<open>while\<close> loop of \<^verbatim>\<open>processAudioQueue\<close> for the chunk just shifted
  from the queue, at the reading \<open>now\<close> that admitted it. A speaker id is truthy when it is
  a non-empty string.
\<close>

definition process_chunk ::
  "int \<Rightarrow> dominant_speaker_manager \<Rightarrow> queued_chunk \<Rightarrow> debug_info \<Rightarrow> debug_info \<times> client_call list" where
  "process_chunk now d chunk info =
     (let dominantSpeakerId =
            getSpeakerIdForTimestampMsUsingSpeechIntervals (audioArrivalTime chunk) d;
          info1 = info\<lparr>totalFrames := totalFrames info + 1\<rparr>
      in if truthy dominantSpeakerId
         then (info1\<lparr>framesWithDominantSpeaker := framesWithDominantSpeaker info1 + 1\<rparr>,
               [PerParticipantAudio now (the dominantSpeakerId) chunk])
         else (info1\<lparr>framesWithoutDominantSpeaker := framesWithoutDominantSpeaker info1 + 1\<rparr>,
               []))"

text \<open>
  The loop. \<open>clock k\<close> is the \<open>k\<close>-th reading of \<^verbatim>\<open>Date.now()\<close> in this call; the loop
  condition reads the clock once each time the queue is not empty. The result is the
  number of readings made, the queue left, the counters and the calls made.
\<close>

fun process_queue ::
  "(nat \<Rightarrow> int) \<Rightarrow> dominant_speaker_manager \<Rightarrow> nat \<Rightarrow> queued_chunk list \<Rightarrow> debug_info
     \<Rightarrow> nat \<times> queued_chunk list \<times> debug_info \<times> client_call list" where
  "process_queue clock d k [] info = (k, [], info, [])"
| "process_queue clock d k (chunk # queue) info =
     (if clock k - audioArrivalTime chunk \<ge> ACTIVE_SPEAKER_LATENCY_MS
      then (let step = process_chunk (clock k) d chunk info;
                rest = process_queue clock d (Suc k) queue (fst step)
            in (fst rest, fst (snd rest), fst (snd (snd rest)), snd step @ snd (snd (snd rest))))
      else (Suc k, chunk # queue, info, []))"

definition processAudioQueue ::
  "(nat \<Rightarrow> int) \<Rightarrow> dominant_speaker_manager \<Rightarrow> audio_track \<Rightarrow> audio_track \<times> client_call list" where
  "processAudioQueue clock d t =
     (let looped = process_queue clock d 0 (audioDataQueue t) (handleAudioTrackDebugInfo t);
          k = fst looped;
          t1 = t\<lparr>audioDataQueue := fst (snd looped),
                 handleAudioTrackDebugInfo := fst (snd (snd looped))\<rparr>;
          calls = snd (snd (snd looped))
      in if clock k - timeSinceLastDebugInfoSend t1 \<ge> 10000
         then (t1\<lparr>timeSinceLastDebugInfoSend := clock (Suc k),
                   handleAudioTrackDebugInfo := zero_debug_info\<rparr>,
               calls @ [Json (HandleAudioTrackDebugInfo (trackId t1) (handleAudioTrackDebugInfo t1))])
         else (t1, calls))"

text \<open>
  \<^verbatim>\<open>transform(frame, controller)\<close> of the track's \<^verbatim>\<open>TransformStream\<close>. \<open>queues\<close> is the
  size of \<^verbatim>\<open>globalAudioQueueIntervalsSet\<close>, \<open>now\<close> the reading of \<^verbatim>\<open>Date.now()\<close> that
  stamps the chunk, \<open>controller_active\<close> whether \<^verbatim>\<open>controller.desiredSize\<close> is not null.
\<close>

definition transform ::
  "nat \<Rightarrow> int \<Rightarrow> bool \<Rightarrow> audio_frame option \<Rightarrow> audio_track \<Rightarrow> audio_track \<times> client_call list" where
  "transform queues now controller_active frame t =
     (case frame of
        None \<Rightarrow> (t, [])
      | Some f \<Rightarrow>
          if \<not> controller_active then (t, [])
          else
            let currentFormat = frame_format f;
                format_changed = (lastAudioFormat t \<noteq> Some currentFormat);
                t1 = (if format_changed then t\<lparr>lastAudioFormat := Some currentFormat\<rparr> else t);
                calls1 = (if format_changed then [Json (AudioFormatUpdate currentFormat)] else []);
                becomes_nonsilent = (\<not> trackIsNonSilent t1 \<and> some_nonzero (frame_audioData f));
                t2 = (if becomes_nonsilent then t1\<lparr>trackIsNonSilent := True\<rparr> else t1);
                calls2 = calls1 @ (if becomes_nonsilent then [Json (WebRTCTrackIsNonSilent (trackId t))] else [])
            in if \<not> trackIsNonSilent t2 then (t2, calls2)
               else if queues > 1 \<and> \<not> some_nonzero (frame_audioData f) then (t2, calls2)
               else (t2\<lparr>audioDataQueue := audioDataQueue t2 @
                           [\<lparr>audioArrivalTime = now, audioData = frame_audioData f\<rparr>]\<rparr>,
                     calls2))"

text \<open>The listener of the track's \<^verbatim>\<open>ended\<close> event, and \<^verbatim>\<open>flush\<close> of the stream.\<close>

definition track_ended :: "audio_track \<Rightarrow> audio_track \<times> client_call list" where
  "track_ended t = (t\<lparr>intervalCleared := True\<rparr>, [Json (AudioTrackEnded (trackId t))])"

definition flush :: "audio_track \<Rightarrow> audio_track \<times> client_call list" where
  "flush t = (t\<lparr>intervalCleared := True\<rparr>, [Json (AudioQueueFlush (trackId t))])"

text \<open>
  What can happen to one track: a frame reaches \<^verbatim>\<open>transform\<close>, the interval timer fires
  (nothing runs once the interval is cleared), the track ends, the stream is flushed.
  Each event carries what the callback reads from outside the closure.
\<close>

datatype track_event =
    Frame nat int bool "audio_frame option"
  | Poll "nat \<Rightarrow> int" dominant_speaker_manager
  | Ended
  | Flush

fun track_step :: "track_event \<Rightarrow> audio_track \<Rightarrow> audio_track \<times> client_call list" where
  "track_step (Frame queues now controller_active frame) t = transform queues now controller_active frame t"
| "track_step (Poll clock d) t = (if intervalCleared t then (t, []) else processAudioQueue clock d t)"
| "track_step Ended t = track_ended t"
| "track_step Flush t = flush t"

fun run_track :: "track_event list \<Rightarrow> audio_track \<Rightarrow> audio_track \<times> client_call list" where
  "run_track [] t = (t, [])"
| "run_track (ev # evs) t =
     (let step = track_step ev t; rest = run_track evs (fst step)
      in (fst rest, snd step @ snd rest))"

text \<open>The chunks of the audio calls, in the order of the calls.\<close>

fun sent_chunks :: "client_call list \<Rightarrow> queued_chunk list" where
  "sent_chunks [] = []"
| "sent_chunks (PerParticipantAudio now speaker chunk # calls) = chunk # sent_chunks calls"
| "sent_chunks (Json j # calls) = sent_chunks calls"

text \<open>The chunks that the frames of a run put on the queue, in the order of the run.\<close>

fun enqueued_chunks :: "track_event list \<Rightarrow> audio_track \<Rightarrow> queued_chunk list" where
  "enqueued_chunks [] t = []"
| "enqueued_chunks (ev # evs) t =
     (case ev of
        Frame queues now controller_active frame \<Rightarrow>
          drop (length (audioDataQueue t)) (audioDataQueue (fst (track_step ev t)))
      | _ \<Rightarrow> [])
     @ enqueued_chunks evs (fst (track_step ev t))"

text \<open>A frame event whose buffer holds only zeros (or that carries no frame).\<close>

fun silent_event :: "track_event \<Rightarrow> bool" where
  "silent_event (Frame queues now controller_active frame) =
     (case frame of None \<Rightarrow> True | Some f \<Rightarrow> \<not> some_nonzero (frame_audioData f))"
| "silent_event ev = True"

section \<open>Capture and relay: several audio tracks\<close>









text \<open>A chunk is attributed by a manager when the query at its arrival time names a speaker.\<close>

definition attributed :: "dominant_speaker_manager \<Rightarrow> queued_chunk \<Rightarrow> bool" where
  "attributed d chunk \<longleftrightarrow>
     truthy (getSpeakerIdForTimestampMsUsingSpeechIntervals (audioArrivalTime chunk) d)"

text \<open>The call that reports that a track is not silent.\<close>

fun is_nonsilence_report :: "client_call \<Rightarrow> bool" where
  "is_nonsilence_report (Json (WebRTCTrackIsNonSilent track_id)) = True"
| "is_nonsilence_report call = False"





section \<open>JavaScript numbers\<close>

text \<open>
  A JavaScript number is an IEEE 754 double: a finite value \<open>m * 2 ^ e\<close>, an infinity
  (\<open>Infinity True\<close> is the positive one) or \<^verbatim>\<open>NaN\<close>. The operations below take any pair
  \<open>m\<close>, \<open>e\<close> as the exact value it denotes and return the nearest double in the form the
  format stores it: 53 bits of mantissa with an exponent from -1074 to 971, fewer bits at
  exponent -1074 (the subnormal numbers). The sign of zero is not kept; nothing that is
  modelled here reads it.
\<close>

datatype double = Finite int int | Infinity bool | NaN

text \<open>The number of bits of a natural number.\<close>

fun bit_length :: "nat \<Rightarrow> nat" where
  "bit_length n = (if n = 0 then 0 else Suc (bit_length (n div 2)))"

declare bit_length.simps [simp del]

text \<open>\<open>n / 2 ^ s\<close> rounded to the nearest natural number, a tie going to the even one.\<close>

definition shift_right_nearest_even :: "nat \<Rightarrow> nat \<Rightarrow> nat" where
  "shift_right_nearest_even n s =
     (let q = n div 2 ^ s; r = n mod 2 ^ s
      in if 2 ^ s < 2 * r \<or> (2 * r = 2 ^ s \<and> odd q) then q + 1 else q)"

text \<open>
  The double nearest to \<open>n * 2 ^ e\<close> with the given sign (round to nearest, ties to even):
  the exponent is chosen so that 53 bits are left, but not below -1074; a mantissa that
  rounds up to \<open>2 ^ 53\<close> is renormalised; a value beyond the largest finite double becomes
  an infinity.
\<close>

definition round_double :: "bool \<Rightarrow> nat \<Rightarrow> int \<Rightarrow> double" where
  "round_double positive n e =
     (let e1 = max (e + int (bit_length n) - 53) (- 1074);
          q = (if e1 \<le> e then n * 2 ^ nat (e - e1) else shift_right_nearest_even n (nat (e1 - e)));
          q2 = (if q = 2 ^ 53 then 2 ^ 52 else q);
          e2 = (if q = 2 ^ 53 then e1 + 1 else e1)
      in if q2 = 0 then Finite 0 0
         else if 971 < e2 then Infinity positive
         else Finite (if positive then int q2 else - int q2) e2)"

definition round_int :: "int \<Rightarrow> int \<Rightarrow> double" where
  "round_int m e = round_double (0 \<le> m) (nat \<bar>m\<bar>) e"

text \<open>The number that an integer literal or an array length denotes.\<close>

definition double_of_nat :: "nat \<Rightarrow> double" where
  "double_of_nat n = round_double True n 0"

fun dneg :: "double \<Rightarrow> double" where
  "dneg (Finite m e) = Finite (- m) e"
| "dneg (Infinity s) = Infinity (\<not> s)"
| "dneg NaN = NaN"

text \<open>\<^verbatim>\<open>x + y\<close>: the exact sum of two finite numbers, rounded.\<close>

fun dadd :: "double \<Rightarrow> double \<Rightarrow> double" where
  "dadd (Finite m1 e1) (Finite m2 e2) =
     round_int (m1 * 2 ^ nat (e1 - min e1 e2) + m2 * 2 ^ nat (e2 - min e1 e2)) (min e1 e2)"
| "dadd (Finite m e) (Infinity t) = Infinity t"
| "dadd (Infinity s) (Finite m e) = Infinity s"
| "dadd (Infinity s) (Infinity t) = (if s = t then Infinity s else NaN)"
| "dadd NaN y = NaN"
| "dadd x NaN = NaN"

text \<open>\<^verbatim>\<open>x - y\<close>.\<close>

definition dsub :: "double \<Rightarrow> double \<Rightarrow> double" where
  "dsub x y = dadd x (dneg y)"

text \<open>\<^verbatim>\<open>x * y\<close>.\<close>

fun dmul :: "double \<Rightarrow> double \<Rightarrow> double" where
  "dmul (Finite m1 e1) (Finite m2 e2) = round_int (m1 * m2) (e1 + e2)"
| "dmul (Finite m e) (Infinity t) = (if m = 0 then NaN else Infinity ((0 < m) = t))"
| "dmul (Infinity s) (Finite m e) = (if m = 0 then NaN else Infinity (s = (0 < m)))"
| "dmul (Infinity s) (Infinity t) = Infinity (s = t)"
| "dmul NaN y = NaN"
| "dmul x NaN = NaN"

text \<open>
  The quotient of two finite numbers that are not zero. The numerator is scaled so that
  the integer quotient has at least 56 bits; a sticky bit below it records a remainder,
  so that rounding the integer rounds the exact quotient.
\<close>

definition divide_finite :: "int \<Rightarrow> int \<Rightarrow> int \<Rightarrow> int \<Rightarrow> double" where
  "divide_finite m1 e1 m2 e2 =
     (let a = nat \<bar>m1\<bar>; b = nat \<bar>m2\<bar>;
          k = nat (56 + int (bit_length b) - int (bit_length a));
          q = (a * 2 ^ k) div b;
          sticky = (if (a * 2 ^ k) mod b = 0 then 0 else 1)
      in round_double ((0 < m1) = (0 < m2)) (2 * q + sticky) (e1 - e2 - int k - 1))"

text \<open>\<^verbatim>\<open>x / y\<close>. A zero divisor is the positive zero.\<close>

fun ddiv :: "double \<Rightarrow> double \<Rightarrow> double" where
  "ddiv (Finite m1 e1) (Finite m2 e2) =
     (if m2 = 0 then (if m1 = 0 then NaN else Infinity (0 < m1))
      else if m1 = 0 then Finite 0 0
      else divide_finite m1 e1 m2 e2)"
| "ddiv (Finite m e) (Infinity t) = Finite 0 0"
| "ddiv (Infinity s) (Finite m e) = Infinity (s = (0 \<le> m))"
| "ddiv (Infinity s) (Infinity t) = NaN"
| "ddiv NaN y = NaN"
| "ddiv x NaN = NaN"

declare dadd.simps [simp del] dmul.simps [simp del] ddiv.simps [simp del]

text \<open>\<^verbatim>\<open>x < y\<close> and \<^verbatim>\<open>x <= y\<close>; every comparison with \<^verbatim>\<open>NaN\<close> is false.\<close>

fun dlt :: "double \<Rightarrow> double \<Rightarrow> bool" where
  "dlt (Finite m1 e1) (Finite m2 e2) =
     (m1 * 2 ^ nat (e1 - min e1 e2) < m2 * 2 ^ nat (e2 - min e1 e2))"
| "dlt (Finite m e) (Infinity t) = t"
| "dlt (Infinity s) (Finite m e) = (\<not> s)"
| "dlt (Infinity s) (Infinity t) = (\<not> s \<and> t)"
| "dlt NaN y = False"
| "dlt x NaN = False"

fun dle :: "double \<Rightarrow> double \<Rightarrow> bool" where
  "dle (Finite m1 e1) (Finite m2 e2) =
     (m1 * 2 ^ nat (e1 - min e1 e2) \<le> m2 * 2 ^ nat (e2 - min e1 e2))"
| "dle (Finite m e) (Infinity t) = t"
| "dle (Infinity s) (Finite m e) = (\<not> s)"
| "dle (Infinity s) (Infinity t) = (\<not> s \<or> t)"
| "dle NaN y = False"
| "dle x NaN = False"

text \<open>\<^verbatim>\<open>Math.max(x, y)\<close>.\<close>

definition dmax :: "double \<Rightarrow> double \<Rightarrow> double" where
  "dmax x y = (if x = NaN \<or> y = NaN then NaN else if dlt x y then y else x)"

text \<open>A number is truthy unless it is zero or \<^verbatim>\<open>NaN\<close>.\<close>

fun number_truthy :: "double \<Rightarrow> bool" where
  "number_truthy (Finite m e) = (m \<noteq> 0)"
| "number_truthy (Infinity s) = True"
| "number_truthy NaN = False"

fun is_finite :: "double \<Rightarrow> bool" where
  "is_finite (Finite m e) = True"
| "is_finite (Infinity s) = False"
| "is_finite NaN = False"

text \<open>The real number that a finite double is.\<close>

fun dval :: "double \<Rightarrow> real" where
  "dval (Finite m e) = (if 0 \<le> e then of_int m * 2 ^ nat e else of_int m / 2 ^ nat (- e))"
| "dval (Infinity s) = 0"
| "dval NaN = 0"

section \<open>Output scheduler\<close>

text \<open>
  A chunk of the outbound queue: the samples and the duration in seconds, a JavaScript
  number.
\<close>

record outbound_chunk =
  chunk_data :: "float32 list"
  chunk_duration :: double

text \<open>
  The audio queue state of \<^verbatim>\<open>BotOutputManager\<close>. \<^verbatim>\<open>nextPlayTime\<close> starts at 0, which
  \<^verbatim>\<open>!this.nextPlayTime\<close> reads as unset; \<^verbatim>\<open>turnOffMicTimeout\<close> is kept as whether a
  timer is armed.
\<close>

record bot_output_manager =
  audioQueue :: "outbound_chunk list"
  isPlayingAudioQueue :: bool
  nextPlayTime :: double
  out_sampleRate :: nat
  out_numChannels :: nat
  turnOffMicTimeout :: bool

definition new_BotOutputManager :: bot_output_manager where
  "new_BotOutputManager =
     \<lparr>audioQueue = [], isPlayingAudioQueue = False, nextPlayTime = double_of_nat 0,
      out_sampleRate = 44100, out_numChannels = 1, turnOffMicTimeout = False\<rparr>"

text \<open>
  The exceptions that leave \<^verbatim>\<open>_processAudioQueue\<close>: the \<^verbatim>\<open>NotSupportedError\<close> of
  \<^verbatim>\<open>createBuffer\<close>, and the \<^verbatim>\<open>TypeError\<close> and \<^verbatim>\<open>RangeError\<close> of \<^verbatim>\<open>source.start\<close> for a
  time that is not finite or is negative.
\<close>

datatype output_exception = NotSupportedError | StartError js_error

text \<open>
  What a call does outside the manager: \<^verbatim>\<open>source.start(when)\<close> for a chunk,
  \<^verbatim>\<open>setTimeout\<close> of the next \<^verbatim>\<open>_processAudioQueue\<close> with its delay in milliseconds,
  arming the 2000 ms timer that turns the microphone off, the microphone callbacks, and
  ending with an exception that nothing catches.
\<close>

datatype output_call =
    StartSource double outbound_chunk
  | ProcessAgainAfter double
  | ArmMicOffTimer nat
  | TurnOnMic
  | TurnOffMic
  | Uncaught output_exception

text \<open>
  \<^verbatim>\<open>_processAudioQueue\<close>, run when the audio clock reads \<open>currentTime\<close>. Whether
  \<^verbatim>\<open>audioContext.createBuffer\<close> accepts a number of channels, a number of frames and a
  sample rate is up to the browser, so it is the parameter \<open>accepts\<close>. When it throws, or
  \<^verbatim>\<open>source.start\<close> does, the chunk has already been taken from the queue and
  \<^verbatim>\<open>nextPlayTime\<close> has caught up with the clock, but nothing is started and no timer is
  set.
\<close>

definition processOutputQueue ::
  "(nat \<Rightarrow> double \<Rightarrow> nat \<Rightarrow> bool) \<Rightarrow> double \<Rightarrow> bot_output_manager
     \<Rightarrow> bot_output_manager \<times> output_call list" where
  "processOutputQueue accepts currentTime m =
     (case audioQueue m of
        [] \<Rightarrow> (m\<lparr>isPlayingAudioQueue := False, turnOffMicTimeout := True\<rparr>, [ArmMicOffTimer 2000])
      | chunk # rest \<Rightarrow>
          (let start = (if \<not> number_truthy (nextPlayTime m) \<or> dlt (nextPlayTime m) currentTime
                        then currentTime else nextPlayTime m);
               m1 = m\<lparr>isPlayingAudioQueue := True, nextPlayTime := start, audioQueue := rest\<rparr>;
               frames = ddiv (double_of_nat (length (chunk_data chunk))) (double_of_nat (out_numChannels m))
           in if \<not> accepts (out_numChannels m) frames (out_sampleRate m)
              then (m1, [Uncaught NotSupportedError])
              else if \<not> is_finite start then (m1, [Uncaught (StartError TypeError)])
              else if dlt start (double_of_nat 0) then (m1, [Uncaught (StartError RangeError)])
              else
                (let next = dadd start (chunk_duration chunk);
                     timeUntilNextProcessMs =
                       dmul (dmul (dsub next currentTime) (double_of_nat 1000))
                            (ddiv (double_of_nat 4) (double_of_nat 5))
                 in (m1\<lparr>nextPlayTime := next\<rparr>,
                     [StartSource start chunk,
                      ProcessAgainAfter (dmax (double_of_nat 0) timeUntilNextProcessMs)]))))"

text \<open>
  \<^verbatim>\<open>playPCMAudio\<close> for samples that are already a \<^verbatim>\<open>Float32Array\<close>, with a sample rate
  and a number of channels that are natural numbers. The literal \<^verbatim>\<open>0.8\<close> above is the
  double nearest to 4/5.
\<close>

definition playPCMAudio ::
  "(nat \<Rightarrow> double \<Rightarrow> nat \<Rightarrow> bool) \<Rightarrow> float32 list \<Rightarrow> nat \<Rightarrow> nat \<Rightarrow> double \<Rightarrow> bot_output_manager
     \<Rightarrow> bot_output_manager \<times> output_call list" where
  "playPCMAudio accepts pcmData sampleRate' numChannels currentTime m =
     (let m1 = m\<lparr>out_sampleRate := sampleRate', out_numChannels := numChannels\<rparr>;
          duration' = ddiv (double_of_nat (length pcmData))
                           (dmul (double_of_nat numChannels) (double_of_nat sampleRate'));
          m2 = m1\<lparr>audioQueue := audioQueue m1 @ [\<lparr>chunk_data = pcmData, chunk_duration = duration'\<rparr>],
                   turnOffMicTimeout := False\<rparr>
      in if \<not> isPlayingAudioQueue m2
         then (fst (processOutputQueue accepts currentTime m2),
               TurnOnMic # snd (processOutputQueue accepts currentTime m2))
         else (m2, [TurnOnMic]))"

text \<open>The callback of the 2000 ms timer, when it has not been cancelled.\<close>

definition micOffTimerFired :: "bot_output_manager \<Rightarrow> bot_output_manager \<times> output_call list" where
  "micOffTimerFired m =
     (if \<not> turnOffMicTimeout m then (m, [])
      else if audioQueue m = [] then (m, [TurnOffMic]) else (m, []))"

text \<open>
  The events of the scheduler, each with the reading of the audio clock it would see: a
  call of \<^verbatim>\<open>playPCMAudio\<close>, the timer of the next drain, the timer of the microphone.
\<close>

datatype output_event =
    Play "float32 list" nat nat double
  | Drain double
  | MicOffTimer

fun output_step ::
  "(nat \<Rightarrow> double \<Rightarrow> nat \<Rightarrow> bool) \<Rightarrow> output_event \<Rightarrow> bot_output_manager
     \<Rightarrow> bot_output_manager \<times> output_call list" where
  "output_step accepts (Play pcmData sampleRate' numChannels currentTime) m =
     playPCMAudio accepts pcmData sampleRate' numChannels currentTime m"
| "output_step accepts (Drain currentTime) m = processOutputQueue accepts currentTime m"
| "output_step accepts MicOffTimer m = micOffTimerFired m"

fun run_output ::
  "(nat \<Rightarrow> double \<Rightarrow> nat \<Rightarrow> bool) \<Rightarrow> output_event list \<Rightarrow> bot_output_manager
     \<Rightarrow> bot_output_manager \<times> output_call list" where
  "run_output accepts [] m = (m, [])"
| "run_output accepts (ev # evs) m =
     (let step = output_step accepts ev m; rest = run_output accepts evs (fst step)
      in (fst rest, snd step @ snd rest))"

text \<open>
  The start times of the calls of \<^verbatim>\<open>source.start\<close>, the chunks they start, and the
  exceptions, each in order.
\<close>

fun start_times :: "output_call list \<Rightarrow> double list" where
  "start_times [] = []"
| "start_times (StartSource start chunk # calls) = start # start_times calls"
| "start_times (call # calls) = start_times calls"

fun started_chunks :: "output_call list \<Rightarrow> outbound_chunk list" where
  "started_chunks [] = []"
| "started_chunks (StartSource start chunk # calls) = chunk # started_chunks calls"
| "started_chunks (call # calls) = started_chunks calls"

fun uncaught :: "output_call list \<Rightarrow> output_exception list" where
  "uncaught [] = []"
| "uncaught (Uncaught exception # calls) = exception # uncaught calls"
| "uncaught (call # calls) = uncaught calls"

text \<open>
  A time that \<^verbatim>\<open>source.start\<close> accepts: finite and not negative.
\<close>

fun is_time :: "double \<Rightarrow> bool" where
  "is_time (Finite m e) = (0 \<le> m)"
| "is_time (Infinity s) = False"
| "is_time NaN = False"

text \<open>
  The start times of successive drains of chunks of one duration, from the value of
  \<^verbatim>\<open>nextPlayTime\<close> before the first drain and the clock readings of the drains.
\<close>

fun drain_starts :: "double \<Rightarrow> double \<Rightarrow> double list \<Rightarrow> double list" where
  "drain_starts next D [] = []"
| "drain_starts next D (currentTime # readings) =
     (let start = (if \<not> number_truthy next \<or> dlt next currentTime then currentTime else next)
      in start # drain_starts (dadd start D) D readings)"

text \<open>
  What \<^verbatim>\<open>createBuffer\<close> accepts in every browser: the Web Audio specification requires
  support for 1 to 32 channels, a length of at least one frame and a sample rate from
  8000 to 96000 Hz.
\<close>

definition createBuffer_guaranteed :: "nat \<Rightarrow> double \<Rightarrow> nat \<Rightarrow> bool" where
  "createBuffer_guaranteed numberOfChannels frames sampleRate' \<longleftrightarrow>
     1 \<le> numberOfChannels \<and> numberOfChannels \<le> 32 \<and> dle (double_of_nat 1) frames
     \<and> is_finite frames \<and> 8000 \<le> sampleRate' \<and> sampleRate' \<le> 96000"

text \<open>Chunks of silence of a tenth of a second and of one second at 44100 Hz, mono.\<close>

definition tenth_of_a_second :: "float32 list" where
  "tenth_of_a_second = replicate 4410 0"

definition one_second :: "float32 list" where
  "one_second = replicate 44100 0"

section \<open>Properties of the state machine\<close>

lemma slice_last_slice_last: "m \<le> n \<Longrightarrow> slice_last m (slice_last n ys) = slice_last m ys"
  by (simp add: slice_last_def) (rule arg_cong [where f = "\<lambda>k. drop k ys"], arith)

lemma length_slice_last: "length (slice_last n xs) = min n (length xs)"
  by (simp add: slice_last_def)

lemma shift_window:
  "(if length (slice_last 10 xs @ [s]) > 10 then tl (slice_last 10 xs @ [s])
    else slice_last 10 xs @ [s]) = slice_last 10 (xs @ [s])"
proof (cases "10 \<le> length xs")
  case True
  then have "slice_last 10 xs \<noteq> []" by (simp add: slice_last_def)
  then have "tl (slice_last 10 xs @ [s]) = tl (slice_last 10 xs) @ [s]" by simp
  also have "tl (slice_last 10 xs) = drop (Suc (length xs - 10)) xs"
    by (simp add: slice_last_def drop_Suc tl_drop)
  also have "Suc (length xs - 10) = length xs - 9" using True by simp
  finally show ?thesis using True by (simp add: slice_last_def)
next
  case False
  then show ?thesis by (simp add: slice_last_def)
qed

lemma map_of_push_interval:
  "map_of (push_interval p iv st) =
     (map_of st)(p \<mapsto> (case map_of st p of None \<Rightarrow> [] | Some ivs \<Rightarrow> ivs) @ [iv])"
  by (induction st) (auto simp: fun_eq_iff)

lemma intervals_of_addSpeechIntervalStart:
  "intervals_of (addSpeechIntervalStart ts p d) q =
     (if q = p then intervals_of d p @ [\<lparr>itype = Start, timestampMs = ts\<rparr>] else intervals_of d q)"
  by (simp add: intervals_of_def addSpeechIntervalStart_def map_of_push_interval)

lemma intervals_of_addSpeechIntervalEnd:
  "intervals_of (addSpeechIntervalEnd ts p d) q =
     (if q = p then intervals_of d p @ [\<lparr>itype = End, timestampMs = ts\<rparr>] else intervals_of d q)"
  by (simp add: intervals_of_def addSpeechIntervalEnd_def map_of_push_interval)

lemma addSample_step:
  assumes win: "samples m = slice_last 10 xs"
  shows "addSample s (m, d) =
    (if length (xs @ [s]) < 5 then (m\<lparr>samples := slice_last 10 (xs @ [s])\<rparr>, d)
     else
       let w = slice_last 5 (xs @ [s]);
           st' = (if 4 \<le> length (filter isSpeaking w) then SPEAKING else NOT_SPEAKING);
           m' = m\<lparr>samples := slice_last 10 (xs @ [s]), state := st'\<rparr>
       in if state m = NOT_SPEAKING \<and> st' = SPEAKING
          then (m', addSpeechIntervalStart (timestamp (hd w)) (participantId m) d)
          else if state m = SPEAKING \<and> st' = NOT_SPEAKING
          then (m', addSpeechIntervalEnd (timestamp (hd w) - 100) (participantId m) d)
          else (m', d))"
proof -
  let ?pushed = "samples m @ [s]"
  let ?window = "(if length ?pushed > 10 then tl ?pushed else ?pushed)"
  have window: "?window = slice_last 10 (xs @ [s])"
    unfolding win by (rule shift_window)
  have five: "slice_last 5 (slice_last 10 (xs @ [s])) = slice_last 5 (xs @ [s])"
    by (rule slice_last_slice_last) simp
  have len: "length (slice_last 5 (xs @ [s])) < 5 \<longleftrightarrow> length (xs @ [s]) < 5"
    by (auto simp: length_slice_last)
  have maj: "(3 < length (filter isSpeaking w)) = (4 \<le> length (filter isSpeaking w))" for w :: "sample list"
    by arith
  show ?thesis
    unfolding addSample_def Let_def fst_conv snd_conv five len window maj
    by (simp del: length_append)
qed

lemma addSamples_snoc: "addSamples (xs @ [s]) md = addSample s (addSamples xs md)"
  by (simp add: addSamples_def)

lemma addSamples_invariant:
  "samples (fst (addSamples xs (new_ParticipantSpeakingStateMachine p, d))) = slice_last 10 xs
   \<and> participantId (fst (addSamples xs (new_ParticipantSpeakingStateMachine p, d))) = p
   \<and> (state (fst (addSamples xs (new_ParticipantSpeakingStateMachine p, d))) = SPEAKING
        \<longleftrightarrow> 5 \<le> length xs \<and> 4 \<le> length (filter isSpeaking (slice_last 5 xs)))"
proof (induction xs rule: rev_induct)
  case Nil
  show ?case
    by (simp add: addSamples_def new_ParticipantSpeakingStateMachine_def slice_last_def)
next
  case (snoc s xs)
  obtain m d1 where md: "addSamples xs (new_ParticipantSpeakingStateMachine p, d) = (m, d1)"
    by (cases "addSamples xs (new_ParticipantSpeakingStateMachine p, d)")
  from snoc md have win: "samples m = slice_last 10 xs" and pid: "participantId m = p"
    and st: "state m = SPEAKING \<longleftrightarrow> 5 \<le> length xs \<and> 4 \<le> length (filter isSpeaking (slice_last 5 xs))"
    by simp_all
  show ?case
    unfolding addSamples_snoc md addSample_step [OF win]
    using pid st by (auto simp: Let_def)
qed

text \<open>
  Claim C1. A machine starts in \<open>NOT_SPEAKING\<close>. After any sequence \<open>xs\<close> of samples and
  one more sample \<open>s\<close>: the window holds the last ten samples received; while fewer
  than five samples have arrived the state stays \<open>NOT_SPEAKING\<close> and nothing is recorded;
  from the fifth sample on the state is \<open>SPEAKING\<close> exactly when at least four of the
  five most recent samples are true; the step from \<open>NOT_SPEAKING\<close> to \<open>SPEAKING\<close> appends
  a start event stamped with the first of those five samples; the step from \<open>SPEAKING\<close> to
  \<open>NOT_SPEAKING\<close> appends an end event stamped 100 ms before that first sample; and when
  the state does not change the manager is left as it was.
\<close>

theorem speaking_state_machine_transitions:
  "case addSamples xs (new_ParticipantSpeakingStateMachine p, d) of (m, d1) \<Rightarrow>
     case addSample s (m, d1) of (m', d2) \<Rightarrow>
       (let ys = xs @ [s]; w = slice_last 5 ys in
          samples m' = slice_last 10 ys \<and> length (samples m') \<le> 10
        \<and> (length ys < 5 \<longrightarrow> state m' = NOT_SPEAKING \<and> d2 = d1)
        \<and> (5 \<le> length ys \<longrightarrow>
              length w = 5
            \<and> (state m' = SPEAKING \<longleftrightarrow> 4 \<le> length (filter isSpeaking w))
            \<and> (state m = NOT_SPEAKING \<and> state m' = SPEAKING \<longrightarrow>
                  d2 = addSpeechIntervalStart (timestamp (hd w)) p d1
                \<and> intervals_of d2 p =
                    intervals_of d1 p @ [\<lparr>itype = Start, timestampMs = timestamp (hd w)\<rparr>])
            \<and> (state m = SPEAKING \<and> state m' = NOT_SPEAKING \<longrightarrow>
                  d2 = addSpeechIntervalEnd (timestamp (hd w) - 100) p d1
                \<and> intervals_of d2 p =
                    intervals_of d1 p @ [\<lparr>itype = End, timestampMs = timestamp (hd w) - 100\<rparr>])
            \<and> (state m' = state m \<longrightarrow> d2 = d1)))"
proof -
  obtain m d1 where md: "addSamples xs (new_ParticipantSpeakingStateMachine p, d) = (m, d1)"
    by (cases "addSamples xs (new_ParticipantSpeakingStateMachine p, d)")
  from addSamples_invariant [of xs p d] md
  have win: "samples m = slice_last 10 xs" and pid: "participantId m = p"
    and st: "state m = SPEAKING \<longleftrightarrow> 5 \<le> length xs \<and> 4 \<le> length (filter isSpeaking (slice_last 5 xs))"
    by simp_all
  have st_cases: "state m = NOT_SPEAKING \<or> state m = SPEAKING"
    by (cases "state m") simp_all
  have short: "length xs < 5 \<Longrightarrow> state m = NOT_SPEAKING"
    using st st_cases by auto
  show ?thesis
    unfolding md prod.case addSample_step [OF win]
    using pid st_cases short
    by (auto simp: Let_def length_slice_last intervals_of_addSpeechIntervalStart
        intervals_of_addSpeechIntervalEnd)
qed


theorem speaking_state_machine_transitions_witness:
  "(let xs = [\<lparr>isSpeaking = True, timestamp = 0\<rparr>, \<lparr>isSpeaking = True, timestamp = 100\<rparr>,
              \<lparr>isSpeaking = True, timestamp = 200\<rparr>, \<lparr>isSpeaking = False, timestamp = 300\<rparr>,
              \<lparr>isSpeaking = True, timestamp = 400\<rparr>];
        s = \<lparr>isSpeaking = False, timestamp = 500\<rparr>;
        md = addSamples xs (new_ParticipantSpeakingStateMachine ''P1'', new_DominantSpeakerManager);
        md' = addSample s md
    in 5 \<le> length (xs @ [s])
     \<and> state (fst md) = SPEAKING \<and> state (fst md') = NOT_SPEAKING
     \<and> intervals_of (snd md) ''P1'' = [\<lparr>itype = Start, timestampMs = 0\<rparr>]
     \<and> snd md' = addSpeechIntervalEnd (100 - 100) ''P1'' (snd md)
     \<and> intervals_of (snd md') ''P1'' =
         [\<lparr>itype = Start, timestampMs = 0\<rparr>, \<lparr>itype = End, timestampMs = 0\<rparr>])"
proof -
  let ?xs = "[\<lparr>isSpeaking = True, timestamp = 0\<rparr>, \<lparr>isSpeaking = True, timestamp = 100\<rparr>,
              \<lparr>isSpeaking = True, timestamp = 200\<rparr>, \<lparr>isSpeaking = False, timestamp = 300\<rparr>,
              \<lparr>isSpeaking = True, timestamp = 400\<rparr>]"
  let ?s = "\<lparr>isSpeaking = False, timestamp = 500\<rparr>"
  let ?m = "\<lparr>participantId = ''P1'', state = SPEAKING, samples = ?xs\<rparr>"
  let ?d = "\<lparr>dominantSpeakerStreamId = None, captionAudioTimes = [],
             speechIntervalsPerParticipant = [(''P1'', [\<lparr>itype = Start, timestampMs = 0\<rparr>])]\<rparr>"
  have run: "addSamples ?xs (new_ParticipantSpeakingStateMachine ''P1'', new_DominantSpeakerManager)
               = (?m, ?d)"
    by code_simp
  have step: "state (fst (addSample ?s (?m, ?d))) = NOT_SPEAKING"
    by code_simp
  have w: "slice_last 5 [\<lparr>isSpeaking = True, timestamp = 0\<rparr>, \<lparr>isSpeaking = True, timestamp = 100\<rparr>,
              \<lparr>isSpeaking = True, timestamp = 200\<rparr>, \<lparr>isSpeaking = False, timestamp = 300\<rparr>,
              \<lparr>isSpeaking = True, timestamp = 400\<rparr>, ?s]
           = [\<lparr>isSpeaking = True, timestamp = 100\<rparr>,
              \<lparr>isSpeaking = True, timestamp = 200\<rparr>, \<lparr>isSpeaking = False, timestamp = 300\<rparr>,
              \<lparr>isSpeaking = True, timestamp = 400\<rparr>, ?s]"
    by (simp add: slice_last_def)
  have ivs: "intervals_of ?d ''P1'' = [\<lparr>itype = Start, timestampMs = 0\<rparr>]"
    by (simp add: intervals_of_def)
  from speaking_state_machine_transitions
    [where xs = ?xs and p = "''P1''" and d = new_DominantSpeakerManager and s = ?s]
  show ?thesis
    unfolding Let_def run using step by (auto simp: w ivs)
qed

section \<open>Properties of the attribution query\<close>

lemma scan_intervals_all_before:
  "\<forall>iv \<in> set ivs. timestampMs iv \<le> T \<Longrightarrow> ivs \<noteq> [] \<Longrightarrow>
     fst (scan_intervals T ivs acc) = (itype (last ivs) = Start)
     \<and> (itype (last ivs) = Start \<longrightarrow> snd (scan_intervals T ivs acc) = Some (timestampMs (last ivs)))"
proof (induction ivs arbitrary: acc)
  case Nil
  then show ?case by simp
next
  case (Cons iv ivs)
  show ?case
  proof (cases "ivs = []")
    case True
    with Cons.prems show ?thesis by (cases "itype iv") auto
  next
    case False
    with Cons show ?thesis by (cases "itype iv") auto
  qed
qed

lemma scan_intervals_chronological:
  "sorted (map timestampMs ivs) \<Longrightarrow>
     scan_intervals T ivs acc = scan_intervals T (filter (\<lambda>iv. timestampMs iv \<le> T) ivs) acc"
proof (induction ivs arbitrary: acc)
  case Nil
  show ?case by simp
next
  case (Cons iv ivs)
  show ?case
  proof (cases "timestampMs iv > T")
    case True
    with Cons.prems have "\<forall>x \<in> set ivs. \<not> timestampMs x \<le> T" by fastforce
    then have "filter (\<lambda>iv. timestampMs iv \<le> T) ivs = []" by (simp add: filter_empty_conv)
    with True show ?thesis by simp
  next
    case False
    with Cons show ?thesis by (cases "itype iv") auto
  qed
qed

lemma scan_intervals_takeWhile:
  "scan_intervals T ivs acc = scan_intervals T (takeWhile (\<lambda>iv. timestampMs iv \<le> T) ivs) acc"
proof (induction ivs arbitrary: acc)
  case Nil
  show ?case by simp
next
  case (Cons iv ivs)
  then show ?case by (cases "itype iv") auto
qed

lemma events_recorded_in_order:
  fixes T :: int
  assumes ord: "recorded_in_order ivs"
  defines "pre \<equiv> takeWhile (\<lambda>iv. timestampMs iv \<le> T) ivs"
  shows "events_at_or_before T ivs = pre
         \<or> ((pre = [] \<or> itype (last pre) = End)
            \<and> (\<exists>ends. events_at_or_before T ivs = pre @ ends \<and> (\<forall>e \<in> set ends. itype e = End)))"
proof -
  let ?P = "\<lambda>iv. timestampMs iv \<le> T"
  let ?R = "\<lambda>x y. (itype y = Start \<longrightarrow> timestampMs x \<le> timestampMs y)
                     \<and> (itype x = End \<and> itype y = End \<longrightarrow> timestampMs x \<le> timestampMs y)"
  let ?rest = "dropWhile ?P ivs"
  have split: "ivs = pre @ ?rest" by (simp add: pre_def)
  have fpre: "filter ?P pre = pre" by (simp add: pre_def filter_id_conv) (meson set_takeWhileD)
  have ev: "events_at_or_before T ivs = pre @ filter ?P ?rest"
    unfolding events_at_or_before_def by (subst split) (simp add: fpre)
  show ?thesis
  proof (cases ?rest)
    case Nil
    with ev show ?thesis by simp
  next
    case (Cons r rs)
    then have r: "\<not> ?P r" by (metis hd_dropWhile list.sel(1) list.distinct(1))
    from ord have sw: "sorted_wrt ?R (pre @ r # rs)" and su: "successively (\<lambda>x y. \<not> (itype x = Start \<and> itype y = Start)) (pre @ r # rs)"
      unfolding recorded_in_order_def using split Cons by simp_all
    from sw have later: "\<forall>y \<in> set rs. ?R r y" by (simp add: sorted_wrt_append)
    show ?thesis
    proof (cases "itype r")
      case End
      have "\<forall>y \<in> set rs. \<not> ?P y"
      proof
        fix y assume "y \<in> set rs"
        with later have "?R r y" by blast
        with End have "timestampMs r \<le> timestampMs y" by (cases "itype y") auto
        with r show "\<not> ?P y" by simp
      qed
      then have "filter ?P rs = []" by (simp add: filter_empty_conv)
      with ev Cons r show ?thesis by simp
    next
      case Start
      have "\<forall>y \<in> set (filter ?P rs). itype y = End"
      proof
        fix y assume y: "y \<in> set (filter ?P rs)"
        then have "y \<in> set rs" and py: "?P y" by simp_all
        with later have "itype y = Start \<longrightarrow> timestampMs r \<le> timestampMs y" by blast
        with py r show "itype y = End" by (cases "itype y") auto
      qed
      moreover have "events_at_or_before T ivs = pre @ filter ?P rs"
        using ev Cons r by simp
      moreover have "pre = [] \<or> itype (last pre) = End"
      proof (cases "pre = []")
        case True
        then show ?thesis by simp
      next
        case False
        with su Start have "itype (last pre) \<noteq> Start"
          by (simp add: successively_append_iff)
        then show ?thesis by (cases "itype (last pre)") auto
      qed
      ultimately show ?thesis by blast
    qed
  qed
qed

lemma scan_intervals_open:
  assumes "chronological ivs \<or> recorded_in_order ivs"
  shows "fst (scan_intervals T ivs (False, None)) = is_open T ivs"
    and "is_open T ivs \<Longrightarrow> snd (scan_intervals T ivs (False, None)) = Some (open_since T ivs)"
proof -
  let ?P = "\<lambda>iv. timestampMs iv \<le> T"
  let ?es = "events_at_or_before T ivs"
  let ?pre = "takeWhile ?P ivs"
  have scan_pre: "scan_intervals T ivs (False, None) = scan_intervals T ?pre (False, None)"
    by (rule scan_intervals_takeWhile)
  have before_pre: "\<forall>iv \<in> set ?pre. timestampMs iv \<le> T"
    by (meson set_takeWhileD)
  have pre_facts:
    "?pre \<noteq> [] \<Longrightarrow> fst (scan_intervals T ivs (False, None)) = (itype (last ?pre) = Start)"
    "?pre \<noteq> [] \<Longrightarrow> itype (last ?pre) = Start \<Longrightarrow>
       snd (scan_intervals T ivs (False, None)) = Some (timestampMs (last ?pre))"
    "?pre = [] \<Longrightarrow> fst (scan_intervals T ivs (False, None)) = False"
    using scan_intervals_all_before [OF before_pre, of "(False, None)"] unfolding scan_pre
    by simp_all
  have shape: "?es = ?pre
         \<or> ((?pre = [] \<or> itype (last ?pre) = End)
            \<and> (\<exists>ends. ?es = ?pre @ ends \<and> (\<forall>e \<in> set ends. itype e = End)))"
  proof (cases "chronological ivs")
    case True
    then have "scan_intervals T ivs (False, None) = scan_intervals T ?es (False, None)"
      unfolding chronological_def events_at_or_before_def by (rule scan_intervals_chronological)
    from True have "filter ?P ivs = takeWhile ?P ivs"
      unfolding chronological_def
    proof (induction ivs)
      case Nil
      show ?case by simp
    next
      case (Cons iv ivs)
      show ?case
      proof (cases "?P iv")
        case True
        with Cons show ?thesis by simp
      next
        case False
        with Cons.prems have "\<forall>x \<in> set ivs. \<not> ?P x" by fastforce
        then have "filter ?P ivs = []" by (simp add: filter_empty_conv)
        with False show ?thesis by simp
      qed
    qed
    then show ?thesis by (simp add: events_at_or_before_def)
  next
    case False
    with assms have "recorded_in_order ivs" by simp
    then show ?thesis by (rule events_recorded_in_order)
  qed
  have open_iff: "is_open T ivs \<longleftrightarrow> ?pre \<noteq> [] \<and> itype (last ?pre) = Start"
    and since: "is_open T ivs \<Longrightarrow> open_since T ivs = timestampMs (last ?pre)"
  proof -
    from shape show "is_open T ivs \<longleftrightarrow> ?pre \<noteq> [] \<and> itype (last ?pre) = Start"
    proof
      assume "?es = ?pre"
      then show ?thesis by (simp add: is_open_def)
    next
      assume *: "(?pre = [] \<or> itype (last ?pre) = End)
            \<and> (\<exists>ends. ?es = ?pre @ ends \<and> (\<forall>e \<in> set ends. itype e = End))"
      then obtain ends where es: "?es = ?pre @ ends" and ends: "\<forall>e \<in> set ends. itype e = End"
        by blast
      have "\<not> is_open T ivs"
      proof (cases "ends = []")
        case True
        with es * show ?thesis by (auto simp: is_open_def)
      next
        case False
        then have "last (?pre @ ends) \<in> set ends" by simp
        with ends have "itype (last (?pre @ ends)) = End" by blast
        then show ?thesis unfolding is_open_def es by simp
      qed
      with * show ?thesis by auto
    qed
    then show "open_since T ivs = timestampMs (last ?pre)" if "is_open T ivs"
      using that shape by (auto simp: open_since_def)
  qed
  show "fst (scan_intervals T ivs (False, None)) = is_open T ivs"
    using pre_facts(1,3) open_iff by (cases "?pre = []") simp_all
  show "snd (scan_intervals T ivs (False, None)) = Some (open_since T ivs)" if "is_open T ivs"
    using that pre_facts(2) open_iff since by simp
qed

lemma speakers_of_entries:
  "\<forall>entry \<in> set st. chronological (snd entry) \<or> recorded_in_order (snd entry) \<Longrightarrow>
     concat (map (\<lambda>entry.
                    (let scanned = scan_intervals T (snd entry) (False, None)
                     in if fst scanned then [(fst entry, snd scanned)] else [])) st)
     = map (\<lambda>entry. (fst entry, Some (open_since T (snd entry))))
         (filter (\<lambda>entry. is_open T (snd entry)) st)"
  by (induction st) (simp_all add: Let_def scan_intervals_open)

lemma speakersAtTimestamp_well_ordered:
  assumes "well_ordered_intervals d"
  shows "speakersAtTimestamp T d =
           map (\<lambda>entry. (fst entry, Some (open_since T (snd entry)))) (open_participants T d)"
  unfolding speakersAtTimestamp_def open_participants_def
  using assms unfolding well_ordered_intervals_def by (rule speakers_of_entries)

lemma reduce_min:
  "fold (\<lambda>x m. if k x < k m then x else m) ys m0 \<in> insert m0 (set ys)
   \<and> (\<forall>y \<in> insert m0 (set ys). k (fold (\<lambda>x m. if k x < k m then x else m) ys m0) \<le> (k y :: int))"
proof (induction ys arbitrary: m0)
  case Nil
  show ?case by simp
next
  case (Cons y ys)
  let ?m1 = "if k y < k m0 then y else m0"
  from Cons.IH [of ?m1] show ?case by (auto split: if_splits)
qed

lemma reduce_max:
  "fold (\<lambda>x m. if k x > k m then x else m) ys m0 \<in> insert m0 (set ys)
   \<and> (\<forall>y \<in> insert m0 (set ys). (k y :: int) \<le> k (fold (\<lambda>x m. if k x > k m then x else m) ys m0))"
proof (induction ys arbitrary: m0)
  case Nil
  show ?case by simp
next
  case (Cons y ys)
  let ?m1 = "if k y > k m0 then y else m0"
  from Cons.IH [of ?m1] show ?case by (auto split: if_splits)
qed

lemma getLastSpeakerIdForTimestampMs_None:
  "getLastSpeakerIdForTimestampMs T d = None
     \<longleftrightarrow> \<not> (\<exists>e \<in> set (captionAudioTimes d). cap_timestampMs e \<le> T)"
  by (auto simp: getLastSpeakerIdForTimestampMs_def Let_def filter_empty_conv)

lemma getLastSpeakerIdForTimestampMs_Some:
  assumes "getLastSpeakerIdForTimestampMs T d = Some c"
  shows "\<exists>e. most_recent_caption T (captionAudioTimes d) e \<and> speakerId e = c"
proof -
  let ?before = "filter (\<lambda>e. cap_timestampMs e \<le> T) (captionAudioTimes d)"
  let ?e = "fold (\<lambda>x m. if cap_timestampMs x > cap_timestampMs m then x else m) (tl ?before) (hd ?before)"
  from assms have ne: "?before \<noteq> []" and c: "speakerId ?e = c"
    by (auto simp: getLastSpeakerIdForTimestampMs_def Let_def split: if_splits)
  from ne have ins: "insert (hd ?before) (set (tl ?before)) = set ?before"
    by (cases ?before) auto
  from reduce_max [of cap_timestampMs "tl ?before" "hd ?before"]
  have mem: "?e \<in> set ?before" and mx: "\<forall>y \<in> set ?before. cap_timestampMs y \<le> cap_timestampMs ?e"
    unfolding ins by blast+
  from mem mx have "most_recent_caption T (captionAudioTimes d) ?e"
    by (auto simp: most_recent_caption_def)
  with c show ?thesis by blast
qed


lemma caption_guard_redundant:
  "(if length (captionAudioTimes d) > 0 then getLastSpeakerIdForTimestampMs T d else None)
     = getLastSpeakerIdForTimestampMs T d"
  by (simp add: getLastSpeakerIdForTimestampMs_def)

lemma getSpeakerId_unfold:
  "getSpeakerIdForTimestampMsUsingSpeechIntervals T d =
     (if speakersAtTimestamp T d = [] then None
      else if length (speakersAtTimestamp T d) = 1 then Some (fst (hd (speakersAtTimestamp T d)))
      else if truthy (getLastSpeakerIdForTimestampMs T d)
              \<and> (\<exists>speaker \<in> set (speakersAtTimestamp T d).
                    fst speaker = the (getLastSpeakerIdForTimestampMs T d))
           then getLastSpeakerIdForTimestampMs T d
           else Some (fst (fold (\<lambda>speaker min'.
                                   if to_number (snd speaker) < to_number (snd min')
                                   then speaker else min')
                             (tl (speakersAtTimestamp T d)) (hd (speakersAtTimestamp T d)))))"
  unfolding getSpeakerIdForTimestampMsUsingSpeechIntervals_def caption_guard_redundant Let_def
  by simp

text \<open>
  Claim C2. For every query timestamp, on a manager whose interval lists are in recorded
  or chronological order and whose participant ids are non-empty (the caller only
  records truthy ids): the query returns nothing when no participant is open, a
  participant being open when the last of its events at or before the timestamp is a
  start; the open participant when there is exactly one; and with several open
  participants the speaker of the most recent caption entry at or before the timestamp
  when that speaker is among them, otherwise an open participant whose current interval
  started earliest. The last two conjuncts say what the caption lookup returns.
\<close>

theorem speaker_attribution_query:
  assumes chron: "well_ordered_intervals d"
      and ids: "\<forall>entry \<in> set (speechIntervalsPerParticipant d). fst entry \<noteq> []"
  shows "(open_participants T d = [] \<longrightarrow>
            getSpeakerIdForTimestampMsUsingSpeechIntervals T d = None)
       \<and> (\<forall>entry. open_participants T d = [entry] \<longrightarrow>
            getSpeakerIdForTimestampMsUsingSpeechIntervals T d = Some (fst entry))
       \<and> (2 \<le> length (open_participants T d) \<longrightarrow>
            (\<forall>c. getLastSpeakerIdForTimestampMs T d = Some c
                  \<and> c \<in> fst ` set (open_participants T d) \<longrightarrow>
                getSpeakerIdForTimestampMsUsingSpeechIntervals T d = Some c)
          \<and> (\<not> (\<exists>c. getLastSpeakerIdForTimestampMs T d = Some c
                     \<and> c \<in> fst ` set (open_participants T d)) \<longrightarrow>
                (\<exists>entry \<in> set (open_participants T d).
                    getSpeakerIdForTimestampMsUsingSpeechIntervals T d = Some (fst entry)
                  \<and> (\<forall>other \<in> set (open_participants T d).
                        open_since T (snd entry) \<le> open_since T (snd other)))))
       \<and> (getLastSpeakerIdForTimestampMs T d = None \<longleftrightarrow>
            \<not> (\<exists>e \<in> set (captionAudioTimes d). cap_timestampMs e \<le> T))
       \<and> (\<forall>c. getLastSpeakerIdForTimestampMs T d = Some c \<longrightarrow>
            (\<exists>e. most_recent_caption T (captionAudioTimes d) e \<and> speakerId e = c))"
proof -
  let ?open = "open_participants T d"
  let ?f = "\<lambda>entry :: string \<times> speech_interval list. (fst entry, Some (open_since T (snd entry)))"
  let ?res = "getSpeakerIdForTimestampMsUsingSpeechIntervals T d"
  let ?cap = "getLastSpeakerIdForTimestampMs T d"
  have sp: "speakersAtTimestamp T d = map ?f ?open"
    using chron by (rule speakersAtTimestamp_well_ordered)
  have none: "?res = None" if "?open = []"
    using that by (simp add: getSpeakerId_unfold sp)
  have one: "?res = Some (fst entry)" if "?open = [entry]" for entry
    using that by (simp add: getSpeakerId_unfold sp)
  have keys: "c \<noteq> []" if "c \<in> fst ` set ?open" for c
    using that ids by (auto simp: open_participants_def)
  have among: "(\<exists>speaker \<in> set (map ?f ?open). fst speaker = c) \<longleftrightarrow> c \<in> fst ` set ?open" for c
    by force
  have cap: "?res = Some c" if "2 \<le> length ?open" "?cap = Some c" "c \<in> fst ` set ?open" for c
    using that keys [OF that(3)] among [of c]
    by (auto simp: getSpeakerId_unfold sp truthy_def)
  have earliest: "\<exists>entry \<in> set ?open. ?res = Some (fst entry)
                    \<and> (\<forall>other \<in> set ?open. open_since T (snd entry) \<le> open_since T (snd other))"
    if len: "2 \<le> length ?open" and nocap: "\<not> (\<exists>c. ?cap = Some c \<and> c \<in> fst ` set ?open)"
  proof -
    let ?k = "\<lambda>speaker :: string \<times> int option. to_number (snd speaker)"
    let ?sp = "map ?f ?open"
    let ?min = "fold (\<lambda>x m. if ?k x < ?k m then x else m) (tl ?sp) (hd ?sp)"
    from len have ne: "?sp \<noteq> []" by auto
    then have ins: "insert (hd ?sp) (set (tl ?sp)) = set ?sp" by (cases ?sp) auto
    from reduce_min [of ?k "tl ?sp" "hd ?sp"]
    have mem: "?min \<in> set ?sp" and mn: "\<forall>y \<in> set ?sp. ?k ?min \<le> ?k y"
      unfolding ins by blast+
    from mem obtain entry where entry: "entry \<in> set ?open" and min: "?min = ?f entry" by auto
    have guard: "\<not> (truthy ?cap \<and> (\<exists>speaker \<in> set ?sp. fst speaker = the ?cap))"
      using nocap among by (cases ?cap) (auto simp: truthy_def)
    have res: "?res = Some (fst ?min)"
      using len guard
      by (auto simp: getSpeakerId_unfold sp)
    have "open_since T (snd entry) \<le> open_since T (snd other)" if "other \<in> set ?open" for other
    proof -
      from that have "?f other \<in> set ?sp" by simp
      with mn have "?k ?min \<le> ?k (?f other)" by blast
      then show ?thesis unfolding min by (simp add: to_number_def)
    qed
    with entry res min show ?thesis by auto
  qed
  from none one cap earliest getLastSpeakerIdForTimestampMs_None [of T d]
    getLastSpeakerIdForTimestampMs_Some [of T d]
  show ?thesis by blast
qed




theorem speaker_attribution_query_witness:
  "(let d = \<lparr>dominantSpeakerStreamId = None,
              captionAudioTimes = [\<lparr>cap_timestampMs = 1250, speakerId = ''A''\<rparr>],
              speechIntervalsPerParticipant =
                [(''A'', [\<lparr>itype = Start, timestampMs = 1000\<rparr>, \<lparr>itype = End, timestampMs = 999\<rparr>,
                          \<lparr>itype = Start, timestampMs = 1200\<rparr>]),
                 (''B'', [\<lparr>itype = Start, timestampMs = 1100\<rparr>])]\<rparr>
    in well_ordered_intervals d
     \<and> (\<forall>entry \<in> set (speechIntervalsPerParticipant d). fst entry \<noteq> [])
     \<and> map fst (open_participants 1300 d) = [''A'', ''B'']
     \<and> getLastSpeakerIdForTimestampMs 1300 d = Some ''A''
     \<and> getSpeakerIdForTimestampMsUsingSpeechIntervals 1300 d = Some ''A''
     \<and> map fst (open_participants 1240 d) = [''A'', ''B'']
     \<and> getLastSpeakerIdForTimestampMs 1240 d = None
     \<and> map (\<lambda>entry. open_since 1240 (snd entry)) (open_participants 1240 d) = [1200, 1100]
     \<and> getSpeakerIdForTimestampMsUsingSpeechIntervals 1240 d = Some ''B'')"
proof -
  define d where "d = \<lparr>dominantSpeakerStreamId = None,
              captionAudioTimes = [\<lparr>cap_timestampMs = 1250, speakerId = ''A''\<rparr>],
              speechIntervalsPerParticipant =
                [(''A'', [\<lparr>itype = Start, timestampMs = 1000\<rparr>, \<lparr>itype = End, timestampMs = 999\<rparr>,
                          \<lparr>itype = Start, timestampMs = 1200\<rparr>]),
                 (''B'', [\<lparr>itype = Start, timestampMs = 1100\<rparr>])]\<rparr>"
  have ord: "well_ordered_intervals d"
    unfolding d_def by (simp add: well_ordered_intervals_def recorded_in_order_def chronological_def)
  have ids: "\<forall>entry \<in> set (speechIntervalsPerParticipant d). fst entry \<noteq> []"
    unfolding d_def by simp
  have opn: "map fst (open_participants 1300 d) = [''A'', ''B'']"
    and opn': "map fst (open_participants 1240 d) = [''A'', ''B'']"
    and since: "map (\<lambda>entry. open_since 1240 (snd entry)) (open_participants 1240 d) = [1200, 1100]"
    unfolding d_def
    by (simp_all add: open_participants_def is_open_def open_since_def events_at_or_before_def)
  have cap: "getLastSpeakerIdForTimestampMs 1300 d = Some ''A''"
    and nocap: "getLastSpeakerIdForTimestampMs 1240 d = None"
    unfolding d_def by (simp_all add: getLastSpeakerIdForTimestampMs_def)
  from opn have two: "2 \<le> length (open_participants 1300 d)"
    and mem: "''A'' \<in> fst ` set (open_participants 1300 d)"
    by (simp_all flip: length_map [of fst] set_map)
  from speaker_attribution_query [OF ord ids, of 1300] two cap mem
  have r1: "getSpeakerIdForTimestampMsUsingSpeechIntervals 1300 d = Some ''A''" by blast
  have r2: "getSpeakerIdForTimestampMsUsingSpeechIntervals 1240 d = Some ''B''"
    unfolding d_def
    by (simp add: getSpeakerIdForTimestampMsUsingSpeechIntervals_def speakersAtTimestamp_def
        getLastSpeakerIdForTimestampMs_def to_number_def truthy_def)
  from ord ids opn cap r1 opn' nocap since r2
  have res: "well_ordered_intervals d
     \<and> (\<forall>entry \<in> set (speechIntervalsPerParticipant d). fst entry \<noteq> [])
     \<and> map fst (open_participants 1300 d) = [''A'', ''B'']
     \<and> getLastSpeakerIdForTimestampMs 1300 d = Some ''A''
     \<and> getSpeakerIdForTimestampMsUsingSpeechIntervals 1300 d = Some ''A''
     \<and> map fst (open_participants 1240 d) = [''A'', ''B'']
     \<and> getLastSpeakerIdForTimestampMs 1240 d = None
     \<and> map (\<lambda>entry. open_since 1240 (snd entry)) (open_participants 1240 d) = [1200, 1100]
     \<and> getSpeakerIdForTimestampMsUsingSpeechIntervals 1240 d = Some ''B''" by simp
  show ?thesis unfolding Let_def by (rule res [unfolded d_def])
qed

section \<open>Properties of the identifier reconciliation store\<close>

text \<open>
  Claim C6 says that after every sequence of source-selection operations the two link
  objects are mutual inverses. The deleting branch removes the inverse entry, but the
  storing branch only writes: when the link of physical id \<open>55\<close> is overwritten from
  virtual id \<open>9\<close> to virtual id \<open>12\<close>, the inverse object still maps \<open>9\<close> to \<open>55\<close>.
\<close>

theorem overwritten_link_leaves_stale_inverse_entry:
  "(let m = apply_selections [(''55'', ''9''), (''55'', ''12'')] new_MappingManager
    in physicalClientStreamIdToVirtualStreamIdMapping m ''55'' = Some ''12''
       \<and> virtualStreamIdToPhysicalClientStreamIdMapping m ''9'' = Some ''55''
       \<and> \<not> mutual_inverses m)"
proof -
  let ?m = "apply_selections [(''55'', ''9''), (''55'', ''12'')] new_MappingManager"
  have fwd: "physicalClientStreamIdToVirtualStreamIdMapping ?m ''55'' = Some ''12''"
    by (simp add: apply_selections_def upsertPhysicalClientStreamIdToVirtualStreamIdMapping_def
        new_MappingManager_def)
  have inv: "virtualStreamIdToPhysicalClientStreamIdMapping ?m ''9'' = Some ''55''"
    by (simp add: apply_selections_def upsertPhysicalClientStreamIdToVirtualStreamIdMapping_def
        new_MappingManager_def)
  have "\<not> mutual_inverses ?m"
  proof
    assume "mutual_inverses ?m"
    then have "physicalClientStreamIdToVirtualStreamIdMapping ?m ''55'' = Some ''9''"
      using inv unfolding mutual_inverses_def by blast
    with fwd show False by simp
  qed
  with fwd inv show ?thesis by (simp add: Let_def)
qed

lemma find_Some_mem: "find P xs = Some x \<Longrightarrow> x \<in> set xs"
  by (auto simp: find_Some_iff)

lemma code_filter_is_linked_sources: "virtualSteamsThatHavePhysicalStreams m = linked_sources m"
  by (simp add: virtualSteamsThatHavePhysicalStreams_def linked_sources_def has_link_def
      linked_client_id_def is_own_outgoing_stream_def Let_def conj_commute conj_left_commute)

lemma getVirtualVideoStreamIdToSend_preferred:
  "getVirtualVideoStreamIdToSend d m =
     map_option sourceId (preferred_source (getDominantSpeaker d m) (linked_sources m))"
  by (simp add: getVirtualVideoStreamIdToSend_def preferred_source_def
      code_filter_is_linked_sources Let_def split: option.splits)

lemma preferred_source_mem:
  "preferred_source speaker sources = Some chosen \<Longrightarrow> chosen \<in> set sources"
  by (auto simp: preferred_source_def split: if_splits option.splits dest: find_Some_mem)

lemma preferred_source_nonempty:
  "sources \<noteq> [] \<Longrightarrow> \<exists>chosen. preferred_source speaker sources = Some chosen"
  by (simp add: preferred_source_def split: option.splits)

lemma linked_source_link:
  assumes "vs \<in> set (linked_sources m)"
  shows "\<exists>link. linked_client_id m vs = Some link \<and> link \<noteq> []"
  using assms by (auto simp: linked_sources_def has_link_def truthy_def split: option.splits)

lemma getVideoStreamIdToSend_of_chosen:
  assumes "getVirtualVideoStreamIdToSend d m = Some (sourceId vs)" and "sourceId vs \<noteq> []"
  shows "getVideoStreamIdToSend d m = map_option serverStreamId (bound_PhysicalStream m vs)"
  using assms
  by (simp add: getVideoStreamIdToSend_def truthy_def bound_PhysicalStream_def linked_client_id_def
      split: option.splits)

text \<open>
  Claim C4, the state that separates the code from the sentence as written. Sources 7 and
  9 are both linked, but a physical stream record is stored only under the id linked to
  source 9. Of the sources with a resolved physical stream the first (and only) one is 9,
  bound to the record \<^verbatim>\<open>mainVideo-2\<close>. The code filters on the link alone, so it chooses
  source 7, finds no record under its linked id and returns nothing.
\<close>

theorem linked_source_without_record_is_chosen:
  "map sourceId (resolved_sources roster_one_record) = [''9'']
   \<and> map_option serverStreamId
        (bound_PhysicalStream roster_one_record (hd (resolved_sources roster_one_record)))
       = Some ''mainVideo-2''
   \<and> getVirtualVideoStreamIdToSend new_DominantSpeakerManager roster_one_record = Some ''7''
   \<and> getVideoStreamIdToSend new_DominantSpeakerManager roster_one_record = None"
  by (simp add: roster_one_record_def roster_two_webcams_def resolved_sources_def
      bound_PhysicalStream_def linked_client_id_def has_resolved_PhysicalStream_def
      is_own_outgoing_stream_def getVideoStreamIdToSend_def getVirtualVideoStreamIdToSend_def
      getDominantSpeaker_def virtualStreamIdToParticipant_def new_DominantSpeakerManager_def
      virtualSteamsThatHavePhysicalStreams_def upsertPhysicalStreams_def upsertVirtualStream_def
      apply_selections_def map_set_def truthy_def
      upsertPhysicalClientStreamIdToVirtualStreamIdMapping_def new_MappingManager_def Let_def)

text \<open>
  Claim C4, as the code has it. The sources chosen among are the screenshare and webcam
  streams of the roster that are not the agent's own outgoing stream and are linked to a
  physical client stream id, whether or not a record is stored under that id. With no
  such source \<^verbatim>\<open>getVirtualVideoStreamIdToSend\<close> returns nothing. Otherwise (the empty string
  not being a linked source id, which the caller's guard on the control message ensures)
  the choice is the first active screenshare among them; failing that the first active
  webcam of the participant of the signalled dominant speaker stream; failing that the
  first of them. \<^verbatim>\<open>getVirtualVideoStreamIdToSend\<close> returns its source id, and
  \<^verbatim>\<open>getVideoStreamIdToSend\<close> returns the server stream id of the physical stream record
  bound to it, or nothing when no record is stored under the linked id.
\<close>

theorem selected_video_source:
  assumes nolink: "virtualStreamIdToPhysicalClientStreamIdMapping m [] = None"
  shows "(linked_sources m = [] \<longrightarrow> getVirtualVideoStreamIdToSend d m = None)
       \<and> (linked_sources m \<noteq> [] \<longrightarrow>
            (\<exists>chosen \<in> set (linked_sources m).
               (case find (\<lambda>vs. isScreenShare vs \<and> isActive vs) (linked_sources m) of
                  Some screenshare \<Rightarrow> chosen = screenshare
                | None \<Rightarrow>
                    (case getDominantSpeaker d m of
                       None \<Rightarrow> chosen = hd (linked_sources m)
                     | Some speaker \<Rightarrow>
                         (case find (\<lambda>vs. participant_id (participant vs) = participant_id speaker
                                          \<and> isWebcam vs \<and> isActive vs) (linked_sources m) of
                            Some webcam \<Rightarrow> chosen = webcam
                          | None \<Rightarrow> chosen = hd (linked_sources m))))
               \<and> getVirtualVideoStreamIdToSend d m = Some (sourceId chosen)
               \<and> getVideoStreamIdToSend d m
                   = map_option serverStreamId (bound_PhysicalStream m chosen)
               \<and> (has_resolved_PhysicalStream m chosen \<longleftrightarrow> getVideoStreamIdToSend d m \<noteq> None)))"
proof (intro conjI impI)
  assume "linked_sources m = []"
  then show "getVirtualVideoStreamIdToSend d m = None"
    by (simp add: getVirtualVideoStreamIdToSend_preferred preferred_source_def)
next
  assume nonempty: "linked_sources m \<noteq> []"
  let ?cands = "linked_sources m"
  from preferred_source_nonempty [OF nonempty, of "getDominantSpeaker d m"]
  obtain chosen :: virtual_stream
    where chosen: "preferred_source (getDominantSpeaker d m) ?cands = Some chosen" by blast
  have mem: "chosen \<in> set ?cands" using chosen by (rule preferred_source_mem)
  have pick: "case find (\<lambda>vs. isScreenShare vs \<and> isActive vs) ?cands of
              Some screenshare \<Rightarrow> chosen = screenshare
            | None \<Rightarrow>
                (case getDominantSpeaker d m of
                   None \<Rightarrow> chosen = hd ?cands
                 | Some speaker \<Rightarrow>
                     (case find (\<lambda>vs. participant_id (participant vs) = participant_id speaker
                                      \<and> isWebcam vs \<and> isActive vs) ?cands of
                        Some webcam \<Rightarrow> chosen = webcam
                      | None \<Rightarrow> chosen = hd ?cands))"
    using chosen nonempty unfolding preferred_source_def
    by (auto split: option.splits)
  have virt: "getVirtualVideoStreamIdToSend d m = Some (sourceId chosen)"
    by (simp add: getVirtualVideoStreamIdToSend_preferred chosen)
  from linked_source_link [OF mem] nolink have ne: "sourceId chosen \<noteq> []"
    by (auto simp: linked_client_id_def)
  have phys: "getVideoStreamIdToSend d m = map_option serverStreamId (bound_PhysicalStream m chosen)"
    using virt ne by (rule getVideoStreamIdToSend_of_chosen)
  have res: "has_resolved_PhysicalStream m chosen \<longleftrightarrow> getVideoStreamIdToSend d m \<noteq> None"
    unfolding phys has_resolved_PhysicalStream_def by simp
  from mem pick virt phys res
  show "\<exists>chosen \<in> set ?cands.
               (case find (\<lambda>vs. isScreenShare vs \<and> isActive vs) ?cands of
                  Some screenshare \<Rightarrow> chosen = screenshare
                | None \<Rightarrow>
                    (case getDominantSpeaker d m of
                       None \<Rightarrow> chosen = hd ?cands
                     | Some speaker \<Rightarrow>
                         (case find (\<lambda>vs. participant_id (participant vs) = participant_id speaker
                                          \<and> isWebcam vs \<and> isActive vs) ?cands of
                            Some webcam \<Rightarrow> chosen = webcam
                          | None \<Rightarrow> chosen = hd ?cands)))
               \<and> getVirtualVideoStreamIdToSend d m = Some (sourceId chosen)
               \<and> getVideoStreamIdToSend d m
                   = map_option serverStreamId (bound_PhysicalStream m chosen)
               \<and> (has_resolved_PhysicalStream m chosen \<longleftrightarrow> getVideoStreamIdToSend d m \<noteq> None)"
    by blast
qed

theorem selected_video_source_witness:
  "virtualStreamIdToPhysicalClientStreamIdMapping roster_both_records [] = None
   \<and> map sourceId (linked_sources roster_both_records) = [''7'', ''9'']
   \<and> getVirtualVideoStreamIdToSend (setDominantSpeakerStreamId ''9'' new_DominantSpeakerManager)
        roster_both_records = Some ''9''
   \<and> getVideoStreamIdToSend (setDominantSpeakerStreamId ''9'' new_DominantSpeakerManager)
        roster_both_records = Some ''mainVideo-2''"
proof -
  define m where "m = roster_both_records"
  define d where "d = setDominantSpeakerStreamId ''9'' new_DominantSpeakerManager"
  note defs = roster_both_records_def roster_two_webcams_def upsertPhysicalStreams_def
    upsertVirtualStream_def apply_selections_def map_set_def truthy_def
    upsertPhysicalClientStreamIdToVirtualStreamIdMapping_def new_MappingManager_def
  have nolink: "virtualStreamIdToPhysicalClientStreamIdMapping m [] = None"
    unfolding m_def by (simp add: defs)
  have streams: "map snd (virtualStreams m) =
      [\<lparr>sourceId = ''7'', isScreenShare = False, isWebcam = True, isActive = True,
        participant = \<lparr>displayName = Some ''Alice'', participant_id = Some ''P1''\<rparr>\<rparr>,
       \<lparr>sourceId = ''9'', isScreenShare = False, isWebcam = True, isActive = True,
        participant = \<lparr>displayName = Some ''Bob'', participant_id = Some ''P2''\<rparr>\<rparr>]"
    unfolding m_def by (simp add: defs)
  have cands: "linked_sources m =
      [\<lparr>sourceId = ''7'', isScreenShare = False, isWebcam = True, isActive = True,
        participant = \<lparr>displayName = Some ''Alice'', participant_id = Some ''P1''\<rparr>\<rparr>,
       \<lparr>sourceId = ''9'', isScreenShare = False, isWebcam = True, isActive = True,
        participant = \<lparr>displayName = Some ''Bob'', participant_id = Some ''P2''\<rparr>\<rparr>]"
    unfolding linked_sources_def streams
    by (simp add: m_def has_link_def linked_client_id_def is_own_outgoing_stream_def defs)
  then have nonempty: "linked_sources m \<noteq> []" by simp
  have speaker: "getDominantSpeaker d m = Some \<lparr>displayName = Some ''Bob'', participant_id = Some ''P2''\<rparr>"
    unfolding m_def d_def
    by (simp add: getDominantSpeaker_def virtualStreamIdToParticipant_def
        setDominantSpeakerStreamId_def new_DominantSpeakerManager_def defs)
  have bound: "bound_PhysicalStream m
       \<lparr>sourceId = ''9'', isScreenShare = False, isWebcam = True, isActive = True,
        participant = \<lparr>displayName = Some ''Bob'', participant_id = Some ''P2''\<rparr>\<rparr>
      = Some \<lparr>clientStreamId = AText ''55'', serverStreamId = ''mainVideo-2''\<rparr>"
    unfolding m_def by (simp add: bound_PhysicalStream_def linked_client_id_def defs)
  from selected_video_source [OF nolink, of d] nonempty
  obtain chosen :: virtual_stream where
    pick: "case find (\<lambda>vs. isScreenShare vs \<and> isActive vs) (linked_sources m) of
              Some screenshare \<Rightarrow> chosen = screenshare
            | None \<Rightarrow>
                (case getDominantSpeaker d m of
                   None \<Rightarrow> chosen = hd (linked_sources m)
                 | Some speaker \<Rightarrow>
                     (case find (\<lambda>vs. participant_id (participant vs) = participant_id speaker
                                      \<and> isWebcam vs \<and> isActive vs) (linked_sources m) of
                        Some webcam \<Rightarrow> chosen = webcam
                      | None \<Rightarrow> chosen = hd (linked_sources m)))" and
    c1: "getVirtualVideoStreamIdToSend d m = Some (sourceId chosen)" and
    c2: "getVideoStreamIdToSend d m = map_option serverStreamId (bound_PhysicalStream m chosen)"
    by blast
  from pick have "chosen = \<lparr>sourceId = ''9'', isScreenShare = False, isWebcam = True, isActive = True,
        participant = \<lparr>displayName = Some ''Bob'', participant_id = Some ''P2''\<rparr>\<rparr>"
    unfolding cands speaker by simp
  with c1 c2 bound have "getVirtualVideoStreamIdToSend d m = Some ''9''"
    "getVideoStreamIdToSend d m = Some ''mainVideo-2''" by simp_all
  with nolink cands show ?thesis unfolding m_def d_def by simp
qed

section \<open>Properties of session description ingestion\<close>

subsection \<open>Upserting into a Map twice\<close>

lemma map_fst_replace:
  "map fst (map (\<lambda>kv. if fst kv = k then (k, v) else kv) xs) = map fst xs"
  by (induction xs) auto

lemma keys_replace:
  "fst ` set (map (\<lambda>kv. if fst kv = k then (k, v) else kv) xs) = fst ` set xs"
  using map_fst_replace [of k v xs] by (metis list.set_map)

lemma keys_map_set: "fst ` set (map_set k v xs) = insert k (fst ` set xs)"
  by (auto simp: map_set_def keys_replace simp del: set_map)

lemma keys_fold_map_set:
  "fst ` set (fold (\<lambda>r. map_set (key r) r) rs xs) = key ` set rs \<union> fst ` set xs"
  by (induction rs arbitrary: xs) (auto simp: keys_map_set)

lemma in_map_set:
  assumes "kv \<in> set (map_set k v ys)"
  shows "kv = (k, v) \<or> (kv \<in> set ys \<and> fst kv \<noteq> k)"
proof (cases "k \<in> fst ` set ys")
  case True
  with assms have "kv \<in> (\<lambda>x. if fst x = k then (k, v) else x) ` set ys"
    by (simp add: map_set_def)
  then obtain x where "x \<in> set ys" "kv = (if fst x = k then (k, v) else x)"
    by (rule imageE)
  then show ?thesis by (cases "fst x = k") auto
next
  case False
  with assms have "kv = (k, v) \<or> kv \<in> set ys" by (auto simp: map_set_def)
  moreover have "fst kv \<noteq> k" if "kv \<in> set ys"
    using that False by force
  ultimately show ?thesis by blast
qed

lemma find_append_cases:
  "find P (xs @ ys) = (case find P xs of Some x \<Rightarrow> Some x | None \<Rightarrow> find P ys)"
  by (induction xs) auto

lemma fold_map_set_present:
  "\<forall>r \<in> set rs. key r \<in> fst ` set xs \<Longrightarrow>
     fold (\<lambda>r. map_set (key r) r) rs xs =
       map (\<lambda>kv. case find (\<lambda>r. key r = fst kv) (rev rs) of Some r \<Rightarrow> (fst kv, r) | None \<Rightarrow> kv) xs"
proof (induction rs arbitrary: xs)
  case Nil
  show ?case by simp
next
  case (Cons r rs)
  let ?h = "\<lambda>kv. if fst kv = key r then (key r, r) else kv"
  from Cons.prems have present: "key r \<in> fst ` set xs" by simp
  then have step: "map_set (key r) r xs = map ?h xs" by (simp add: map_set_def)
  have keys: "fst ` set (map ?h xs) = fst ` set xs" by (rule keys_replace)
  from Cons.prems have "\<forall>r' \<in> set rs. key r' \<in> fst ` set (map ?h xs)" unfolding keys by simp
  from Cons.IH [OF this] show ?case
    unfolding fold_simps step
    by (auto simp: find_append_cases split: option.splits)
qed

lemma fold_map_set_last_wins:
  "\<forall>kv \<in> set (fold (\<lambda>r. map_set (key r) r) rs xs).
     \<forall>r. find (\<lambda>r. key r = fst kv) (rev rs) = Some r \<longrightarrow> snd kv = r"
proof (induction rs rule: rev_induct)
  case Nil
  show ?case by simp
next
  case (snoc r rs)
  show ?case
  proof (intro ballI allI impI)
    fix kv r'
    assume mem: "kv \<in> set (fold (\<lambda>r. map_set (key r) r) (rs @ [r]) xs)"
      and found: "find (\<lambda>r. key r = fst kv) (rev (rs @ [r])) = Some r'"
    from mem have "kv \<in> set (map_set (key r) r (fold (\<lambda>r. map_set (key r) r) rs xs))" by simp
    then have "kv = (key r, r)
      \<or> (kv \<in> set (fold (\<lambda>r. map_set (key r) r) rs xs) \<and> fst kv \<noteq> key r)"
      by (rule in_map_set)
    then consider "kv = (key r, r)"
      | "kv \<in> set (fold (\<lambda>r. map_set (key r) r) rs xs)" "fst kv \<noteq> key r"
      by blast
    then show "snd kv = r'"
    proof cases
      case 1
      with found show ?thesis by simp
    next
      case 2
      with found have "find (\<lambda>r. key r = fst kv) (rev rs) = Some r'" by auto
      with snoc 2 show ?thesis by blast
    qed
  qed
qed

lemma fold_map_set_twice:
  "fold (\<lambda>r. map_set (key r) r) rs (fold (\<lambda>r. map_set (key r) r) rs xs)
     = fold (\<lambda>r. map_set (key r) r) rs xs"
proof -
  let ?ys = "fold (\<lambda>r. map_set (key r) r) rs xs"
  have "\<forall>r \<in> set rs. key r \<in> fst ` set ?ys" by (simp add: keys_fold_map_set)
  then have "fold (\<lambda>r. map_set (key r) r) rs ?ys =
       map (\<lambda>kv. case find (\<lambda>r. key r = fst kv) (rev rs) of Some r \<Rightarrow> (fst kv, r) | None \<Rightarrow> kv) ?ys"
    by (rule fold_map_set_present)
  also have "\<dots> = ?ys"
  proof (rule map_idI)
    fix kv assume "kv \<in> set ?ys"
    with fold_map_set_last_wins [of key rs xs]
    have "\<forall>r. find (\<lambda>r. key r = fst kv) (rev rs) = Some r \<longrightarrow> snd kv = r" by blast
    then show "(case find (\<lambda>r. key r = fst kv) (rev rs) of Some r \<Rightarrow> (fst kv, r) | None \<Rightarrow> kv) = kv"
      by (auto split: option.splits)
  qed
  finally show ?thesis .
qed

lemma upsertPhysicalStreams_fields:
  "physicalStreamsByClientStreamId (upsertPhysicalStreams rs m)
     = fold (\<lambda>r. map_set (clientStreamId r) r) rs (physicalStreamsByClientStreamId m)"
  "physicalStreamsByServerStreamId (upsertPhysicalStreams rs m)
     = fold (\<lambda>r. map_set (serverStreamId r) r) rs (physicalStreamsByServerStreamId m)"
  "virtualStreams (upsertPhysicalStreams rs m) = virtualStreams m"
  "physicalClientStreamIdToVirtualStreamIdMapping (upsertPhysicalStreams rs m)
     = physicalClientStreamIdToVirtualStreamIdMapping m"
  "virtualStreamIdToPhysicalClientStreamIdMapping (upsertPhysicalStreams rs m)
     = virtualStreamIdToPhysicalClientStreamIdMapping m"
  unfolding upsertPhysicalStreams_def
  by (induction rs arbitrary: m) simp_all

lemma upsertPhysicalStreams_twice:
  "upsertPhysicalStreams rs (upsertPhysicalStreams rs m) = upsertPhysicalStreams rs m"
  by (rule mapping_manager.equality)
     (simp_all add: upsertPhysicalStreams_fields fold_map_set_twice)

lemma store_after_twice: "store_after sdp (store_after sdp m) = store_after sdp m"
  by (cases "extractStreamIdToSSRCMappingFromSDP sdp")
     (simp_all add: store_after_def setRemoteDescription_def upsertPhysicalStreams_twice)


subsection \<open>Records of one media section\<close>

lemma map_throwing_no_error:
  "\<forall>v \<in> set vs. \<exists>y. f v = Inr y \<Longrightarrow> map_throwing f vs = Inr (map (\<lambda>v. projr (f v)) vs)"
  by (induction vs) auto

lemma map_throwing_Inr_set:
  "map_throwing f vs = Inr ys \<Longrightarrow> set ys = {y. \<exists>v \<in> set vs. f v = Inr y}"
proof (induction vs arbitrary: ys)
  case Nil
  then show ?case by auto
next
  case (Cons v vs)
  then show ?case by (auto split: sum.splits)
qed

lemma set_set_in_order: "set (set_in_order xs) = set xs"
  by (simp add: set_in_order_def)

lemma distinct_set_in_order: "distinct (set_in_order xs)"
  by (simp add: set_in_order_def)

lemma concat_map_all_empty: "\<forall>x \<in> set xs. f x = [] \<Longrightarrow> concat (map f xs) = []"
  by (induction xs) auto

lemma concat_map_single:
  assumes "distinct xs" "a \<in> set xs" "\<forall>x \<in> set xs. x \<noteq> a \<longrightarrow> f x = []"
  shows "concat (map f xs) = f a"
  using assms
proof (induction xs)
  case Nil
  then show ?case by simp
next
  case (Cons x xs)
  show ?case
  proof (cases "x = a")
    case True
    with Cons.prems have "\<forall>y \<in> set xs. f y = []" by auto
    then have "concat (map f xs) = []" by (rule concat_map_all_empty)
    with True show ?thesis by simp
  next
    case False
    with Cons show ?thesis by auto
  qed
qed

lemma media_entry_one_record:
  assumes some: "\<exists>v \<in> set (attribute_values e ''ssrc''). extractMSID v = Inr (Some G)"
      and all: "\<forall>v \<in> set (attribute_values e ''ssrc'').
                  extractMSID v = Inr (Some G) \<or> extractMSID v = Inr None"
      and G: "G \<noteq> []"
      and R: "attribute_values e ''x-source-streamid'' = AText R # others" "R \<noteq> []"
  shows "media_entry_mapping e = Inr [\<lparr>clientStreamId = AText R, serverStreamId = G\<rparr>]"
proof -
  let ?vs = "attribute_values e ''ssrc''"
  from all have "\<forall>v \<in> set ?vs. \<exists>y. extractMSID v = Inr y" by blast
  then obtain msids where msids: "map_throwing extractMSID ?vs = Inr msids"
    using map_throwing_no_error by blast
  from map_throwing_Inr_set [OF msids] some all
  have mem: "Some G \<in> set msids" and sub: "\<forall>x \<in> set msids. x \<noteq> Some G \<longrightarrow> x = None"
    by auto
  let ?f = "\<lambda>ssrc. if truthy ssrc \<and> attr_truthy (Some (AText R))
                   then [\<lparr>clientStreamId = the (Some (AText R)), serverStreamId = the ssrc\<rparr>] else []"
  have "concat (map ?f (set_in_order msids)) = ?f (Some G)"
  proof (rule concat_map_single)
    show "distinct (set_in_order msids)" by (rule distinct_set_in_order)
    show "Some G \<in> set (set_in_order msids)" using mem by (simp add: set_set_in_order)
    show "\<forall>x \<in> set (set_in_order msids). x \<noteq> Some G \<longrightarrow> ?f x = []"
      using sub by (auto simp: set_set_in_order truthy_def)
  qed
  moreover have sid: "(case attribute_values e ''x-source-streamid'' of [] \<Rightarrow> None | v # _ \<Rightarrow> Some v)
                = Some (AText R)"
    using R by simp
  ultimately show ?thesis
    unfolding media_entry_mapping_def Let_def msids sid
    using G R by (simp add: truthy_def attr_truthy_def)
qed

lemma media_entry_no_grouping:
  assumes "\<forall>v \<in> set (attribute_values e ''ssrc''). extractMSID v = Inr None"
  shows "media_entry_mapping e = Inr []"
proof -
  let ?vs = "attribute_values e ''ssrc''"
  from assms have "\<forall>v \<in> set ?vs. \<exists>y. extractMSID v = Inr y" by blast
  then obtain msids where msids: "map_throwing extractMSID ?vs = Inr msids"
    using map_throwing_no_error by blast
  from map_throwing_Inr_set [OF msids] assms have "\<forall>x \<in> set msids. x = None" by auto
  then have "concat (map (\<lambda>ssrc. if truthy ssrc \<and> attr_truthy streamId
                then [\<lparr>clientStreamId = the streamId, serverStreamId = the ssrc\<rparr>] else [])
              (set_in_order msids)) = []" for streamId
    by (intro concat_map_all_empty) (auto simp: set_set_in_order truthy_def)
  then show ?thesis by (simp add: media_entry_mapping_def msids Let_def)
qed

lemma media_entry_no_correlation:
  assumes "attribute_values e ''x-source-streamid'' = []"
  shows "\<forall>rs. media_entry_mapping e = Inr rs \<longrightarrow> rs = []"
    and "\<forall>v \<in> set (attribute_values e ''ssrc''). v \<noteq> AFlag \<Longrightarrow> media_entry_mapping e = Inr []"
proof -
  have none: "concat (map (\<lambda>ssrc. if truthy ssrc \<and> attr_truthy None
                then [\<lparr>clientStreamId = the None, serverStreamId = the ssrc\<rparr>] else []) xs) = []"
    for xs :: "string option list"
    by (intro concat_map_all_empty) (simp add: attr_truthy_def)
  show "\<forall>rs. media_entry_mapping e = Inr rs \<longrightarrow> rs = []"
    using assms none by (auto simp: media_entry_mapping_def Let_def split: sum.splits)
  show "media_entry_mapping e = Inr []" if "\<forall>v \<in> set (attribute_values e ''ssrc''). v \<noteq> AFlag"
  proof -
    have "\<exists>y. extractMSID v = Inr y" if "v \<noteq> AFlag" for v
      using that by (cases v) (auto simp: extractMSID_def split: option.splits)
    with that have "\<forall>v \<in> set (attribute_values e ''ssrc''). \<exists>y. extractMSID v = Inr y" by blast
    then obtain msids where "map_throwing extractMSID (attribute_values e ''ssrc'') = Inr msids"
      using map_throwing_no_error by blast
    then show ?thesis using assms none by (simp add: media_entry_mapping_def Let_def)
  qed
qed

text \<open>
  Claim C5. When the description parses to a single media section whose
  synchronization-source lines carry one stream-grouping identifier \<open>G\<close> (lines without an
  \<^verbatim>\<open>msid:\<close> part are allowed beside them) and whose roster-correlation attribute is \<open>R\<close>,
  one record is extracted and a fresh manager holds exactly that record, under \<open>R\<close> in the
  index by client stream id and under \<open>G\<close> in the index by server stream id. A media
  section none of whose synchronization-source lines carries a stream-grouping identifier,
  or that has no roster-correlation attribute, contributes no record (with a flag-valued
  \<^verbatim>\<open>ssrc\<close> attribute the extraction throws instead, and nothing is stored at all).
  Ingesting a description a second time leaves the manager as the first ingestion left it.
\<close>

theorem session_description_ingestion:
  "(media (parseSDP sdp) = [e]
      \<and> (\<exists>v \<in> set (attribute_values e ''ssrc''). extractMSID v = Inr (Some G))
      \<and> (\<forall>v \<in> set (attribute_values e ''ssrc'').
            extractMSID v = Inr (Some G) \<or> extractMSID v = Inr None)
      \<and> G \<noteq> []
      \<and> attribute_values e ''x-source-streamid'' = [AText R] \<and> R \<noteq> []
    \<longrightarrow> extractStreamIdToSSRCMappingFromSDP sdp
          = Inr [\<lparr>clientStreamId = AText R, serverStreamId = G\<rparr>]
       \<and> setRemoteDescription sdp new_MappingManager
          = Inr (new_MappingManager
                  \<lparr>physicalStreamsByClientStreamId :=
                     [(AText R, \<lparr>clientStreamId = AText R, serverStreamId = G\<rparr>)],
                   physicalStreamsByServerStreamId :=
                     [(G, \<lparr>clientStreamId = AText R, serverStreamId = G\<rparr>)]\<rparr>))
   \<and> ((\<forall>v \<in> set (attribute_values e' ''ssrc''). extractMSID v = Inr None)
        \<longrightarrow> media_entry_mapping e' = Inr [])
   \<and> (attribute_values e' ''x-source-streamid'' = []
        \<longrightarrow> (\<forall>rs. media_entry_mapping e' = Inr rs \<longrightarrow> rs = [])
          \<and> ((\<forall>v \<in> set (attribute_values e' ''ssrc''). v \<noteq> AFlag)
               \<longrightarrow> media_entry_mapping e' = Inr []))
   \<and> store_after sdp (store_after sdp m) = store_after sdp m"
proof -
  have one: "extractStreamIdToSSRCMappingFromSDP sdp
          = Inr [\<lparr>clientStreamId = AText R, serverStreamId = G\<rparr>]
       \<and> setRemoteDescription sdp new_MappingManager
          = Inr (new_MappingManager
                  \<lparr>physicalStreamsByClientStreamId :=
                     [(AText R, \<lparr>clientStreamId = AText R, serverStreamId = G\<rparr>)],
                   physicalStreamsByServerStreamId :=
                     [(G, \<lparr>clientStreamId = AText R, serverStreamId = G\<rparr>)]\<rparr>)"
    if "media (parseSDP sdp) = [e]"
      "\<exists>v \<in> set (attribute_values e ''ssrc''). extractMSID v = Inr (Some G)"
      "\<forall>v \<in> set (attribute_values e ''ssrc'').
            extractMSID v = Inr (Some G) \<or> extractMSID v = Inr None"
      "G \<noteq> []" "attribute_values e ''x-source-streamid'' = [AText R]" "R \<noteq> []"
  proof -
    from media_entry_one_record [OF that(2,3,4,5,6)]
    have "media_entry_mapping e = Inr [\<lparr>clientStreamId = AText R, serverStreamId = G\<rparr>]" .
    with that(1)
    have ex: "extractStreamIdToSSRCMappingFromSDP sdp
                = Inr [\<lparr>clientStreamId = AText R, serverStreamId = G\<rparr>]"
      by (simp add: extractStreamIdToSSRCMappingFromSDP_def)
    then show ?thesis
      by (simp add: setRemoteDescription_def upsertPhysicalStreams_def new_MappingManager_def
          map_set_def)
  qed
  from one media_entry_no_grouping [of e'] media_entry_no_correlation [of e']
    store_after_twice [of sdp m]
  show ?thesis by blast
qed


theorem session_description_ingestion_witness:
  "(let sdp = ''v=0'' @ [CHR 0x0D, CHR 0x0A] @
             ''m=video 9 UDP/TLS/RTP/SAVPF 107'' @ [CHR 0x0D, CHR 0x0A] @
             ''a=x-source-streamid:55'' @ [CHR 0x0D, CHR 0x0A] @
             ''a=ssrc:1001 cname:abc'' @ [CHR 0x0D, CHR 0x0A] @
             ''a=ssrc:1001 msid:mainVideo-39016 track1'' @ [CHR 0x0D, CHR 0x0A] @
             ''a=ssrc:1002 msid:mainVideo-39016 track1'' @ [CHR 0x0D, CHR 0x0A];
        e = \<lparr>media_type = ''video'', description = ''m=video 9 UDP/TLS/RTP/SAVPF 107'',
             attributes = [(''x-source-streamid'', [AText ''55'']),
                           (''ssrc'', [AText ''1001 cname:abc'',
                                       AText ''1001 msid:mainVideo-39016 track1'',
                                       AText ''1002 msid:mainVideo-39016 track1''])]\<rparr>;
        e' = \<lparr>media_type = ''audio'', description = ''m=audio 9 UDP/TLS/RTP/SAVPF 111'',
             attributes = [(''ssrc'', [AText ''2001 msid:mainAudio-1 track2''])]\<rparr>
    in media (parseSDP sdp) = [e]
     \<and> (\<forall>v \<in> set (attribute_values e ''ssrc'').
            extractMSID v = Inr (Some ''mainVideo-39016'') \<or> extractMSID v = Inr None)
     \<and> attribute_values e ''x-source-streamid'' = [AText ''55'']
     \<and> setRemoteDescription sdp new_MappingManager
          = Inr (new_MappingManager
                  \<lparr>physicalStreamsByClientStreamId :=
                     [(AText ''55'', \<lparr>clientStreamId = AText ''55'', serverStreamId = ''mainVideo-39016''\<rparr>)],
                   physicalStreamsByServerStreamId :=
                     [(''mainVideo-39016'', \<lparr>clientStreamId = AText ''55'', serverStreamId = ''mainVideo-39016''\<rparr>)]\<rparr>)
     \<and> attribute_values e' ''x-source-streamid'' = []
     \<and> media_entry_mapping e' = Inr [])"
proof -
  define sdp where "sdp = ''v=0'' @ [CHR 0x0D, CHR 0x0A] @
             ''m=video 9 UDP/TLS/RTP/SAVPF 107'' @ [CHR 0x0D, CHR 0x0A] @
             ''a=x-source-streamid:55'' @ [CHR 0x0D, CHR 0x0A] @
             ''a=ssrc:1001 cname:abc'' @ [CHR 0x0D, CHR 0x0A] @
             ''a=ssrc:1001 msid:mainVideo-39016 track1'' @ [CHR 0x0D, CHR 0x0A] @
             ''a=ssrc:1002 msid:mainVideo-39016 track1'' @ [CHR 0x0D, CHR 0x0A]"
  define e where "e = \<lparr>media_type = ''video'', description = ''m=video 9 UDP/TLS/RTP/SAVPF 107'',
             attributes = [(''x-source-streamid'', [AText ''55'']),
                           (''ssrc'', [AText ''1001 cname:abc'',
                                       AText ''1001 msid:mainVideo-39016 track1'',
                                       AText ''1002 msid:mainVideo-39016 track1''])]\<rparr>"
  define e' where "e' = \<lparr>media_type = ''audio'', description = ''m=audio 9 UDP/TLS/RTP/SAVPF 111'',
             attributes = [(''ssrc'', [AText ''2001 msid:mainAudio-1 track2''])]\<rparr>"
  have parsed: "media (parseSDP sdp) = [e]"
    unfolding sdp_def e_def by code_simp
  have msids: "\<forall>v \<in> set (attribute_values e ''ssrc'').
            extractMSID v = Inr (Some ''mainVideo-39016'') \<or> extractMSID v = Inr None"
    unfolding e_def by code_simp
  have some: "\<exists>v \<in> set (attribute_values e ''ssrc''). extractMSID v = Inr (Some ''mainVideo-39016'')"
    unfolding e_def by code_simp
  have sid: "attribute_values e ''x-source-streamid'' = [AText ''55'']"
    unfolding e_def by (simp add: attribute_values_def)
  have nosid: "attribute_values e' ''x-source-streamid'' = []"
    unfolding e'_def by (simp add: attribute_values_def)
  have noflag: "\<forall>v \<in> set (attribute_values e' ''ssrc''). v \<noteq> AFlag"
    unfolding e'_def by (simp add: attribute_values_def)
  from session_description_ingestion
    [where sdp = sdp and e = e and G = "''mainVideo-39016''" and R = "''55''" and e' = e'
       and m = new_MappingManager]
    parsed msids some sid nosid noflag
  have res: "media (parseSDP sdp) = [e]
     \<and> (\<forall>v \<in> set (attribute_values e ''ssrc'').
            extractMSID v = Inr (Some ''mainVideo-39016'') \<or> extractMSID v = Inr None)
     \<and> attribute_values e ''x-source-streamid'' = [AText ''55'']
     \<and> setRemoteDescription sdp new_MappingManager
          = Inr (new_MappingManager
                  \<lparr>physicalStreamsByClientStreamId :=
                     [(AText ''55'', \<lparr>clientStreamId = AText ''55'', serverStreamId = ''mainVideo-39016''\<rparr>)],
                   physicalStreamsByServerStreamId :=
                     [(''mainVideo-39016'', \<lparr>clientStreamId = AText ''55'', serverStreamId = ''mainVideo-39016''\<rparr>)]\<rparr>)
     \<and> attribute_values e' ''x-source-streamid'' = []
     \<and> media_entry_mapping e' = Inr []"
    by simp
  show ?thesis unfolding Let_def by (rule res [unfolded sdp_def e_def e'_def])
qed

section \<open>Properties of the wire framing\<close>

lemma bit_word_le:
  "bit (word_le bs :: 'a::len word) n \<longleftrightarrow>
     n < LENGTH('a) \<and> n div 8 < length bs \<and> bit (bs ! (n div 8)) (n mod 8)"
proof (induction bs arbitrary: n)
  case Nil
  show ?case by (simp add: word_le_def)
next
  case (Cons b bs)
  have unfold: "word_le (b # bs) = (ucast b OR push_bit 8 (word_le bs) :: 'a word)"
    by (simp add: word_le_def)
  show ?case
  proof (cases "n < 8")
    case True
    then show ?thesis
      unfolding unfold by (auto simp: bit_simps bit_or_iff dest: bit_imp_le_length)
  next
    case False
    then have split: "n div 8 = Suc ((n - 8) div 8)" "n mod 8 = (n - 8) mod 8"
      by (simp_all add: le_div_geq le_mod_geq)
    from False show ?thesis
      unfolding unfold using Cons.IH [of "n - 8"] split
      by (auto simp: bit_simps bit_or_iff dest: bit_imp_le_length)
  qed
qed

lemma word_le_bytes_le:
  assumes "LENGTH('a::len) \<le> 8 * k"
  shows "word_le (bytes_le k w) = (w :: 'a word)"
proof (rule bit_word_eqI)
  fix n assume n: "n < LENGTH('a)"
  with assms have "n div 8 < k" by (simp add: less_mult_imp_div_less mult.commute)
  with n show "bit (word_le (bytes_le k w) :: 'a word) n \<longleftrightarrow> bit w n"
    by (simp add: bit_word_le bytes_le_def bit_simps)
qed

lemma length_bytes_le: "length (bytes_le n w) = n"
  by (simp add: bytes_le_def)

lemma length_utf8_encode: "length (utf8_encode s) = length s"
  by (simp add: utf8_encode_def)

lemma set_bytes_next:
  "length written = offset \<Longrightarrow> length src \<le> n \<Longrightarrow>
     set_bytes src offset (written @ replicate n 0) = Inr ((written @ src) @ replicate (n - length src) 0)"
  by (simp add: set_bytes_def)

lemma per_participant_audio_layout:
  "per_participant_audio_message pid audio =
     Inr (bytes_le 4 (5 :: 32 word) @ [word_of_nat (length (utf8_encode pid))] @ utf8_encode pid @ audio)"
proof -
  let ?p = "utf8_encode pid"
  have 1: "setInt32 0 MESSAGE_TYPE_PER_PARTICIPANT_AUDIO (new_Uint8Array (4 + 1 + length ?p + length audio))
            = Inr (bytes_le 4 (5 :: 32 word) @ replicate (1 + length ?p + length audio) 0)"
    using set_bytes_next [of "[]" 0 "bytes_le 4 (5 :: 32 word)" "4 + 1 + length ?p + length audio"]
    by (simp add: setInt32_def new_Uint8Array_def MESSAGE_TYPE_PER_PARTICIPANT_AUDIO_def length_bytes_le)
  have 2: "setUint8 4 (length ?p) (bytes_le 4 (5 :: 32 word) @ replicate (1 + length ?p + length audio) 0)
            = Inr ((bytes_le 4 (5 :: 32 word) @ [word_of_nat (length ?p)]) @ replicate (length ?p + length audio) 0)"
    unfolding setUint8_def by (subst set_bytes_next) (simp_all add: length_bytes_le)
  have 3: "set_bytes ?p 5 ((bytes_le 4 (5 :: 32 word) @ [word_of_nat (length ?p)]) @ replicate (length ?p + length audio) 0)
            = Inr (((bytes_le 4 (5 :: 32 word) @ [word_of_nat (length ?p)]) @ ?p) @ replicate (length audio) 0)"
    by (subst set_bytes_next) (simp_all add: length_bytes_le)
  have 4: "set_bytes audio (5 + length ?p) (((bytes_le 4 (5 :: 32 word) @ [word_of_nat (length ?p)]) @ ?p) @ replicate (length audio) 0)
            = Inr ((((bytes_le 4 (5 :: 32 word) @ [word_of_nat (length ?p)]) @ ?p) @ audio) @ replicate 0 0)"
    by (subst set_bytes_next) (simp_all add: length_bytes_le)
  show ?thesis
    unfolding per_participant_audio_message_def Let_def 1 2 3 4 then_js_def sum.case
    by simp
qed


lemma video_layout:
  "video_message ts sid w h video =
     Inr (bytes_le 4 (2 :: 32 word) @ bytes_le 8 (word_of_int ts :: 64 word)
          @ bytes_le 4 (word_of_nat (length (utf8_encode sid)) :: 32 word) @ utf8_encode sid
          @ bytes_le 4 (word_of_int w :: 32 word) @ bytes_le 4 (word_of_int h :: 32 word) @ video)"
proof -
  let ?s = "utf8_encode sid"
  let ?tag = "bytes_le 4 (2 :: 32 word)"
  let ?ts = "bytes_le 8 (word_of_int ts :: 64 word)"
  let ?len = "bytes_le 4 (word_of_nat (length ?s) :: 32 word)"
  let ?w = "bytes_le 4 (word_of_int w :: 32 word)"
  let ?h = "bytes_le 4 (word_of_int h :: 32 word)"
  note len = length_bytes_le
  have 1: "setInt32 0 MESSAGE_TYPE_VIDEO (new_Uint8Array (4 + 8 + 4 + length ?s + 4 + 4 + length video))
            = Inr (?tag @ replicate (8 + 4 + length ?s + 4 + 4 + length video) 0)"
    using set_bytes_next [of "[]" 0 ?tag "4 + 8 + 4 + length ?s + 4 + 4 + length video"]
    by (simp add: setInt32_def new_Uint8Array_def MESSAGE_TYPE_VIDEO_def len)
  have 2: "setBigInt64 4 ts (?tag @ replicate (8 + 4 + length ?s + 4 + 4 + length video) 0)
            = Inr ((?tag @ ?ts) @ replicate (4 + length ?s + 4 + 4 + length video) 0)"
    unfolding setBigInt64_def by (subst set_bytes_next) (simp_all add: len)
  have 3: "setInt32 12 (int (length ?s)) ((?tag @ ?ts) @ replicate (4 + length ?s + 4 + 4 + length video) 0)
            = Inr (((?tag @ ?ts) @ ?len) @ replicate (length ?s + 4 + 4 + length video) 0)"
    unfolding setInt32_def by (subst set_bytes_next) (simp_all add: len)
  have 4: "set_bytes ?s 16 (((?tag @ ?ts) @ ?len) @ replicate (length ?s + 4 + 4 + length video) 0)
            = Inr ((((?tag @ ?ts) @ ?len) @ ?s) @ replicate (4 + 4 + length video) 0)"
    by (subst set_bytes_next) (simp_all add: len)
  have 5: "setInt32 (16 + length ?s) w ((((?tag @ ?ts) @ ?len) @ ?s) @ replicate (4 + 4 + length video) 0)
            = Inr (((((?tag @ ?ts) @ ?len) @ ?s) @ ?w) @ replicate (4 + length video) 0)"
    unfolding setInt32_def by (subst set_bytes_next) (simp_all add: len)
  have 6: "setInt32 (16 + length ?s + 4) h (((((?tag @ ?ts) @ ?len) @ ?s) @ ?w) @ replicate (4 + length video) 0)
            = Inr ((((((?tag @ ?ts) @ ?len) @ ?s) @ ?w) @ ?h) @ replicate (length video) 0)"
    unfolding setInt32_def by (subst set_bytes_next) (simp_all add: len)
  have 7: "set_bytes video (16 + length ?s + 8) ((((((?tag @ ?ts) @ ?len) @ ?s) @ ?w) @ ?h) @ replicate (length video) 0)
            = Inr (((((((?tag @ ?ts) @ ?len) @ ?s) @ ?w) @ ?h) @ video) @ replicate 0 0)"
    by (subst set_bytes_next) (simp_all add: len)
  show ?thesis
    unfolding video_message_def Let_def 1 2 3 4 5 6 7 then_js_def sum.case
    by simp
qed

lemma decode_per_participant_audio_layout:
  assumes "length pid < 256"
  shows "decode_per_participant_audio
           (bytes_le 4 (5 :: 32 word) @ [word_of_nat (length pid)] @ pid @ audio) = Some (pid, audio)"
proof -
  let ?msg = "bytes_le 4 (5 :: 32 word) @ [word_of_nat (length pid)] @ pid @ audio"
  have tag: "(word_le (take 4 ?msg) :: 32 word) = 5"
    by (simp add: length_bytes_le word_le_bytes_le)
  have n: "unat (?msg ! 4) = length pid"
    using assms by (simp add: nth_append length_bytes_le unat_of_nat)
  show ?thesis
    unfolding decode_per_participant_audio_def Let_def tag n
    by (simp add: length_bytes_le)
qed

lemma decode_video_layout:
  assumes "length sid < 2 ^ 32"
  shows "decode_video
           (bytes_le 4 (2 :: 32 word) @ bytes_le 8 (tsw :: 64 word)
            @ bytes_le 4 (word_of_nat (length sid) :: 32 word) @ sid
            @ bytes_le 4 (ww :: 32 word) @ bytes_le 4 (hw :: 32 word) @ video)
         = Some (tsw, sid, ww, hw, video)"
proof -
  let ?msg = "bytes_le 4 (2 :: 32 word) @ bytes_le 8 tsw
            @ bytes_le 4 (word_of_nat (length sid) :: 32 word) @ sid
            @ bytes_le 4 ww @ bytes_le 4 hw @ video"
  note len = length_bytes_le
  have tag: "(word_le (take 4 ?msg) :: 32 word) = 2"
    by (simp add: len word_le_bytes_le)
  have ts: "(word_le (take 8 (drop 4 ?msg)) :: 64 word) = tsw"
    by (simp add: len word_le_bytes_le)
  have n: "unat (word_le (take 4 (drop 12 ?msg)) :: 32 word) = length sid"
    using assms by (simp add: len word_le_bytes_le unat_of_nat)
  have sidb: "take (length sid) (drop 16 ?msg) = sid"
    by (simp add: len)
  have w: "(word_le (take 4 (drop (16 + length sid) ?msg)) :: 32 word) = ww"
    by (simp add: len word_le_bytes_le)
  have h: "(word_le (take 4 (drop (16 + length sid + 4) ?msg)) :: 32 word) = hw"
    by (simp add: len word_le_bytes_le)
  have v: "drop (16 + length sid + 8) ?msg = video"
    by (simp add: len)
  have long: "\<not> length ?msg < 16" "\<not> length ?msg < 16 + length sid + 8"
    by (simp_all add: len)
  show ?thesis
    unfolding decode_video_def Let_def tag ts n sidb w h v
    using long by simp
qed


lemma inj_utf8_encode: "utf8_encode a = utf8_encode b \<Longrightarrow> a = b"
proof -
  have byte: "unat (word_of_nat (of_char c) :: byte) = of_char c" for c :: char
    by (simp add: unat_of_nat)
  have "inj (\<lambda>c :: char. (word_of_nat (of_char c) :: byte))"
  proof (rule injI)
    fix c d :: char
    assume "(word_of_nat (of_char c) :: byte) = word_of_nat (of_char d)"
    then have "unat (word_of_nat (of_char c) :: byte) = unat (word_of_nat (of_char d) :: byte)"
      by simp
    then have "(of_char c :: nat) = of_char d" by (simp only: byte)
    then show "c = d" by simp
  qed
  then have "inj (map (\<lambda>c :: char. (word_of_nat (of_char c) :: byte)))" by simp
  moreover assume "utf8_encode a = utf8_encode b"
  ultimately show ?thesis unfolding utf8_encode_def by (simp add: inj_eq)
qed

text \<open>
  Claim C8. The message built by \<^verbatim>\<open>sendPerParticipantAudio\<close> is the little-endian type tag
  5 on four bytes, one byte holding the length of the participant id, the id bytes and the
  sample bytes; the message built by \<^verbatim>\<open>sendVideo\<close> is the tag 2, the timestamp on eight
  bytes, the length of the stream id on four bytes, the stream id bytes, the width and the
  height on four bytes each, and the pixel bytes; on an open socket with media sending
  enabled exactly that message is sent. Reading a message back by this layout returns
  every field: for a participant id of at most 255 bytes (the empty id included), and for
  a stream id shorter than \<open>2\<^sup>3\<^sup>2\<close> bytes. An identifier is determined by its bytes.
\<close>

theorem wire_framing_round_trip:
  "per_participant_audio_message pid audio =
     Inr (bytes_le 4 (5 :: 32 word) @ [word_of_nat (length (utf8_encode pid))] @ utf8_encode pid @ audio)
   \<and> video_message ts sid w h video =
     Inr (bytes_le 4 (2 :: 32 word) @ bytes_le 8 (word_of_int ts :: 64 word)
          @ bytes_le 4 (word_of_nat (length (utf8_encode sid)) :: 32 word) @ utf8_encode sid
          @ bytes_le 4 (word_of_int w :: 32 word) @ bytes_le 4 (word_of_int h :: 32 word) @ video)
   \<and> (ws_open ws \<and> mediaSendingEnabled ws \<longrightarrow>
         (\<exists>message. per_participant_audio_message pid audio = Inr message
             \<and> sent (sendPerParticipantAudio pid audio ws) = sent ws @ [message])
       \<and> (\<exists>message. video_message ts sid w h video = Inr message
             \<and> sent (sendVideo ts sid w h video ws) = sent ws @ [message]))
   \<and> (length (utf8_encode pid) \<le> 255 \<longrightarrow>
         (\<exists>message. per_participant_audio_message pid audio = Inr message
             \<and> decode_per_participant_audio message = Some (utf8_encode pid, audio)))
   \<and> (length (utf8_encode sid) < 2 ^ 32 \<longrightarrow>
         (\<exists>message. video_message ts sid w h video = Inr message
             \<and> decode_video message
                 = Some (word_of_int ts, utf8_encode sid, word_of_int w, word_of_int h, video)))
   \<and> (\<forall>other. utf8_encode other = utf8_encode pid \<longrightarrow> other = pid)"
proof -
  note a = per_participant_audio_layout [of pid audio]
  note v = video_layout [of ts sid w h video]
  have sa: "sent (sendPerParticipantAudio pid audio ws) = sent ws
      @ [bytes_le 4 (5 :: 32 word) @ [word_of_nat (length (utf8_encode pid))] @ utf8_encode pid @ audio]"
    if "ws_open ws" "mediaSendingEnabled ws"
    using that by (simp add: sendPerParticipantAudio_def a)
  have sv: "sent (sendVideo ts sid w h video ws) = sent ws
      @ [bytes_le 4 (2 :: 32 word) @ bytes_le 8 (word_of_int ts :: 64 word)
          @ bytes_le 4 (word_of_nat (length (utf8_encode sid)) :: 32 word) @ utf8_encode sid
          @ bytes_le 4 (word_of_int w :: 32 word) @ bytes_le 4 (word_of_int h :: 32 word) @ video]"
    if "ws_open ws" "mediaSendingEnabled ws"
    using that by (simp add: sendVideo_def v)
  have da: "decode_per_participant_audio
      (bytes_le 4 (5 :: 32 word) @ [word_of_nat (length (utf8_encode pid))] @ utf8_encode pid @ audio)
      = Some (utf8_encode pid, audio)" if "length (utf8_encode pid) \<le> 255"
    using that by (intro decode_per_participant_audio_layout) simp
  have dv: "decode_video
      (bytes_le 4 (2 :: 32 word) @ bytes_le 8 (word_of_int ts :: 64 word)
          @ bytes_le 4 (word_of_nat (length (utf8_encode sid)) :: 32 word) @ utf8_encode sid
          @ bytes_le 4 (word_of_int w :: 32 word) @ bytes_le 4 (word_of_int h :: 32 word) @ video)
      = Some (word_of_int ts, utf8_encode sid, word_of_int w, word_of_int h, video)"
    if "length (utf8_encode sid) < 2 ^ 32"
    using that by (rule decode_video_layout)
  from a v sa sv da dv inj_utf8_encode [of _ pid] show ?thesis
    by (intro conjI impI allI) auto
qed


theorem wire_framing_round_trip_witness:
  "(let ws = \<lparr>ws_open = True, mediaSendingEnabled = True, sent = []\<rparr>;
        long_id = replicate 255 (CHR ''p'')
    in ws_open ws \<and> mediaSendingEnabled ws
     \<and> length (utf8_encode []) \<le> 255
     \<and> sent (sendPerParticipantAudio [] [1, 2] ws) = [[5, 0, 0, 0, 0, 1, 2]]
     \<and> decode_per_participant_audio [5, 0, 0, 0, 0, 1, 2] = Some ([], [1, 2])
     \<and> length (utf8_encode long_id) \<le> 255
     \<and> (\<exists>message. per_participant_audio_message long_id [1, 2] = Inr message
            \<and> length message = 262
            \<and> decode_per_participant_audio message = Some (utf8_encode long_id, [1, 2]))
     \<and> length (utf8_encode ''7'') < 2 ^ 32
     \<and> sent (sendVideo 1 ''7'' 2 3 [9] ws)
         = [[2, 0, 0, 0, 1, 0, 0, 0, 0, 0, 0, 0, 1, 0, 0, 0, 55, 2, 0, 0, 0, 3, 0, 0, 0, 9]]
     \<and> decode_video [2, 0, 0, 0, 1, 0, 0, 0, 0, 0, 0, 0, 1, 0, 0, 0, 55, 2, 0, 0, 0, 3, 0, 0, 0, 9]
         = Some (1, [55], 2, 3, [9]))"
proof -
  define ws where "ws = \<lparr>ws_open = True, mediaSendingEnabled = True, sent = ([] :: byte list list)\<rparr>"
  define long_id where "long_id = replicate 255 (CHR ''p'')"
  have open_enabled: "ws_open ws \<and> mediaSendingEnabled ws" and nothing: "sent ws = []"
    by (simp_all add: ws_def)
  have short: "length (utf8_encode []) \<le> 255" by (simp add: utf8_encode_def)
  have long: "length (utf8_encode long_id) \<le> 255" by (simp add: utf8_encode_def long_id_def)
  have sid: "length (utf8_encode ''7'') < 2 ^ 32" by (simp add: utf8_encode_def)
  have r1: "sent (sendPerParticipantAudio [] [1, 2] ws) = [[5, 0, 0, 0, 0, 1, 2]]"
    unfolding ws_def by code_simp
  have r2: "decode_per_participant_audio [5, 0, 0, 0, 0, 1, 2] = Some ([], [1, 2])"
    by code_simp
  have r3: "sent (sendVideo 1 ''7'' 2 3 [9] ws)
         = [[2, 0, 0, 0, 1, 0, 0, 0, 0, 0, 0, 0, 1, 0, 0, 0, 55, 2, 0, 0, 0, 3, 0, 0, 0, 9]]"
    unfolding ws_def by code_simp
  have r4: "decode_video [2, 0, 0, 0, 1, 0, 0, 0, 0, 0, 0, 0, 1, 0, 0, 0, 55, 2, 0, 0, 0, 3, 0, 0, 0, 9]
         = Some (1, [55], 2, 3, [9])"
    by code_simp
  note t2 = wire_framing_round_trip
    [where pid = long_id and audio = "[1, 2]" and ts = 1 and sid = "''7''" and w = 2 and h = 3
       and video = "[9]" and ws = ws]
  from t2 long
  have r5: "\<exists>message. per_participant_audio_message long_id [1, 2] = Inr message
            \<and> length message = 262
            \<and> decode_per_participant_audio message = Some (utf8_encode long_id, [1, 2])"
    by (auto simp: utf8_encode_def long_id_def bytes_le_def)
  from open_enabled short r1 r2 long r5 sid r3 r4
  have res: "ws_open ws \<and> mediaSendingEnabled ws
     \<and> length (utf8_encode []) \<le> 255
     \<and> sent (sendPerParticipantAudio [] [1, 2] ws) = [[5, 0, 0, 0, 0, 1, 2]]
     \<and> decode_per_participant_audio [5, 0, 0, 0, 0, 1, 2] = Some ([], [1, 2])
     \<and> length (utf8_encode long_id) \<le> 255
     \<and> (\<exists>message. per_participant_audio_message long_id [1, 2] = Inr message
            \<and> length message = 262
            \<and> decode_per_participant_audio message = Some (utf8_encode long_id, [1, 2]))
     \<and> length (utf8_encode ''7'') < 2 ^ 32
     \<and> sent (sendVideo 1 ''7'' 2 3 [9] ws)
         = [[2, 0, 0, 0, 1, 0, 0, 0, 0, 0, 0, 0, 1, 0, 0, 0, 55, 2, 0, 0, 0, 3, 0, 0, 0, 9]]
     \<and> decode_video [2, 0, 0, 0, 1, 0, 0, 0, 0, 0, 0, 0, 1, 0, 0, 0, 55, 2, 0, 0, 0, 3, 0, 0, 0, 9]
         = Some (1, [55], 2, 3, [9])"
    by blast
  show ?thesis unfolding Let_def by (rule res [unfolded ws_def long_id_def])
qed

section \<open>Properties of the audio queue\<close>

lemma sent_chunks_append: "sent_chunks (a @ b) = sent_chunks a @ sent_chunks b"
  by (induction a rule: sent_chunks.induct) simp_all

lemma process_chunk_cases:
  "process_chunk now d chunk info =
     (if attributed d chunk
      then (info\<lparr>totalFrames := totalFrames info + 1,
                  framesWithDominantSpeaker := framesWithDominantSpeaker info + 1\<rparr>,
            [PerParticipantAudio now
               (the (getSpeakerIdForTimestampMsUsingSpeechIntervals (audioArrivalTime chunk) d)) chunk])
      else (info\<lparr>totalFrames := totalFrames info + 1,
                  framesWithoutDominantSpeaker := framesWithoutDominantSpeaker info + 1\<rparr>, []))"
  by (simp add: process_chunk_def attributed_def Let_def)

lemma process_queue_spec:
  "\<exists>deq. queue = deq @ fst (snd (process_queue clock d k queue info))
     \<and> sent_chunks (snd (snd (snd (process_queue clock d k queue info)))) = filter (attributed d) deq
     \<and> totalFrames (fst (snd (snd (process_queue clock d k queue info))))
         = totalFrames info + length deq
     \<and> framesWithoutDominantSpeaker (fst (snd (snd (process_queue clock d k queue info))))
         = framesWithoutDominantSpeaker info + length (filter (\<lambda>c. \<not> attributed d c) deq)
     \<and> framesWithDominantSpeaker (fst (snd (snd (process_queue clock d k queue info))))
         = framesWithDominantSpeaker info + length (filter (attributed d) deq)"
proof (induction queue arbitrary: k info)
  case Nil
  show ?case by simp
next
  case (Cons chunk queue)
  show ?case
  proof (cases "clock k - audioArrivalTime chunk \<ge> ACTIVE_SPEAKER_LATENCY_MS")
    case False
    then show ?thesis by (intro exI [of _ "[]"]) simp
  next
    case True
    let ?step = "process_chunk (clock k) d chunk info"
    from Cons.IH [of "Suc k" "fst ?step"] obtain deq where
      deq: "queue = deq @ fst (snd (process_queue clock d (Suc k) queue (fst ?step)))"
        "sent_chunks (snd (snd (snd (process_queue clock d (Suc k) queue (fst ?step))))) = filter (attributed d) deq"
        "totalFrames (fst (snd (snd (process_queue clock d (Suc k) queue (fst ?step)))))
           = totalFrames (fst ?step) + length deq"
        "framesWithoutDominantSpeaker (fst (snd (snd (process_queue clock d (Suc k) queue (fst ?step)))))
           = framesWithoutDominantSpeaker (fst ?step) + length (filter (\<lambda>c. \<not> attributed d c) deq)"
        "framesWithDominantSpeaker (fst (snd (snd (process_queue clock d (Suc k) queue (fst ?step)))))
           = framesWithDominantSpeaker (fst ?step) + length (filter (attributed d) deq)"
      by blast
    show ?thesis
    proof (intro exI [of _ "chunk # deq"] conjI)
      show "chunk # queue = (chunk # deq) @ fst (snd (process_queue clock d k (chunk # queue) info))"
        using True deq(1) by (simp add: Let_def)
    qed (use True deq(2-5) in \<open>simp_all add: Let_def sent_chunks_append process_chunk_cases\<close>)
  qed
qed

lemma process_queue_latency:
  "PerParticipantAudio now p c \<in> set (snd (snd (snd (process_queue clock d k queue info))))
     \<Longrightarrow> audioArrivalTime c + 2000 \<le> now"
proof (induction queue arbitrary: k info)
  case Nil
  then show ?case by simp
next
  case (Cons chunk queue)
  show ?case
  proof (cases "clock k - audioArrivalTime chunk \<ge> ACTIVE_SPEAKER_LATENCY_MS")
    case False
    with Cons.prems show ?thesis by simp
  next
    case True
    with Cons.prems consider
      "PerParticipantAudio now p c \<in> set (snd (process_chunk (clock k) d chunk info))"
      | "PerParticipantAudio now p c \<in> set (snd (snd (snd
            (process_queue clock d (Suc k) queue (fst (process_chunk (clock k) d chunk info))))))"
      by (auto simp: Let_def)
    then show ?thesis
    proof cases
      case 1
      then have "now = clock k" "c = chunk"
        by (auto simp: process_chunk_cases split: if_splits)
      with True show ?thesis by (simp add: ACTIVE_SPEAKER_LATENCY_MS_def)
    next
      case 2
      then show ?thesis by (rule Cons.IH)
    qed
  qed
qed


lemma sent_chunks_Json_only:
  "\<forall>call \<in> set calls. \<exists>j. call = Json j \<Longrightarrow> sent_chunks calls = []"
  by (induction calls rule: sent_chunks.induct) auto

lemma transform_calls_Json:
  "\<forall>call \<in> set (snd (transform queues now active frame t)). \<exists>j. call = Json j"
  by (auto simp: transform_def Let_def split: option.splits if_splits)

lemma transform_queue:
  "audioDataQueue (fst (transform queues now active frame t)) = audioDataQueue t
   \<or> (\<exists>f. frame = Some f \<and> audioDataQueue (fst (transform queues now active frame t))
          = audioDataQueue t @ [\<lparr>audioArrivalTime = now, audioData = frame_audioData f\<rparr>])"
  by (auto simp: transform_def Let_def split: option.splits if_splits)

lemma processAudioQueue_queue_calls:
  "audioDataQueue (fst (processAudioQueue clock d t))
     = fst (snd (process_queue clock d 0 (audioDataQueue t) (handleAudioTrackDebugInfo t)))"
  "sent_chunks (snd (processAudioQueue clock d t))
     = sent_chunks (snd (snd (snd (process_queue clock d 0 (audioDataQueue t) (handleAudioTrackDebugInfo t)))))"
  "PerParticipantAudio now p c \<in> set (snd (processAudioQueue clock d t)) \<longleftrightarrow>
     PerParticipantAudio now p c \<in> set (snd (snd (snd
        (process_queue clock d 0 (audioDataQueue t) (handleAudioTrackDebugInfo t)))))"
  by (auto simp: processAudioQueue_def Let_def sent_chunks_append)

lemma track_step_latency:
  "PerParticipantAudio now p c \<in> set (snd (track_step ev t)) \<Longrightarrow> audioArrivalTime c + 2000 \<le> now"
proof (cases ev)
  case (Frame queues stamp active frame)
  assume "PerParticipantAudio now p c \<in> set (snd (track_step ev t))"
  with Frame transform_calls_Json [of queues stamp active frame t] show ?thesis by auto
next
  case (Poll clock d)
  assume "PerParticipantAudio now p c \<in> set (snd (track_step ev t))"
  with Poll show ?thesis
    by (auto simp: processAudioQueue_queue_calls dest: process_queue_latency split: if_splits)
next
  case Ended
  assume "PerParticipantAudio now p c \<in> set (snd (track_step ev t))"
  with Ended show ?thesis by (simp add: track_ended_def)
next
  case Flush
  assume "PerParticipantAudio now p c \<in> set (snd (track_step ev t))"
  with Flush show ?thesis by (simp add: flush_def)
qed

lemma run_track_latency:
  "PerParticipantAudio now p c \<in> set (snd (run_track evs t)) \<Longrightarrow> audioArrivalTime c + 2000 \<le> now"
proof (induction evs arbitrary: t)
  case Nil
  then show ?case by simp
next
  case (Cons ev evs)
  then show ?case by (auto simp: Let_def dest: track_step_latency)
qed

lemma track_step_fifo:
  "\<exists>deq. audioDataQueue t @ (case ev of
              Frame queues now controller_active frame \<Rightarrow>
                drop (length (audioDataQueue t)) (audioDataQueue (fst (track_step ev t)))
            | _ \<Rightarrow> [])
          = deq @ audioDataQueue (fst (track_step ev t))
        \<and> subseq (sent_chunks (snd (track_step ev t))) deq"
proof (cases ev)
  case (Frame queues stamp active frame)
  from transform_queue [of queues stamp active frame t]
  have "audioDataQueue t @ drop (length (audioDataQueue t)) (audioDataQueue (fst (transform queues stamp active frame t)))
          = audioDataQueue (fst (transform queues stamp active frame t))"
    by auto
  moreover have "sent_chunks (snd (transform queues stamp active frame t)) = []"
    by (rule sent_chunks_Json_only) (rule transform_calls_Json)
  ultimately show ?thesis using Frame by (intro exI [of _ "[]"]) simp
next
  case (Poll clock d)
  show ?thesis
  proof (cases "intervalCleared t")
    case True
    with Poll show ?thesis by (intro exI [of _ "[]"]) simp
  next
    case False
    from process_queue_spec [of "audioDataQueue t" clock d 0 "handleAudioTrackDebugInfo t"]
    obtain deq where "audioDataQueue t = deq @ audioDataQueue (fst (processAudioQueue clock d t))"
      "sent_chunks (snd (processAudioQueue clock d t)) = filter (attributed d) deq"
      unfolding processAudioQueue_queue_calls by blast
    with Poll False show ?thesis by (intro exI [of _ deq]) simp
  qed
next
  case Ended
  then show ?thesis by (intro exI [of _ "[]"]) (simp add: track_ended_def)
next
  case Flush
  then show ?thesis by (intro exI [of _ "[]"]) (simp add: flush_def)
qed

lemma run_track_fifo:
  "\<exists>deq. audioDataQueue t @ enqueued_chunks evs t = deq @ audioDataQueue (fst (run_track evs t))
        \<and> subseq (sent_chunks (snd (run_track evs t))) deq"
proof (induction evs arbitrary: t)
  case Nil
  show ?case by (intro exI [of _ "[]"]) simp
next
  case (Cons ev evs)
  let ?t1 = "fst (track_step ev t)"
  let ?new = "(case ev of
              Frame queues now controller_active frame \<Rightarrow>
                drop (length (audioDataQueue t)) (audioDataQueue ?t1)
            | _ \<Rightarrow> [])"
  from track_step_fifo [of t ev] obtain deq1 where
    1: "audioDataQueue t @ ?new = deq1 @ audioDataQueue ?t1"
    and s1: "subseq (sent_chunks (snd (track_step ev t))) deq1" by blast
  from Cons.IH [of ?t1] obtain deq2 where
    2: "audioDataQueue ?t1 @ enqueued_chunks evs ?t1 = deq2 @ audioDataQueue (fst (run_track evs ?t1))"
    and s2: "subseq (sent_chunks (snd (run_track evs ?t1))) deq2" by blast
  have "audioDataQueue t @ enqueued_chunks (ev # evs) t
          = (audioDataQueue t @ ?new) @ enqueued_chunks evs ?t1" by simp
  also have "\<dots> = deq1 @ (audioDataQueue ?t1 @ enqueued_chunks evs ?t1)" unfolding 1 by simp
  also have "\<dots> = (deq1 @ deq2) @ audioDataQueue (fst (run_track (ev # evs) t))"
    unfolding 2 by (simp add: Let_def)
  finally have "audioDataQueue t @ enqueued_chunks (ev # evs) t
                  = (deq1 @ deq2) @ audioDataQueue (fst (run_track (ev # evs) t))" .
  moreover have "subseq (sent_chunks (snd (run_track (ev # evs) t))) (deq1 @ deq2)"
    using s1 s2 by (simp add: Let_def sent_chunks_append list_emb_append_mono)
  ultimately show ?case by blast
qed


text \<open>
  Claim C3. For every sequence of frames, timer firings and end events of a track, from any
  state of the track and with any clock readings: a call of \<^verbatim>\<open>sendPerParticipantAudio\<close>
  for a chunk that arrived at time \<open>T\<close> is made at a clock reading of at least \<open>T + 2000\<close>;
  the chunks taken from the queue are a front part of what was queued, in the order of
  queueing, what remains queued being the rest, and the chunks sent are among the chunks
  taken, in that order. Within one firing of the timer the chunks sent are exactly the
  attributed ones among those taken, and \<^verbatim>\<open>framesWithoutDominantSpeaker\<close> grows by the
  number of the others: a chunk that is not attributed is dropped and counted.
\<close>

theorem audio_queue_latency_fifo:
  "(\<forall>now speaker chunk.
       PerParticipantAudio now speaker chunk \<in> set (snd (run_track evs t))
         \<longrightarrow> audioArrivalTime chunk + 2000 \<le> now)
   \<and> (\<exists>dequeued.
         audioDataQueue t @ enqueued_chunks evs t = dequeued @ audioDataQueue (fst (run_track evs t))
       \<and> subseq (sent_chunks (snd (run_track evs t))) dequeued)
   \<and> (\<exists>dequeued.
         queue = dequeued @ fst (snd (process_queue clock d k queue info))
       \<and> sent_chunks (snd (snd (snd (process_queue clock d k queue info))))
           = filter (attributed d) dequeued
       \<and> totalFrames (fst (snd (snd (process_queue clock d k queue info))))
           = totalFrames info + length dequeued
       \<and> framesWithoutDominantSpeaker (fst (snd (snd (process_queue clock d k queue info))))
           = framesWithoutDominantSpeaker info + length (filter (\<lambda>c. \<not> attributed d c) dequeued))
   \<and> (\<not> attributed d c \<longrightarrow>
         snd (process_chunk now' d c info) = []
       \<and> framesWithoutDominantSpeaker (fst (process_chunk now' d c info))
           = framesWithoutDominantSpeaker info + 1)"
proof -
  have a: "\<forall>now speaker chunk.
       PerParticipantAudio now speaker chunk \<in> set (snd (run_track evs t))
         \<longrightarrow> audioArrivalTime chunk + 2000 \<le> now"
    using run_track_latency by blast
  have c: "\<exists>dequeued.
         queue = dequeued @ fst (snd (process_queue clock d k queue info))
       \<and> sent_chunks (snd (snd (snd (process_queue clock d k queue info))))
           = filter (attributed d) dequeued
       \<and> totalFrames (fst (snd (snd (process_queue clock d k queue info))))
           = totalFrames info + length dequeued
       \<and> framesWithoutDominantSpeaker (fst (snd (snd (process_queue clock d k queue info))))
           = framesWithoutDominantSpeaker info + length (filter (\<lambda>c. \<not> attributed d c) dequeued)"
    using process_queue_spec [of queue clock d k info] by blast
  have e: "\<not> attributed d c \<longrightarrow>
         snd (process_chunk now' d c info) = []
       \<and> framesWithoutDominantSpeaker (fst (process_chunk now' d c info))
           = framesWithoutDominantSpeaker info + 1"
    by (simp add: process_chunk_cases)
  from a run_track_fifo [of t evs] c e show ?thesis by (intro conjI)
qed





theorem audio_queue_latency_fifo_witness:
  "(let d = \<lparr>dominantSpeakerStreamId = None, captionAudioTimes = [],
              speechIntervalsPerParticipant = [(''A'', [\<lparr>itype = Start, timestampMs = 500\<rparr>])]\<rparr>;
        f = \<lparr>frame_format = \<lparr>originalNumberOfChannels = 1, numberOfFrames = 1, sampleRate = 48000,
                               sample_format = ''f32-planar'', duration = 20\<rparr>,
              frame_audioData = [0x3F800000]\<rparr>
    in snd (run_track [Frame 1 1000 True (Some f), Poll (\<lambda>k. 2500) d, Poll (\<lambda>k. 3000 + int k) d]
            (new_audio_track (Some ''t1'') 0))
       = [Json (AudioFormatUpdate (frame_format f)), Json (WebRTCTrackIsNonSilent (Some ''t1'')),
          PerParticipantAudio 3000 ''A'' \<lparr>audioArrivalTime = 1000, audioData = [0x3F800000]\<rparr>]
     \<and> audioArrivalTime \<lparr>audioArrivalTime = 1000, audioData = [0x3F800000 :: float32]\<rparr> + 2000 \<le> 3000
     \<and> \<not> attributed d \<lparr>audioArrivalTime = 100, audioData = [0x3F800000]\<rparr>
     \<and> process_chunk 2100 d \<lparr>audioArrivalTime = 100, audioData = [0x3F800000]\<rparr> zero_debug_info
       = (\<lparr>framesWithoutDominantSpeaker = 1, framesWithDominantSpeaker = 0, totalFrames = 1\<rparr>, []))"
proof -
  define d where "d = \<lparr>dominantSpeakerStreamId = None, captionAudioTimes = [],
              speechIntervalsPerParticipant = [(''A'', [\<lparr>itype = Start, timestampMs = 500\<rparr>])]\<rparr>"
  define f where "f = \<lparr>frame_format = \<lparr>originalNumberOfChannels = 1, numberOfFrames = 1, sampleRate = 48000,
                               sample_format = ''f32-planar'', duration = 20\<rparr>,
              frame_audioData = [0x3F800000]\<rparr>"
  let ?c = "\<lparr>audioArrivalTime = 1000, audioData = [0x3F800000 :: float32]\<rparr>"
  let ?early = "\<lparr>audioArrivalTime = 100, audioData = [0x3F800000 :: float32]\<rparr>"
  define t0 where "t0 = new_audio_track (Some ''t1'') 0"
  define t1 where "t1 = t0\<lparr>lastAudioFormat := Some (frame_format f), trackIsNonSilent := True,
                           audioDataQueue := [?c]\<rparr>"
  define t2 where "t2 = t1\<lparr>audioDataQueue := [],
        handleAudioTrackDebugInfo :=
          \<lparr>framesWithoutDominantSpeaker = 0, framesWithDominantSpeaker = 1, totalFrames = 1\<rparr>\<rparr>"
  have nz: "some_nonzero (frame_audioData f)"
    by (simp add: f_def some_nonzero_def is_nonzero_def)
  have sp: "getSpeakerIdForTimestampMsUsingSpeechIntervals 1000 d = Some ''A''"
    unfolding d_def by code_simp
  have sp0: "getSpeakerIdForTimestampMsUsingSpeechIntervals 100 d = None"
    unfolding d_def by code_simp
  have s1: "track_step (Frame 1 1000 True (Some f)) t0
              = (t1, [Json (AudioFormatUpdate (frame_format f)), Json (WebRTCTrackIsNonSilent (Some ''t1''))])"
    by (simp add: transform_def some_nonzero_def is_nonzero_def Let_def t1_def t0_def
        new_audio_track_def f_def)
  have s2: "track_step (Poll (\<lambda>k. 2500) d) t1 = (t1, [])"
    by (simp add: processAudioQueue_def Let_def t1_def t0_def new_audio_track_def
        ACTIVE_SPEAKER_LATENCY_MS_def)
  have s3: "track_step (Poll (\<lambda>k. 3000 + int k) d) t1 = (t2, [PerParticipantAudio 3000 ''A'' ?c])"
    by (simp add: processAudioQueue_def Let_def t2_def t1_def t0_def new_audio_track_def
        ACTIVE_SPEAKER_LATENCY_MS_def process_chunk_def sp truthy_def zero_debug_info_def)
  have run: "snd (run_track [Frame 1 1000 True (Some f), Poll (\<lambda>k. 2500) d, Poll (\<lambda>k. 3000 + int k) d] t0)
       = [Json (AudioFormatUpdate (frame_format f)), Json (WebRTCTrackIsNonSilent (Some ''t1'')),
          PerParticipantAudio 3000 ''A'' ?c]"
    unfolding run_track.simps Let_def s1 s2 s3 fst_conv snd_conv by simp
  have un: "\<not> attributed d ?early"
    by (simp add: attributed_def sp0 truthy_def)
  have drop: "process_chunk 2100 d ?early zero_debug_info
       = (\<lparr>framesWithoutDominantSpeaker = 1, framesWithDominantSpeaker = 0, totalFrames = 1\<rparr>, [])"
    by (simp add: process_chunk_def sp0 truthy_def zero_debug_info_def)
  note inst = audio_queue_latency_fifo
    [where evs = "[Frame 1 1000 True (Some f), Poll (\<lambda>k. 2500) d, Poll (\<lambda>k. 3000 + int k) d]"
       and t = t0 and d = d and c = ?early and now' = 2100 and info = zero_debug_info
       and queue = "[]" and clock = "\<lambda>k. 0" and k = 0]
  then have "PerParticipantAudio 3000 ''A'' ?c
       \<in> set (snd (run_track [Frame 1 1000 True (Some f), Poll (\<lambda>k. 2500) d, Poll (\<lambda>k. 3000 + int k) d] t0))
         \<longrightarrow> audioArrivalTime ?c + 2000 \<le> 3000"
    by (elim conjE allE)
  with run have late: "audioArrivalTime ?c + 2000 \<le> 3000" by simp
  from run late un drop
  have res: "snd (run_track [Frame 1 1000 True (Some f), Poll (\<lambda>k. 2500) d, Poll (\<lambda>k. 3000 + int k) d]
            t0)
       = [Json (AudioFormatUpdate (frame_format f)), Json (WebRTCTrackIsNonSilent (Some ''t1'')),
          PerParticipantAudio 3000 ''A'' \<lparr>audioArrivalTime = 1000, audioData = [0x3F800000]\<rparr>]
     \<and> audioArrivalTime \<lparr>audioArrivalTime = 1000, audioData = [0x3F800000 :: float32]\<rparr> + 2000 \<le> 3000
     \<and> \<not> attributed d \<lparr>audioArrivalTime = 100, audioData = [0x3F800000]\<rparr>
     \<and> process_chunk 2100 d \<lparr>audioArrivalTime = 100, audioData = [0x3F800000]\<rparr> zero_debug_info
       = (\<lparr>framesWithoutDominantSpeaker = 1, framesWithDominantSpeaker = 0, totalFrames = 1\<rparr>, [])"
    by (intro conjI)
  show ?thesis unfolding Let_def by (rule res [unfolded d_def f_def t0_def])
qed

section \<open>Properties of the silence gate\<close>

lemma process_queue_empty [simp]: "process_queue clock d k [] info = (k, [], info, [])"
  by simp

lemma processAudioQueue_nonsilent [simp]:
  "trackIsNonSilent (fst (processAudioQueue clock d t)) = trackIsNonSilent t"
  by (simp add: processAudioQueue_def Let_def)

lemma processAudioQueue_reports:
  "filter is_nonsilence_report (snd (processAudioQueue clock d t)) = []"
proof -
  have "\<forall>call \<in> set (snd (snd (snd (process_queue clock d k queue info)))).
          \<not> is_nonsilence_report call" for k queue info
  proof (induction queue arbitrary: k info)
    case Nil
    show ?case by simp
  next
    case (Cons chunk queue)
    then show ?case by (auto simp: Let_def process_chunk_cases)
  qed
  then show ?thesis
    by (auto simp: processAudioQueue_def Let_def filter_empty_conv)
qed

lemma track_step_monotone:
  "trackIsNonSilent t \<Longrightarrow> trackIsNonSilent (fst (track_step ev t))"
  by (cases ev) (auto simp: transform_def Let_def track_ended_def flush_def split: option.splits)

lemma track_step_report_count:
  "length (filter is_nonsilence_report (snd (track_step ev t)))
     = (if \<not> trackIsNonSilent t \<and> trackIsNonSilent (fst (track_step ev t)) then 1 else 0)"
proof (cases ev)
  case (Frame queues now active frame)
  then show ?thesis
    by (auto simp: transform_def Let_def split: option.splits)
next
  case (Poll clock d)
  then show ?thesis by (simp add: processAudioQueue_reports)
next
  case Ended
  then show ?thesis by (simp add: track_ended_def)
next
  case Flush
  then show ?thesis by (simp add: flush_def)
qed

lemma run_track_monotone:
  "trackIsNonSilent t \<Longrightarrow> trackIsNonSilent (fst (run_track evs t))"
  by (induction evs arbitrary: t) (simp_all add: Let_def track_step_monotone)

lemma run_track_report_count:
  "length (filter is_nonsilence_report (snd (run_track evs t)))
     = (if \<not> trackIsNonSilent t \<and> trackIsNonSilent (fst (run_track evs t)) then 1 else 0)"
proof (induction evs arbitrary: t)
  case Nil
  show ?case by simp
next
  case (Cons ev evs)
  let ?t1 = "fst (track_step ev t)"
  show ?case
  proof (cases "trackIsNonSilent ?t1")
    case True
    then have "trackIsNonSilent (fst (run_track evs ?t1))" by (rule run_track_monotone)
    with True Cons.IH [of ?t1] track_step_report_count [of ev t] show ?thesis
      by (simp add: Let_def)
  next
    case False
    then have "\<not> trackIsNonSilent t" using track_step_monotone by blast
    with False Cons.IH [of ?t1] track_step_report_count [of ev t] show ?thesis
      by (simp add: Let_def)
  qed
qed

lemma track_step_silent:
  assumes "\<not> trackIsNonSilent t" "audioDataQueue t = []" "silent_event ev"
  shows "\<not> trackIsNonSilent (fst (track_step ev t)) \<and> audioDataQueue (fst (track_step ev t)) = []
         \<and> sent_chunks (snd (track_step ev t)) = []"
proof (cases ev)
  case (Frame queues now active frame)
  with assms show ?thesis
    by (auto simp: transform_def Let_def split: option.splits)
next
  case (Poll clock d)
  with assms show ?thesis by (simp add: processAudioQueue_def Let_def)
next
  case Ended
  with assms show ?thesis by (simp add: track_ended_def)
next
  case Flush
  with assms show ?thesis by (simp add: flush_def)
qed

lemma run_track_silent:
  assumes "\<not> trackIsNonSilent t" "audioDataQueue t = []" "\<forall>ev \<in> set evs. silent_event ev"
  shows "\<not> trackIsNonSilent (fst (run_track evs t)) \<and> audioDataQueue (fst (run_track evs t)) = []
         \<and> sent_chunks (snd (run_track evs t)) = []"
  using assms
proof (induction evs arbitrary: t)
  case Nil
  then show ?case by simp
next
  case (Cons ev evs)
  from Cons.prems track_step_silent [of t ev]
  have 1: "\<not> trackIsNonSilent (fst (track_step ev t))" "audioDataQueue (fst (track_step ev t)) = []"
    "sent_chunks (snd (track_step ev t)) = []" by simp_all
  from Cons.IH [OF 1(1,2)] Cons.prems 1(3) show ?case
    by (simp add: Let_def sent_chunks_append)
qed


lemma sent_chunks_mem:
  "PerParticipantAudio now p c \<in> set calls \<Longrightarrow> c \<in> set (sent_chunks calls)"
  by (induction calls rule: sent_chunks.induct) auto

text \<open>
  Claim C10. On a track that has queued nothing and has not been found non-silent, as long
  as every frame holds only zero samples nothing is queued, no call of
  \<^verbatim>\<open>sendPerParticipantAudio\<close> is made and no non-silence report is sent. The first frame
  with a non-zero sample that reaches an active controller sets \<^verbatim>\<open>trackIsNonSilent\<close>,
  sends the report and is queued. From then on the flag stays set, no further report is
  sent, and a frame is queued unless several queues are registered and the frame holds
  only zeros. In any run at most one report is sent. The samples are those of the mono
  buffer built from the frame.
\<close>

theorem silent_track_gating:
  "(\<not> trackIsNonSilent t \<and> audioDataQueue t = [] \<and> (\<forall>ev \<in> set evs. silent_event ev) \<longrightarrow>
      audioDataQueue (fst (run_track evs t)) = []
    \<and> \<not> trackIsNonSilent (fst (run_track evs t))
    \<and> (\<forall>now speaker chunk. PerParticipantAudio now speaker chunk \<notin> set (snd (run_track evs t)))
    \<and> filter is_nonsilence_report (snd (run_track evs t)) = [])
   \<and> (\<not> trackIsNonSilent t \<and> some_nonzero (frame_audioData f) \<longrightarrow>
      trackIsNonSilent (fst (transform queues now True (Some f) t))
    \<and> filter is_nonsilence_report (snd (transform queues now True (Some f) t))
        = [Json (WebRTCTrackIsNonSilent (trackId t))]
    \<and> audioDataQueue (fst (transform queues now True (Some f) t))
        = audioDataQueue t @ [\<lparr>audioArrivalTime = now, audioData = frame_audioData f\<rparr>])
   \<and> (trackIsNonSilent t \<longrightarrow>
      trackIsNonSilent (fst (transform queues now True (Some g) t))
    \<and> filter is_nonsilence_report (snd (transform queues now True (Some g) t)) = []
    \<and> audioDataQueue (fst (transform queues now True (Some g) t))
        = (if queues > 1 \<and> \<not> some_nonzero (frame_audioData g) then audioDataQueue t
           else audioDataQueue t @ [\<lparr>audioArrivalTime = now, audioData = frame_audioData g\<rparr>]))
   \<and> length (filter is_nonsilence_report (snd (run_track evs t))) \<le> 1
   \<and> (trackIsNonSilent t \<longrightarrow> trackIsNonSilent (fst (run_track evs t)))"
proof -
  have a: "audioDataQueue (fst (run_track evs t)) = []
    \<and> \<not> trackIsNonSilent (fst (run_track evs t))
    \<and> (\<forall>now speaker chunk. PerParticipantAudio now speaker chunk \<notin> set (snd (run_track evs t)))
    \<and> filter is_nonsilence_report (snd (run_track evs t)) = []"
    if h: "\<not> trackIsNonSilent t" "audioDataQueue t = []" "\<forall>ev \<in> set evs. silent_event ev"
  proof -
    from run_track_silent [OF h]
    have s: "\<not> trackIsNonSilent (fst (run_track evs t))" "audioDataQueue (fst (run_track evs t)) = []"
      "sent_chunks (snd (run_track evs t)) = []" by simp_all
    from s(3) have "PerParticipantAudio now speaker chunk \<notin> set (snd (run_track evs t))"
      for now speaker chunk
      using sent_chunks_mem [of now speaker chunk "snd (run_track evs t)"] by auto
    moreover from run_track_report_count [of evs t] s(1)
    have "filter is_nonsilence_report (snd (run_track evs t)) = []" by simp
    ultimately show ?thesis using s by blast
  qed
  have b: "trackIsNonSilent (fst (transform queues now True (Some f) t))
    \<and> filter is_nonsilence_report (snd (transform queues now True (Some f) t))
        = [Json (WebRTCTrackIsNonSilent (trackId t))]
    \<and> audioDataQueue (fst (transform queues now True (Some f) t))
        = audioDataQueue t @ [\<lparr>audioArrivalTime = now, audioData = frame_audioData f\<rparr>]"
    if "\<not> trackIsNonSilent t" "some_nonzero (frame_audioData f)"
    using that by (simp add: transform_def Let_def)
  have c: "trackIsNonSilent (fst (transform queues now True (Some g) t))
    \<and> filter is_nonsilence_report (snd (transform queues now True (Some g) t)) = []
    \<and> audioDataQueue (fst (transform queues now True (Some g) t))
        = (if queues > 1 \<and> \<not> some_nonzero (frame_audioData g) then audioDataQueue t
           else audioDataQueue t @ [\<lparr>audioArrivalTime = now, audioData = frame_audioData g\<rparr>])"
    if "trackIsNonSilent t"
    using that by (simp add: transform_def Let_def)
  have d: "length (filter is_nonsilence_report (snd (run_track evs t))) \<le> 1"
    by (simp add: run_track_report_count)
  from a b c d run_track_monotone [of t evs] show ?thesis by blast
qed

theorem silent_track_gating_witness:
  "(let silent = \<lparr>frame_format = \<lparr>originalNumberOfChannels = 1, numberOfFrames = 2, sampleRate = 48000,
                               sample_format = ''f32-planar'', duration = 20\<rparr>,
              frame_audioData = [0, 0x80000000]\<rparr>;
        loud = \<lparr>frame_format = \<lparr>originalNumberOfChannels = 1, numberOfFrames = 2, sampleRate = 48000,
                               sample_format = ''f32-planar'', duration = 20\<rparr>,
              frame_audioData = [0, 0x3F800000]\<rparr>;
        d = new_DominantSpeakerManager;
        t = new_audio_track (Some ''t1'') 0;
        evs = [Frame 1 1000 True (Some silent), Poll (\<lambda>k. 5000) d, Frame 1 5020 True (Some silent)]
    in \<not> trackIsNonSilent t \<and> audioDataQueue t = [] \<and> (\<forall>ev \<in> set evs. silent_event ev)
     \<and> audioDataQueue (fst (run_track evs t)) = []
     \<and> filter is_nonsilence_report (snd (run_track evs t)) = []
     \<and> some_nonzero (frame_audioData loud)
     \<and> filter is_nonsilence_report (snd (transform 1 5040 True (Some loud) (fst (run_track evs t))))
         = [Json (WebRTCTrackIsNonSilent (Some ''t1''))]
     \<and> audioDataQueue (fst (transform 1 5040 True (Some loud) (fst (run_track evs t))))
         = [\<lparr>audioArrivalTime = 5040, audioData = [0, 0x3F800000]\<rparr>])"
proof -
  define silent where "silent = \<lparr>frame_format = \<lparr>originalNumberOfChannels = 1, numberOfFrames = 2, sampleRate = 48000,
                               sample_format = ''f32-planar'', duration = 20\<rparr>,
              frame_audioData = [0, 0x80000000]\<rparr>"
  define loud where "loud = \<lparr>frame_format = \<lparr>originalNumberOfChannels = 1, numberOfFrames = 2, sampleRate = 48000,
                               sample_format = ''f32-planar'', duration = 20\<rparr>,
              frame_audioData = [0, 0x3F800000]\<rparr>"
  define t where "t = new_audio_track (Some ''t1'') 0"
  define evs where "evs = [Frame 1 1000 True (Some silent),
      Poll (\<lambda>k. 5000) new_DominantSpeakerManager, Frame 1 5020 True (Some silent)]"
  have h: "\<not> trackIsNonSilent t" "audioDataQueue t = []"
    by (simp_all add: t_def new_audio_track_def)
  have sil: "\<forall>ev \<in> set evs. silent_event ev"
    by (simp add: evs_def silent_def some_nonzero_def is_nonzero_def)
  have loudnz: "some_nonzero (frame_audioData loud)"
    by (simp add: loud_def some_nonzero_def is_nonzero_def)
  note inst = silent_track_gating [where t = t and evs = evs]
  from inst h sil have q: "audioDataQueue (fst (run_track evs t)) = []"
    and ns: "\<not> trackIsNonSilent (fst (run_track evs t))"
    and nr: "filter is_nonsilence_report (snd (run_track evs t)) = []"
    by blast+
  have tid: "trackId (fst (run_track evs t)) = Some ''t1''"
    by (simp add: evs_def t_def new_audio_track_def transform_def processAudioQueue_def Let_def
        silent_def some_nonzero_def is_nonzero_def)
  note inst2 = silent_track_gating
    [where t = "fst (run_track evs t)" and f = loud and queues = 1 and now = 5040]
  from inst2 ns loudnz
  have r: "filter is_nonsilence_report (snd (transform 1 5040 True (Some loud) (fst (run_track evs t))))
         = [Json (WebRTCTrackIsNonSilent (trackId (fst (run_track evs t))))]"
    and e: "audioDataQueue (fst (transform 1 5040 True (Some loud) (fst (run_track evs t))))
         = audioDataQueue (fst (run_track evs t))
           @ [\<lparr>audioArrivalTime = 5040, audioData = frame_audioData loud\<rparr>]"
    by blast+
  from h sil q nr loudnz r e tid
  have res: "\<not> trackIsNonSilent t \<and> audioDataQueue t = [] \<and> (\<forall>ev \<in> set evs. silent_event ev)
     \<and> audioDataQueue (fst (run_track evs t)) = []
     \<and> filter is_nonsilence_report (snd (run_track evs t)) = []
     \<and> some_nonzero (frame_audioData loud)
     \<and> filter is_nonsilence_report (snd (transform 1 5040 True (Some loud) (fst (run_track evs t))))
         = [Json (WebRTCTrackIsNonSilent (Some ''t1''))]
     \<and> audioDataQueue (fst (transform 1 5040 True (Some loud) (fst (run_track evs t))))
         = [\<lparr>audioArrivalTime = 5040, audioData = [0, 0x3F800000]\<rparr>]"
    by (simp add: loud_def)
  show ?thesis
    unfolding Let_def by (rule res [unfolded evs_def t_def silent_def loud_def])
qed

section \<open>Properties of several audio tracks\<close>
















section \<open>Properties of the output scheduler\<close>

lemma bit_length_0: "bit_length 0 = 0"
  by (simp add: bit_length.simps)

lemma bit_length_numeral:
  "bit_length (Suc 0) = Suc 0"
  "bit_length (numeral (num.Bit0 k)) = Suc (bit_length (numeral k))"
  "bit_length (numeral (num.Bit1 k)) = Suc (bit_length (numeral k))"
proof -
  show "bit_length (Suc 0) = Suc 0"
    by (simp add: bit_length.simps [of "Suc 0"] bit_length.simps [of 0])
  have "numeral (num.Bit0 k) div 2 = (numeral k :: nat)" by simp
  then show "bit_length (numeral (num.Bit0 k)) = Suc (bit_length (numeral k))"
    by (subst bit_length.simps) simp
  have "numeral (num.Bit1 k) div 2 = (numeral k :: nat)" by simp
  then show "bit_length (numeral (num.Bit1 k)) = Suc (bit_length (numeral k))"
    by (subst bit_length.simps) simp
qed

lemmas double_eval = double_of_nat_def round_double_def round_int_def divide_finite_def
  shift_right_nearest_even_def dsub_def dmax_def Let_def bit_length_0 bit_length_numeral
  dadd.simps dmul.simps ddiv.simps

lemma double_of_nat_0: "double_of_nat 0 = Finite 0 0"
  by (simp add: double_eval)

lemma round_double_not_NaN: "round_double positive n e \<noteq> NaN"
  by (simp add: round_double_def Let_def)

lemma dadd_not_NaN: "is_finite x \<Longrightarrow> y \<noteq> NaN \<Longrightarrow> dadd x y \<noteq> NaN"
  by (cases x; cases y) (simp_all add: dadd.simps round_int_def round_double_not_NaN)

lemma dle_refl: "x \<noteq> NaN \<Longrightarrow> dle x x"
  by (cases x) simp_all

lemma dlt_imp_dle: "dlt x y \<Longrightarrow> dle x y"
  by (cases x; cases y) simp_all

lemma zero_dle_time: "\<not> number_truthy x \<Longrightarrow> x \<noteq> NaN \<Longrightarrow> is_time y \<Longrightarrow> dle x y"
  by (cases x; cases y) simp_all

lemma is_time_iff: "is_time x \<longleftrightarrow> is_finite x \<and> \<not> dlt x (double_of_nat 0)"
proof (cases x)
  case (Finite m e)
  have "m * 2 ^ nat (e - min e 0) < 0 \<longleftrightarrow> m < 0"
    by (simp add: mult_less_0_iff)
  then show ?thesis using Finite by (simp add: double_of_nat_0 not_less)
qed simp_all

lemma length_drain_starts [simp]: "length (drain_starts n D rs) = length rs"
  by (induction rs arbitrary: n) (simp_all add: Let_def)

lemma drain_starts_0:
  "rs \<noteq> [] \<Longrightarrow>
     drain_starts n D rs ! 0 = (if \<not> number_truthy n \<or> dlt n (rs ! 0) then rs ! 0 else n)"
  by (cases rs) (simp_all add: Let_def)

lemma drain_starts_Suc:
  "Suc k < length rs \<Longrightarrow>
     drain_starts n D rs ! Suc k =
       (if \<not> number_truthy (dadd (drain_starts n D rs ! k) D)
           \<or> dlt (dadd (drain_starts n D rs ! k) D) (rs ! Suc k)
        then rs ! Suc k else dadd (drain_starts n D rs ! k) D)"
proof (induction rs arbitrary: n k)
  case Nil
  then show ?case by simp
next
  case (Cons r rs)
  let ?s = "if \<not> number_truthy n \<or> dlt n r then r else n"
  have unfold: "drain_starts n D (r # rs) = ?s # drain_starts (dadd ?s D) D rs"
    by (simp add: Let_def)
  show ?case
  proof (cases k)
    case 0
    with Cons.prems have "rs \<noteq> []" by auto
    from drain_starts_0 [OF this, of "dadd ?s D" D] 0 show ?thesis
      unfolding unfold by simp
  next
    case (Suc j)
    with Cons.prems have "Suc j < length rs" by simp
    from Cons.IH [OF this, of "dadd ?s D"] Suc show ?thesis
      unfolding unfold by simp
  qed
qed

lemma drain_starts_gap:
  assumes times: "\<forall>t \<in> set (drain_starts n D rs). is_time t"
      and D: "D \<noteq> NaN"
      and k: "Suc k < length rs"
  shows "dle (dadd (drain_starts n D rs ! k) D) (drain_starts n D rs ! Suc k)"
proof -
  let ?st = "drain_starts n D rs"
  let ?p = "dadd (?st ! k) D"
  from times k have tk: "is_time (?st ! k)" and tk1: "is_time (?st ! Suc k)" by simp_all
  from tk have "is_finite (?st ! k)" by (cases "?st ! k") simp_all
  then have p: "?p \<noteq> NaN" using D by (rule dadd_not_NaN)
  note step = drain_starts_Suc [OF k, of n D]
  show ?thesis
  proof (cases "\<not> number_truthy ?p \<or> dlt ?p (rs ! Suc k)")
    case False
    with step have "?st ! Suc k = ?p" by simp
    with p show ?thesis by (simp add: dle_refl)
  next
    case True
    with step have eq: "?st ! Suc k = rs ! Suc k" by simp
    from True show ?thesis
    proof
      assume "dlt ?p (rs ! Suc k)"
      then show ?thesis unfolding eq by (rule dlt_imp_dle)
    next
      assume "\<not> number_truthy ?p"
      then show ?thesis using p tk1 by (rule zero_dle_time)
    qed
  qed
qed

lemma start_times_append: "start_times (a @ b) = start_times a @ start_times b"
  by (induction a rule: start_times.induct) simp_all

lemma started_chunks_append: "started_chunks (a @ b) = started_chunks a @ started_chunks b"
  by (induction a rule: started_chunks.induct) simp_all

lemma uncaught_append: "uncaught (a @ b) = uncaught a @ uncaught b"
  by (induction a rule: uncaught.induct) simp_all

lemma run_output_append:
  "run_output accepts (evs @ evs') m =
     (fst (run_output accepts evs' (fst (run_output accepts evs m))),
      snd (run_output accepts evs m) @ snd (run_output accepts evs' (fst (run_output accepts evs m))))"
  by (induction evs arbitrary: m) (simp_all add: Let_def)

lemma drain_accepted:
  assumes q: "audioQueue m = chunk # rest"
      and acc: "accepts (out_numChannels m)
                  (ddiv (double_of_nat (length (chunk_data chunk))) (double_of_nat (out_numChannels m)))
                  (out_sampleRate m)"
      and t: "is_time (if \<not> number_truthy (nextPlayTime m) \<or> dlt (nextPlayTime m) c
                       then c else nextPlayTime m)"
  shows "start_times (snd (processOutputQueue accepts c m))
           = [if \<not> number_truthy (nextPlayTime m) \<or> dlt (nextPlayTime m) c then c else nextPlayTime m]"
    and "started_chunks (snd (processOutputQueue accepts c m)) = [chunk]"
    and "uncaught (snd (processOutputQueue accepts c m)) = []"
    and "audioQueue (fst (processOutputQueue accepts c m)) = rest"
    and "nextPlayTime (fst (processOutputQueue accepts c m))
           = dadd (if \<not> number_truthy (nextPlayTime m) \<or> dlt (nextPlayTime m) c
                   then c else nextPlayTime m) (chunk_duration chunk)"
    and "isPlayingAudioQueue (fst (processOutputQueue accepts c m))"
    and "out_numChannels (fst (processOutputQueue accepts c m)) = out_numChannels m"
    and "out_sampleRate (fst (processOutputQueue accepts c m)) = out_sampleRate m"
proof -
  let ?s = "if \<not> number_truthy (nextPlayTime m) \<or> dlt (nextPlayTime m) c then c else nextPlayTime m"
  from t have fin: "is_finite ?s" and pos: "\<not> dlt ?s (double_of_nat 0)"
    unfolding is_time_iff by simp_all
  have run: "processOutputQueue accepts c m =
      (m\<lparr>isPlayingAudioQueue := True, nextPlayTime := ?s, audioQueue := rest,
          nextPlayTime := dadd ?s (chunk_duration chunk)\<rparr>,
       [StartSource ?s chunk,
        ProcessAgainAfter (dmax (double_of_nat 0)
          (dmul (dmul (dsub (dadd ?s (chunk_duration chunk)) c) (double_of_nat 1000))
                (ddiv (double_of_nat 4) (double_of_nat 5))))])"
    unfolding processOutputQueue_def q Let_def list.case using acc fin pos by simp
  show "start_times (snd (processOutputQueue accepts c m)) = [?s]"
    and "started_chunks (snd (processOutputQueue accepts c m)) = [chunk]"
    and "uncaught (snd (processOutputQueue accepts c m)) = []"
    and "audioQueue (fst (processOutputQueue accepts c m)) = rest"
    and "nextPlayTime (fst (processOutputQueue accepts c m)) = dadd ?s (chunk_duration chunk)"
    and "isPlayingAudioQueue (fst (processOutputQueue accepts c m))"
    and "out_numChannels (fst (processOutputQueue accepts c m)) = out_numChannels m"
    and "out_sampleRate (fst (processOutputQueue accepts c m)) = out_sampleRate m"
    unfolding run by simp_all
qed

lemma drains_run:
  assumes "\<forall>c \<in> set (audioQueue m). chunk_duration c = D"
      and "\<forall>c \<in> set (audioQueue m).
             accepts (out_numChannels m)
               (ddiv (double_of_nat (length (chunk_data c))) (double_of_nat (out_numChannels m)))
               (out_sampleRate m)"
      and "length cs \<le> length (audioQueue m)"
      and "\<forall>t \<in> set (drain_starts (nextPlayTime m) D cs). is_time t"
  shows "start_times (snd (run_output accepts (map Drain cs) m)) = drain_starts (nextPlayTime m) D cs
       \<and> started_chunks (snd (run_output accepts (map Drain cs) m)) = take (length cs) (audioQueue m)
       \<and> uncaught (snd (run_output accepts (map Drain cs) m)) = []"
  using assms
proof (induction cs arbitrary: m)
  case Nil
  show ?case by simp
next
  case (Cons c cs)
  then obtain chunk rest where q: "audioQueue m = chunk # rest" by (cases "audioQueue m") auto
  let ?s = "if \<not> number_truthy (nextPlayTime m) \<or> dlt (nextPlayTime m) c then c else nextPlayTime m"
  let ?m1 = "fst (processOutputQueue accepts c m)"
  from q Cons.prems(1) have dur: "chunk_duration chunk = D" by simp
  from q Cons.prems(2) have acc: "accepts (out_numChannels m)
        (ddiv (double_of_nat (length (chunk_data chunk))) (double_of_nat (out_numChannels m)))
        (out_sampleRate m)" by simp
  have sched: "drain_starts (nextPlayTime m) D (c # cs) = ?s # drain_starts (dadd ?s D) D cs"
    by (simp add: Let_def)
  from Cons.prems(4) have t: "is_time ?s"
    and later: "\<forall>t \<in> set (drain_starts (dadd ?s D) D cs). is_time t"
    unfolding sched by simp_all
  note step = drain_accepted [where accepts = accepts and m = m and c = c, OF q acc t]
  have n1: "nextPlayTime ?m1 = dadd ?s D" using step(5) dur by simp
  have "\<forall>c \<in> set (audioQueue ?m1). chunk_duration c = D"
    unfolding step(4) using Cons.prems(1) q by simp
  moreover have "\<forall>c \<in> set (audioQueue ?m1).
             accepts (out_numChannels ?m1)
               (ddiv (double_of_nat (length (chunk_data c))) (double_of_nat (out_numChannels ?m1)))
               (out_sampleRate ?m1)"
    unfolding step(4) step(7) step(8) using Cons.prems(2) q by simp
  moreover have "length cs \<le> length (audioQueue ?m1)"
    unfolding step(4) using Cons.prems(3) q by simp
  moreover have "\<forall>t \<in> set (drain_starts (nextPlayTime ?m1) D cs). is_time t"
    unfolding n1 using later .
  ultimately have ih:
    "start_times (snd (run_output accepts (map Drain cs) ?m1)) = drain_starts (dadd ?s D) D cs"
    "started_chunks (snd (run_output accepts (map Drain cs) ?m1)) = take (length cs) rest"
    "uncaught (snd (run_output accepts (map Drain cs) ?m1)) = []"
    using Cons.IH [of ?m1] unfolding n1 step(4) by simp_all
  have run: "snd (run_output accepts (map Drain (c # cs)) m)
               = snd (processOutputQueue accepts c m) @ snd (run_output accepts (map Drain cs) ?m1)"
    by (simp add: Let_def)
  show ?case
    unfolding run start_times_append started_chunks_append uncaught_append sched
      step(1) step(2) step(3) ih q
    by simp
qed


lemma plays_while_playing:
  assumes "isPlayingAudioQueue m"
  shows "snd (run_output accepts (map (\<lambda>x. Play (fst x) rate ch (snd x)) xs) m)
           = replicate (length xs) TurnOnMic
       \<and> isPlayingAudioQueue (fst (run_output accepts (map (\<lambda>x. Play (fst x) rate ch (snd x)) xs) m))
       \<and> nextPlayTime (fst (run_output accepts (map (\<lambda>x. Play (fst x) rate ch (snd x)) xs) m))
           = nextPlayTime m
       \<and> audioQueue (fst (run_output accepts (map (\<lambda>x. Play (fst x) rate ch (snd x)) xs) m))
           = audioQueue m @ map (\<lambda>x. \<lparr>chunk_data = fst x,
                 chunk_duration = ddiv (double_of_nat (length (fst x)))
                                       (dmul (double_of_nat ch) (double_of_nat rate))\<rparr>) xs
       \<and> (xs \<noteq> [] \<longrightarrow>
            out_numChannels (fst (run_output accepts (map (\<lambda>x. Play (fst x) rate ch (snd x)) xs) m)) = ch
          \<and> out_sampleRate (fst (run_output accepts (map (\<lambda>x. Play (fst x) rate ch (snd x)) xs) m)) = rate)"
  using assms
proof (induction xs arbitrary: m rule: rev_induct)
  case Nil
  then show ?case by simp
next
  case (snoc x xs)
  let ?m1 = "fst (run_output accepts (map (\<lambda>x. Play (fst x) rate ch (snd x)) xs) m)"
  note ih = snoc.IH [OF snoc.prems]
  from ih have playing: "isPlayingAudioQueue ?m1" by simp
  have step: "playPCMAudio accepts (fst x) rate ch (snd x) ?m1 =
      (?m1\<lparr>out_sampleRate := rate, out_numChannels := ch,
            audioQueue := audioQueue ?m1 @ [\<lparr>chunk_data = fst x,
                 chunk_duration = ddiv (double_of_nat (length (fst x)))
                                       (dmul (double_of_nat ch) (double_of_nat rate))\<rparr>],
            turnOffMicTimeout := False\<rparr>, [TurnOnMic])"
    using playing by (simp add: playPCMAudio_def Let_def)
  have run: "run_output accepts (map (\<lambda>x. Play (fst x) rate ch (snd x)) (xs @ [x])) m =
      (fst (playPCMAudio accepts (fst x) rate ch (snd x) ?m1),
       snd (run_output accepts (map (\<lambda>x. Play (fst x) rate ch (snd x)) xs) m)
         @ snd (playPCMAudio accepts (fst x) rate ch (snd x) ?m1))"
    by (simp add: run_output_append Let_def)
  show ?case unfolding run step using ih by (simp add: replicate_append_same)
qed

lemma no_start_in_mic_calls:
  "start_times (replicate n TurnOnMic) = []"
  "started_chunks (replicate n TurnOnMic) = []"
  "uncaught (replicate n TurnOnMic) = []"
  by (induction n) simp_all

lemma enqueued_then_drained:
  fixes xs :: "(float32 list \<times> double) list"
  assumes playing: "isPlayingAudioQueue m" and empty: "audioQueue m = []"
      and nonempty: "xs \<noteq> []"
      and dur: "\<forall>x \<in> set xs. ddiv (double_of_nat (length (fst x)))
                                   (dmul (double_of_nat ch) (double_of_nat rate)) = D"
      and acc: "\<forall>x \<in> set xs. accepts ch (ddiv (double_of_nat (length (fst x))) (double_of_nat ch)) rate"
      and drains: "length cs = length xs"
      and times: "\<forall>t \<in> set (drain_starts (nextPlayTime m) D cs). is_time t"
  shows "start_times (snd (run_output accepts
            (map (\<lambda>x. Play (fst x) rate ch (snd x)) xs @ map Drain cs) m))
           = drain_starts (nextPlayTime m) D cs"
    and "map chunk_data (started_chunks (snd (run_output accepts
            (map (\<lambda>x. Play (fst x) rate ch (snd x)) xs @ map Drain cs) m))) = map fst xs"
    and "uncaught (snd (run_output accepts
            (map (\<lambda>x. Play (fst x) rate ch (snd x)) xs @ map Drain cs) m)) = []"
proof -
  let ?plays = "map (\<lambda>x. Play (fst x) rate ch (snd x)) xs"
  let ?m1 = "fst (run_output accepts ?plays m)"
  let ?q = "map (\<lambda>x. \<lparr>chunk_data = fst x,
                 chunk_duration = ddiv (double_of_nat (length (fst x)))
                                       (dmul (double_of_nat ch) (double_of_nat rate))\<rparr>) xs"
  note p = plays_while_playing [OF playing, of accepts rate ch xs]
  from p empty have q: "audioQueue ?m1 = ?q" by simp
  from p have n: "nextPlayTime ?m1 = nextPlayTime m" by simp
  from p nonempty have f: "out_numChannels ?m1 = ch" "out_sampleRate ?m1 = rate" by simp_all
  from p have calls: "snd (run_output accepts ?plays m) = replicate (length xs) TurnOnMic" by simp
  have "\<forall>c \<in> set (audioQueue ?m1). chunk_duration c = D" unfolding q using dur by auto
  moreover have "\<forall>c \<in> set (audioQueue ?m1).
             accepts (out_numChannels ?m1)
               (ddiv (double_of_nat (length (chunk_data c))) (double_of_nat (out_numChannels ?m1)))
               (out_sampleRate ?m1)"
    unfolding q f using acc by auto
  moreover have "length cs \<le> length (audioQueue ?m1)" unfolding q using drains by simp
  moreover have "\<forall>t \<in> set (drain_starts (nextPlayTime ?m1) D cs). is_time t"
    unfolding n using times .
  ultimately have d:
    "start_times (snd (run_output accepts (map Drain cs) ?m1)) = drain_starts (nextPlayTime m) D cs"
    "started_chunks (snd (run_output accepts (map Drain cs) ?m1)) = take (length cs) ?q"
    "uncaught (snd (run_output accepts (map Drain cs) ?m1)) = []"
    using drains_run [of ?m1 D accepts cs] unfolding n q by simp_all
  have run: "snd (run_output accepts (?plays @ map Drain cs) m)
               = replicate (length xs) TurnOnMic @ snd (run_output accepts (map Drain cs) ?m1)"
    unfolding run_output_append calls by simp
  show "start_times (snd (run_output accepts (?plays @ map Drain cs) m))
          = drain_starts (nextPlayTime m) D cs"
    unfolding run start_times_append no_start_in_mic_calls d by simp
  show "map chunk_data (started_chunks (snd (run_output accepts (?plays @ map Drain cs) m))) = map fst xs"
    unfolding run started_chunks_append no_start_in_mic_calls d using drains
    by (simp add: comp_def)
  show "uncaught (snd (run_output accepts (?plays @ map Drain cs) m)) = []"
    unfolding run uncaught_append no_start_in_mic_calls d by simp
qed


lemma funpow_dadd_Suc: "((\<lambda>t. dadd t D) ^^ Suc k) s = dadd (((\<lambda>t. dadd t D) ^^ k) s) D"
  by simp

text \<open>The numbers of the examples.\<close>

lemma numbers_of_examples:
  "double_of_nat 1 = Finite 4503599627370496 (-52)"
  "double_of_nat (Suc 0) = Finite 4503599627370496 (-52)"
  "double_of_nat 3 = Finite 6755399441055744 (-51)"
  "double_of_nat 4 = Finite 4503599627370496 (-50)"
  "double_of_nat 5 = Finite 5629499534213120 (-50)"
  "double_of_nat 8 = Finite 4503599627370496 (-49)"
  "double_of_nat 16 = Finite 4503599627370496 (-48)"
  "double_of_nat 1000 = Finite 8796093022208000 (-43)"
  "double_of_nat 4410 = Finite 4848846278492160 (-40)"
  "double_of_nat 44100 = Finite 6061057848115200 (-37)"
  by (simp_all add: double_eval)


lemma products_of_examples:
  "dmul (Finite 4503599627370496 (-52)) (Finite 6061057848115200 (-37)) = Finite 6061057848115200 (-37)"
  by (simp add: double_eval)

lemma quotients_of_examples:
  "ddiv (Finite 4848846278492160 (-40)) (Finite 6061057848115200 (-37)) = Finite 7205759403792794 (-56)"
  "ddiv (Finite 4848846278492160 (-40)) (Finite 4503599627370496 (-52)) = Finite 4848846278492160 (-40)"
  "ddiv (Finite 6061057848115200 (-37)) (Finite 6061057848115200 (-37)) = Finite 4503599627370496 (-52)"
  "ddiv (Finite 6061057848115200 (-37)) (Finite 4503599627370496 (-52)) = Finite 6061057848115200 (-37)"
  "ddiv (Finite 4503599627370496 (-50)) (Finite 5629499534213120 (-50)) = Finite 7205759403792794 (-53)"
  "ddiv (Finite 4503599627370496 (-52)) (Finite 4503599627370496 (-48)) = Finite 4503599627370496 (-56)"
  "ddiv (Finite 6755399441055744 (-51)) (Finite 4503599627370496 (-48)) = Finite 6755399441055744 (-55)"
  "ddiv (Finite 4503599627370496 (-52)) (Finite 4503599627370496 (-50)) = Finite 4503599627370496 (-54)"
  "ddiv (Finite 6755399441055744 (-51)) (Finite 4503599627370496 (-49)) = Finite 6755399441055744 (-54)"
  by (simp_all add: double_eval)

lemma sums_of_examples:
  "dadd (Finite 0 0) (Finite 7205759403792794 (-56)) = Finite 7205759403792794 (-56)"
  "dadd (Finite 7205759403792794 (-56)) (Finite 7205759403792794 (-56)) = Finite 7205759403792794 (-55)"
  "dadd (Finite 7205759403792794 (-55)) (Finite 7205759403792794 (-56)) = Finite 5404319552844596 (-54)"
  "dadd (Finite 5404319552844596 (-54)) (Finite 7205759403792794 (-56)) = Finite 7205759403792794 (-54)"
  "dadd (Finite 7205759403792794 (-54)) (Finite 7205759403792794 (-56)) = Finite 4503599627370496 (-53)"
  "dadd (Finite 0 0) (Finite 4503599627370496 (-52)) = Finite 4503599627370496 (-52)"
  "dadd (Finite 4503599627370496 (-52)) (Finite 4503599627370496 (-52)) = Finite 4503599627370496 (-51)"
  "dadd (Finite 5629499534213120 (-50)) (Finite 4503599627370496 (-52)) = Finite 6755399441055744 (-50)"
  by (simp_all add: double_eval)

lemma difference_of_examples:
  "dsub (Finite 5404319552844596 (-54)) (Finite 7205759403792794 (-55)) = Finite 7205759403792796 (-56)"
  by (simp add: double_eval)

lemmas example_numbers = double_of_nat_0 numbers_of_examples products_of_examples
  quotients_of_examples sums_of_examples


lemma chunk_lengths: "length tenth_of_a_second = 4410" "length one_second = 44100"
  by (simp_all only: tenth_of_a_second_def one_second_def length_replicate)

lemmas output_eval = new_BotOutputManager_def playPCMAudio_def processOutputQueue_def
  createBuffer_guaranteed_def chunk_lengths example_numbers Let_def

lemma start_times_run_Cons:
  "start_times (snd (run_output accepts (ev # evs) m))
     = start_times (snd (output_step accepts ev m))
       @ start_times (snd (run_output accepts evs (fst (output_step accepts ev m))))"
  by (simp add: Let_def start_times_append)

lemma start_times_run_Nil: "start_times (snd (run_output accepts [] m)) = []"
  by simp

lemma steps_of_tenths:
  "fst (output_step createBuffer_guaranteed (Play tenth_of_a_second 44100 1 (double_of_nat 0))
        new_BotOutputManager)
     = \<lparr>audioQueue = [], isPlayingAudioQueue = True, nextPlayTime = Finite 7205759403792794 (-56),
          out_sampleRate = 44100, out_numChannels = 1, turnOffMicTimeout = False\<rparr>"
  "start_times (snd (output_step createBuffer_guaranteed (Play tenth_of_a_second 44100 1 (double_of_nat 0))
        new_BotOutputManager))
     = [Finite 0 0]"
  "fst (output_step createBuffer_guaranteed (Play tenth_of_a_second 44100 1 (double_of_nat 0))
        \<lparr>audioQueue = [], isPlayingAudioQueue = True, nextPlayTime = Finite 7205759403792794 (-56),
          out_sampleRate = 44100, out_numChannels = 1, turnOffMicTimeout = False\<rparr>)
     = \<lparr>audioQueue = [\<lparr>chunk_data = tenth_of_a_second, chunk_duration = Finite 7205759403792794 (-56)\<rparr>], isPlayingAudioQueue = True, nextPlayTime = Finite 7205759403792794 (-56),
          out_sampleRate = 44100, out_numChannels = 1, turnOffMicTimeout = False\<rparr>"
  "start_times (snd (output_step createBuffer_guaranteed (Play tenth_of_a_second 44100 1 (double_of_nat 0))
        \<lparr>audioQueue = [], isPlayingAudioQueue = True, nextPlayTime = Finite 7205759403792794 (-56),
          out_sampleRate = 44100, out_numChannels = 1, turnOffMicTimeout = False\<rparr>))
     = []"
  "fst (output_step createBuffer_guaranteed (Play tenth_of_a_second 44100 1 (double_of_nat 0))
        \<lparr>audioQueue = [\<lparr>chunk_data = tenth_of_a_second, chunk_duration = Finite 7205759403792794 (-56)\<rparr>], isPlayingAudioQueue = True, nextPlayTime = Finite 7205759403792794 (-56),
          out_sampleRate = 44100, out_numChannels = 1, turnOffMicTimeout = False\<rparr>)
     = \<lparr>audioQueue = [\<lparr>chunk_data = tenth_of_a_second, chunk_duration = Finite 7205759403792794 (-56)\<rparr>, \<lparr>chunk_data = tenth_of_a_second, chunk_duration = Finite 7205759403792794 (-56)\<rparr>], isPlayingAudioQueue = True, nextPlayTime = Finite 7205759403792794 (-56),
          out_sampleRate = 44100, out_numChannels = 1, turnOffMicTimeout = False\<rparr>"
  "start_times (snd (output_step createBuffer_guaranteed (Play tenth_of_a_second 44100 1 (double_of_nat 0))
        \<lparr>audioQueue = [\<lparr>chunk_data = tenth_of_a_second, chunk_duration = Finite 7205759403792794 (-56)\<rparr>], isPlayingAudioQueue = True, nextPlayTime = Finite 7205759403792794 (-56),
          out_sampleRate = 44100, out_numChannels = 1, turnOffMicTimeout = False\<rparr>))
     = []"
  "fst (output_step createBuffer_guaranteed (Play tenth_of_a_second 44100 1 (double_of_nat 0))
        \<lparr>audioQueue = [\<lparr>chunk_data = tenth_of_a_second, chunk_duration = Finite 7205759403792794 (-56)\<rparr>, \<lparr>chunk_data = tenth_of_a_second, chunk_duration = Finite 7205759403792794 (-56)\<rparr>], isPlayingAudioQueue = True, nextPlayTime = Finite 7205759403792794 (-56),
          out_sampleRate = 44100, out_numChannels = 1, turnOffMicTimeout = False\<rparr>)
     = \<lparr>audioQueue = [\<lparr>chunk_data = tenth_of_a_second, chunk_duration = Finite 7205759403792794 (-56)\<rparr>, \<lparr>chunk_data = tenth_of_a_second, chunk_duration = Finite 7205759403792794 (-56)\<rparr>, \<lparr>chunk_data = tenth_of_a_second, chunk_duration = Finite 7205759403792794 (-56)\<rparr>], isPlayingAudioQueue = True, nextPlayTime = Finite 7205759403792794 (-56),
          out_sampleRate = 44100, out_numChannels = 1, turnOffMicTimeout = False\<rparr>"
  "start_times (snd (output_step createBuffer_guaranteed (Play tenth_of_a_second 44100 1 (double_of_nat 0))
        \<lparr>audioQueue = [\<lparr>chunk_data = tenth_of_a_second, chunk_duration = Finite 7205759403792794 (-56)\<rparr>, \<lparr>chunk_data = tenth_of_a_second, chunk_duration = Finite 7205759403792794 (-56)\<rparr>], isPlayingAudioQueue = True, nextPlayTime = Finite 7205759403792794 (-56),
          out_sampleRate = 44100, out_numChannels = 1, turnOffMicTimeout = False\<rparr>))
     = []"
  "fst (output_step createBuffer_guaranteed (Play tenth_of_a_second 44100 1 (double_of_nat 0))
        \<lparr>audioQueue = [\<lparr>chunk_data = tenth_of_a_second, chunk_duration = Finite 7205759403792794 (-56)\<rparr>, \<lparr>chunk_data = tenth_of_a_second, chunk_duration = Finite 7205759403792794 (-56)\<rparr>, \<lparr>chunk_data = tenth_of_a_second, chunk_duration = Finite 7205759403792794 (-56)\<rparr>], isPlayingAudioQueue = True, nextPlayTime = Finite 7205759403792794 (-56),
          out_sampleRate = 44100, out_numChannels = 1, turnOffMicTimeout = False\<rparr>)
     = \<lparr>audioQueue = [\<lparr>chunk_data = tenth_of_a_second, chunk_duration = Finite 7205759403792794 (-56)\<rparr>, \<lparr>chunk_data = tenth_of_a_second, chunk_duration = Finite 7205759403792794 (-56)\<rparr>, \<lparr>chunk_data = tenth_of_a_second, chunk_duration = Finite 7205759403792794 (-56)\<rparr>, \<lparr>chunk_data = tenth_of_a_second, chunk_duration = Finite 7205759403792794 (-56)\<rparr>], isPlayingAudioQueue = True, nextPlayTime = Finite 7205759403792794 (-56),
          out_sampleRate = 44100, out_numChannels = 1, turnOffMicTimeout = False\<rparr>"
  "start_times (snd (output_step createBuffer_guaranteed (Play tenth_of_a_second 44100 1 (double_of_nat 0))
        \<lparr>audioQueue = [\<lparr>chunk_data = tenth_of_a_second, chunk_duration = Finite 7205759403792794 (-56)\<rparr>, \<lparr>chunk_data = tenth_of_a_second, chunk_duration = Finite 7205759403792794 (-56)\<rparr>, \<lparr>chunk_data = tenth_of_a_second, chunk_duration = Finite 7205759403792794 (-56)\<rparr>], isPlayingAudioQueue = True, nextPlayTime = Finite 7205759403792794 (-56),
          out_sampleRate = 44100, out_numChannels = 1, turnOffMicTimeout = False\<rparr>))
     = []"
  "fst (output_step createBuffer_guaranteed (Drain (ddiv (double_of_nat 1) (double_of_nat 16)))
        \<lparr>audioQueue = [\<lparr>chunk_data = tenth_of_a_second, chunk_duration = Finite 7205759403792794 (-56)\<rparr>, \<lparr>chunk_data = tenth_of_a_second, chunk_duration = Finite 7205759403792794 (-56)\<rparr>, \<lparr>chunk_data = tenth_of_a_second, chunk_duration = Finite 7205759403792794 (-56)\<rparr>, \<lparr>chunk_data = tenth_of_a_second, chunk_duration = Finite 7205759403792794 (-56)\<rparr>], isPlayingAudioQueue = True, nextPlayTime = Finite 7205759403792794 (-56),
          out_sampleRate = 44100, out_numChannels = 1, turnOffMicTimeout = False\<rparr>)
     = \<lparr>audioQueue = [\<lparr>chunk_data = tenth_of_a_second, chunk_duration = Finite 7205759403792794 (-56)\<rparr>, \<lparr>chunk_data = tenth_of_a_second, chunk_duration = Finite 7205759403792794 (-56)\<rparr>, \<lparr>chunk_data = tenth_of_a_second, chunk_duration = Finite 7205759403792794 (-56)\<rparr>], isPlayingAudioQueue = True, nextPlayTime = Finite 7205759403792794 (-55),
          out_sampleRate = 44100, out_numChannels = 1, turnOffMicTimeout = False\<rparr>"
  "start_times (snd (output_step createBuffer_guaranteed (Drain (ddiv (double_of_nat 1) (double_of_nat 16)))
        \<lparr>audioQueue = [\<lparr>chunk_data = tenth_of_a_second, chunk_duration = Finite 7205759403792794 (-56)\<rparr>, \<lparr>chunk_data = tenth_of_a_second, chunk_duration = Finite 7205759403792794 (-56)\<rparr>, \<lparr>chunk_data = tenth_of_a_second, chunk_duration = Finite 7205759403792794 (-56)\<rparr>, \<lparr>chunk_data = tenth_of_a_second, chunk_duration = Finite 7205759403792794 (-56)\<rparr>], isPlayingAudioQueue = True, nextPlayTime = Finite 7205759403792794 (-56),
          out_sampleRate = 44100, out_numChannels = 1, turnOffMicTimeout = False\<rparr>))
     = [Finite 7205759403792794 (-56)]"
  "fst (output_step createBuffer_guaranteed (Drain (ddiv (double_of_nat 3) (double_of_nat 16)))
        \<lparr>audioQueue = [\<lparr>chunk_data = tenth_of_a_second, chunk_duration = Finite 7205759403792794 (-56)\<rparr>, \<lparr>chunk_data = tenth_of_a_second, chunk_duration = Finite 7205759403792794 (-56)\<rparr>, \<lparr>chunk_data = tenth_of_a_second, chunk_duration = Finite 7205759403792794 (-56)\<rparr>], isPlayingAudioQueue = True, nextPlayTime = Finite 7205759403792794 (-55),
          out_sampleRate = 44100, out_numChannels = 1, turnOffMicTimeout = False\<rparr>)
     = \<lparr>audioQueue = [\<lparr>chunk_data = tenth_of_a_second, chunk_duration = Finite 7205759403792794 (-56)\<rparr>, \<lparr>chunk_data = tenth_of_a_second, chunk_duration = Finite 7205759403792794 (-56)\<rparr>], isPlayingAudioQueue = True, nextPlayTime = Finite 5404319552844596 (-54),
          out_sampleRate = 44100, out_numChannels = 1, turnOffMicTimeout = False\<rparr>"
  "start_times (snd (output_step createBuffer_guaranteed (Drain (ddiv (double_of_nat 3) (double_of_nat 16)))
        \<lparr>audioQueue = [\<lparr>chunk_data = tenth_of_a_second, chunk_duration = Finite 7205759403792794 (-56)\<rparr>, \<lparr>chunk_data = tenth_of_a_second, chunk_duration = Finite 7205759403792794 (-56)\<rparr>, \<lparr>chunk_data = tenth_of_a_second, chunk_duration = Finite 7205759403792794 (-56)\<rparr>], isPlayingAudioQueue = True, nextPlayTime = Finite 7205759403792794 (-55),
          out_sampleRate = 44100, out_numChannels = 1, turnOffMicTimeout = False\<rparr>))
     = [Finite 7205759403792794 (-55)]"
  "fst (output_step createBuffer_guaranteed (Drain (ddiv (double_of_nat 1) (double_of_nat 4)))
        \<lparr>audioQueue = [\<lparr>chunk_data = tenth_of_a_second, chunk_duration = Finite 7205759403792794 (-56)\<rparr>, \<lparr>chunk_data = tenth_of_a_second, chunk_duration = Finite 7205759403792794 (-56)\<rparr>], isPlayingAudioQueue = True, nextPlayTime = Finite 5404319552844596 (-54),
          out_sampleRate = 44100, out_numChannels = 1, turnOffMicTimeout = False\<rparr>)
     = \<lparr>audioQueue = [\<lparr>chunk_data = tenth_of_a_second, chunk_duration = Finite 7205759403792794 (-56)\<rparr>], isPlayingAudioQueue = True, nextPlayTime = Finite 7205759403792794 (-54),
          out_sampleRate = 44100, out_numChannels = 1, turnOffMicTimeout = False\<rparr>"
  "start_times (snd (output_step createBuffer_guaranteed (Drain (ddiv (double_of_nat 1) (double_of_nat 4)))
        \<lparr>audioQueue = [\<lparr>chunk_data = tenth_of_a_second, chunk_duration = Finite 7205759403792794 (-56)\<rparr>, \<lparr>chunk_data = tenth_of_a_second, chunk_duration = Finite 7205759403792794 (-56)\<rparr>], isPlayingAudioQueue = True, nextPlayTime = Finite 5404319552844596 (-54),
          out_sampleRate = 44100, out_numChannels = 1, turnOffMicTimeout = False\<rparr>))
     = [Finite 5404319552844596 (-54)]"
  "fst (output_step createBuffer_guaranteed (Drain (ddiv (double_of_nat 3) (double_of_nat 8)))
        \<lparr>audioQueue = [\<lparr>chunk_data = tenth_of_a_second, chunk_duration = Finite 7205759403792794 (-56)\<rparr>], isPlayingAudioQueue = True, nextPlayTime = Finite 7205759403792794 (-54),
          out_sampleRate = 44100, out_numChannels = 1, turnOffMicTimeout = False\<rparr>)
     = \<lparr>audioQueue = [], isPlayingAudioQueue = True, nextPlayTime = Finite 4503599627370496 (-53),
          out_sampleRate = 44100, out_numChannels = 1, turnOffMicTimeout = False\<rparr>"
  "start_times (snd (output_step createBuffer_guaranteed (Drain (ddiv (double_of_nat 3) (double_of_nat 8)))
        \<lparr>audioQueue = [\<lparr>chunk_data = tenth_of_a_second, chunk_duration = Finite 7205759403792794 (-56)\<rparr>], isPlayingAudioQueue = True, nextPlayTime = Finite 7205759403792794 (-54),
          out_sampleRate = 44100, out_numChannels = 1, turnOffMicTimeout = False\<rparr>))
     = [Finite 7205759403792794 (-54)]"
  by (simp_all add: output_eval)

lemma steps_of_seconds:
  "fst (output_step createBuffer_guaranteed (Play one_second 44100 1 (double_of_nat 0))
        new_BotOutputManager)
     = \<lparr>audioQueue = [], isPlayingAudioQueue = True, nextPlayTime = Finite 4503599627370496 (-52),
          out_sampleRate = 44100, out_numChannels = 1, turnOffMicTimeout = False\<rparr>"
  "start_times (snd (output_step createBuffer_guaranteed (Play one_second 44100 1 (double_of_nat 0))
        new_BotOutputManager))
     = [Finite 0 0]"
  "fst (output_step createBuffer_guaranteed (Play one_second 44100 1 (double_of_nat 0))
        \<lparr>audioQueue = [], isPlayingAudioQueue = True, nextPlayTime = Finite 4503599627370496 (-52),
          out_sampleRate = 44100, out_numChannels = 1, turnOffMicTimeout = False\<rparr>)
     = \<lparr>audioQueue = [\<lparr>chunk_data = one_second, chunk_duration = Finite 4503599627370496 (-52)\<rparr>], isPlayingAudioQueue = True, nextPlayTime = Finite 4503599627370496 (-52),
          out_sampleRate = 44100, out_numChannels = 1, turnOffMicTimeout = False\<rparr>"
  "start_times (snd (output_step createBuffer_guaranteed (Play one_second 44100 1 (double_of_nat 0))
        \<lparr>audioQueue = [], isPlayingAudioQueue = True, nextPlayTime = Finite 4503599627370496 (-52),
          out_sampleRate = 44100, out_numChannels = 1, turnOffMicTimeout = False\<rparr>))
     = []"
  "fst (output_step createBuffer_guaranteed (Play one_second 44100 1 (double_of_nat 0))
        \<lparr>audioQueue = [\<lparr>chunk_data = one_second, chunk_duration = Finite 4503599627370496 (-52)\<rparr>], isPlayingAudioQueue = True, nextPlayTime = Finite 4503599627370496 (-52),
          out_sampleRate = 44100, out_numChannels = 1, turnOffMicTimeout = False\<rparr>)
     = \<lparr>audioQueue = [\<lparr>chunk_data = one_second, chunk_duration = Finite 4503599627370496 (-52)\<rparr>, \<lparr>chunk_data = one_second, chunk_duration = Finite 4503599627370496 (-52)\<rparr>], isPlayingAudioQueue = True, nextPlayTime = Finite 4503599627370496 (-52),
          out_sampleRate = 44100, out_numChannels = 1, turnOffMicTimeout = False\<rparr>"
  "start_times (snd (output_step createBuffer_guaranteed (Play one_second 44100 1 (double_of_nat 0))
        \<lparr>audioQueue = [\<lparr>chunk_data = one_second, chunk_duration = Finite 4503599627370496 (-52)\<rparr>], isPlayingAudioQueue = True, nextPlayTime = Finite 4503599627370496 (-52),
          out_sampleRate = 44100, out_numChannels = 1, turnOffMicTimeout = False\<rparr>))
     = []"
  "fst (output_step createBuffer_guaranteed (Drain (ddiv (double_of_nat 4) (double_of_nat 5)))
        \<lparr>audioQueue = [\<lparr>chunk_data = one_second, chunk_duration = Finite 4503599627370496 (-52)\<rparr>, \<lparr>chunk_data = one_second, chunk_duration = Finite 4503599627370496 (-52)\<rparr>], isPlayingAudioQueue = True, nextPlayTime = Finite 4503599627370496 (-52),
          out_sampleRate = 44100, out_numChannels = 1, turnOffMicTimeout = False\<rparr>)
     = \<lparr>audioQueue = [\<lparr>chunk_data = one_second, chunk_duration = Finite 4503599627370496 (-52)\<rparr>], isPlayingAudioQueue = True, nextPlayTime = Finite 4503599627370496 (-51),
          out_sampleRate = 44100, out_numChannels = 1, turnOffMicTimeout = False\<rparr>"
  "start_times (snd (output_step createBuffer_guaranteed (Drain (ddiv (double_of_nat 4) (double_of_nat 5)))
        \<lparr>audioQueue = [\<lparr>chunk_data = one_second, chunk_duration = Finite 4503599627370496 (-52)\<rparr>, \<lparr>chunk_data = one_second, chunk_duration = Finite 4503599627370496 (-52)\<rparr>], isPlayingAudioQueue = True, nextPlayTime = Finite 4503599627370496 (-52),
          out_sampleRate = 44100, out_numChannels = 1, turnOffMicTimeout = False\<rparr>))
     = [Finite 4503599627370496 (-52)]"
  "fst (output_step createBuffer_guaranteed (Drain (double_of_nat 5))
        \<lparr>audioQueue = [\<lparr>chunk_data = one_second, chunk_duration = Finite 4503599627370496 (-52)\<rparr>], isPlayingAudioQueue = True, nextPlayTime = Finite 4503599627370496 (-51),
          out_sampleRate = 44100, out_numChannels = 1, turnOffMicTimeout = False\<rparr>)
     = \<lparr>audioQueue = [], isPlayingAudioQueue = True, nextPlayTime = Finite 6755399441055744 (-50),
          out_sampleRate = 44100, out_numChannels = 1, turnOffMicTimeout = False\<rparr>"
  "start_times (snd (output_step createBuffer_guaranteed (Drain (double_of_nat 5))
        \<lparr>audioQueue = [\<lparr>chunk_data = one_second, chunk_duration = Finite 4503599627370496 (-52)\<rparr>], isPlayingAudioQueue = True, nextPlayTime = Finite 4503599627370496 (-51),
          out_sampleRate = 44100, out_numChannels = 1, turnOffMicTimeout = False\<rparr>))
     = [Finite 5629499534213120 (-50)]"
  by (simp_all add: output_eval)

text \<open>
  Claim C7, the runs that separate the code from the sentence as written. In both the
  first call of \<^verbatim>\<open>playPCMAudio\<close> finds the manager idle, drains at once and leaves it
  playing with an empty queue; the chunks of the following calls are then enqueued
  back-to-back before any drain runs, and the timer runs one drain for each.

    \<^item> Chunks of 4410 samples at 44100 Hz have the duration \<open>D\<close> = 0.1 as a double. With
      every drain on time (the clock reads 0.0625, 0.1875, 0.25 and 0.375) the chunks
      start at 0.1, 0.2, 0.30000000000000004 and 0.4: \<^verbatim>\<open>nextPlayTime += duration\<close> rounds.
      The starts at 0.2 and 0.30000000000000004 are 0.10000000000000003 apart as
      JavaScript subtracts them, and their exact difference is more than \<open>D\<close>; the exact
      difference of the next two is less than \<open>D\<close>, so that the chunk at 0.4 starts
      before the exact end of the one before it.
    \<^item> Chunks of 44100 samples have the duration 1. The first drain is on time at 0.8 and
      starts its chunk at 1; the second is late, at 5, finds \<^verbatim>\<open>nextPlayTime\<close> = 2 behind
      the clock and starts its chunk at 5, four seconds after the previous one.
\<close>

theorem rounded_and_late_start_times:
  "start_times (snd (run_output createBuffer_guaranteed
      [Play tenth_of_a_second 44100 1 (double_of_nat 0),
       Play tenth_of_a_second 44100 1 (double_of_nat 0),
       Play tenth_of_a_second 44100 1 (double_of_nat 0),
       Play tenth_of_a_second 44100 1 (double_of_nat 0),
       Play tenth_of_a_second 44100 1 (double_of_nat 0),
       Drain (ddiv (double_of_nat 1) (double_of_nat 16)),
       Drain (ddiv (double_of_nat 3) (double_of_nat 16)),
       Drain (ddiv (double_of_nat 1) (double_of_nat 4)),
       Drain (ddiv (double_of_nat 3) (double_of_nat 8))]
      new_BotOutputManager))
     = [Finite 0 0, Finite 7205759403792794 (-56), Finite 7205759403792794 (-55),
        Finite 5404319552844596 (-54), Finite 7205759403792794 (-54)]
   \<and> ddiv (double_of_nat (length tenth_of_a_second)) (dmul (double_of_nat 1) (double_of_nat 44100))
       = Finite 7205759403792794 (-56)
   \<and> dsub (Finite 5404319552844596 (-54)) (Finite 7205759403792794 (-55))
       = Finite 7205759403792796 (-56)
   \<and> dval (Finite 7205759403792794 (-56))
       < dval (Finite 5404319552844596 (-54)) - dval (Finite 7205759403792794 (-55))
   \<and> dval (Finite 7205759403792794 (-54)) - dval (Finite 5404319552844596 (-54))
       < dval (Finite 7205759403792794 (-56))
   \<and> start_times (snd (run_output createBuffer_guaranteed
      [Play one_second 44100 1 (double_of_nat 0),
       Play one_second 44100 1 (double_of_nat 0),
       Play one_second 44100 1 (double_of_nat 0),
       Drain (ddiv (double_of_nat 4) (double_of_nat 5)),
       Drain (double_of_nat 5)]
      new_BotOutputManager))
     = [Finite 0 0, Finite 4503599627370496 (-52), Finite 5629499534213120 (-50)]
   \<and> ddiv (double_of_nat (length one_second)) (dmul (double_of_nat 1) (double_of_nat 44100))
       = Finite 4503599627370496 (-52)"
proof -
  have rounded: "start_times (snd (run_output createBuffer_guaranteed
      [Play tenth_of_a_second 44100 1 (double_of_nat 0),
       Play tenth_of_a_second 44100 1 (double_of_nat 0),
       Play tenth_of_a_second 44100 1 (double_of_nat 0),
       Play tenth_of_a_second 44100 1 (double_of_nat 0),
       Play tenth_of_a_second 44100 1 (double_of_nat 0),
       Drain (ddiv (double_of_nat 1) (double_of_nat 16)),
       Drain (ddiv (double_of_nat 3) (double_of_nat 16)),
       Drain (ddiv (double_of_nat 1) (double_of_nat 4)),
       Drain (ddiv (double_of_nat 3) (double_of_nat 8))]
      new_BotOutputManager))
     = [Finite 0 0, Finite 7205759403792794 (-56), Finite 7205759403792794 (-55),
        Finite 5404319552844596 (-54), Finite 7205759403792794 (-54)]"
    unfolding start_times_run_Cons start_times_run_Nil steps_of_tenths by simp
  have late: "start_times (snd (run_output createBuffer_guaranteed
      [Play one_second 44100 1 (double_of_nat 0),
       Play one_second 44100 1 (double_of_nat 0),
       Play one_second 44100 1 (double_of_nat 0),
       Drain (ddiv (double_of_nat 4) (double_of_nat 5)),
       Drain (double_of_nat 5)]
      new_BotOutputManager))
     = [Finite 0 0, Finite 4503599627370496 (-52), Finite 5629499534213120 (-50)]"
    unfolding start_times_run_Cons start_times_run_Nil steps_of_seconds by simp
  have durations:
    "ddiv (double_of_nat (length tenth_of_a_second)) (dmul (double_of_nat 1) (double_of_nat 44100))
       = Finite 7205759403792794 (-56)"
    "ddiv (double_of_nat (length one_second)) (dmul (double_of_nat 1) (double_of_nat 44100))
       = Finite 4503599627370496 (-52)"
    by (simp_all add: chunk_lengths example_numbers)
  have exact: "dval (Finite 7205759403792794 (-56))
       < dval (Finite 5404319552844596 (-54)) - dval (Finite 7205759403792794 (-55))"
    "dval (Finite 7205759403792794 (-54)) - dval (Finite 5404319552844596 (-54))
       < dval (Finite 7205759403792794 (-56))"
    by simp_all
  from rounded late durations difference_of_examples exact show ?thesis by (intro conjI)
qed

text \<open>
  Claim C7, as the code has it. The manager is playing with an empty queue, so that the
  calls of \<^verbatim>\<open>playPCMAudio\<close> only enqueue: \<open>N\<close> chunks of one duration \<open>D\<close> (a number, not
  \<^verbatim>\<open>NaN\<close>) are enqueued back-to-back before any drain runs, each accepted by
  \<^verbatim>\<open>createBuffer\<close>, and then the timer runs \<open>N\<close> drains, each at its own reading of the
  audio clock. Provided every time of the resulting schedule is one that
  \<^verbatim>\<open>source.start\<close> accepts (finite and not negative):

    \<^item> there are \<open>N\<close> start times, no call throws, and the chunks are started in the order
      in which they were enqueued;
    \<^item> each drain starts the head chunk exactly at \<^verbatim>\<open>nextPlayTime\<close>, which after the first
      drain is the previous start plus \<open>D\<close> as double addition rounds it, unless that is
      unset or behind the clock, when the chunk starts at the clock reading;
    \<^item> no start is earlier than the previous start plus \<open>D\<close> (the rounded sum);
    \<^item> when no drain after the first finds \<^verbatim>\<open>nextPlayTime\<close> unset or behind the clock,
      every start is the first start with \<open>D\<close> added repeatedly in double arithmetic.
\<close>

theorem scheduled_start_times:
  fixes xs :: "(float32 list \<times> double) list" and cs :: "double list" and D :: double
    and m :: bot_output_manager and rate ch :: nat
    and accepts :: "nat \<Rightarrow> double \<Rightarrow> nat \<Rightarrow> bool"
  defines "calls \<equiv> snd (run_output accepts
                      (map (\<lambda>x. Play (fst x) rate ch (snd x)) xs @ map Drain cs) m)"
  defines "st \<equiv> start_times calls"
  assumes playing: "isPlayingAudioQueue m" and empty: "audioQueue m = []"
      and nonempty: "xs \<noteq> []"
      and dur: "\<forall>x \<in> set xs. ddiv (double_of_nat (length (fst x)))
                                   (dmul (double_of_nat ch) (double_of_nat rate)) = D"
      and acc: "\<forall>x \<in> set xs. accepts ch (ddiv (double_of_nat (length (fst x))) (double_of_nat ch)) rate"
      and drains: "length cs = length xs"
      and D: "D \<noteq> NaN"
      and times: "\<forall>t \<in> set (drain_starts (nextPlayTime m) D cs). is_time t"
  shows "length st = length xs
       \<and> uncaught calls = []
       \<and> map chunk_data (started_chunks calls) = map fst xs
       \<and> st ! 0 = (if \<not> number_truthy (nextPlayTime m) \<or> dlt (nextPlayTime m) (cs ! 0)
                  then cs ! 0 else nextPlayTime m)
       \<and> (\<forall>k. Suc k < length xs \<longrightarrow>
            st ! Suc k = (if \<not> number_truthy (dadd (st ! k) D) \<or> dlt (dadd (st ! k) D) (cs ! Suc k)
                          then cs ! Suc k else dadd (st ! k) D))
       \<and> (\<forall>k. Suc k < length xs \<longrightarrow> dle (dadd (st ! k) D) (st ! Suc k))
       \<and> ((\<forall>k. Suc k < length xs \<longrightarrow>
              number_truthy (dadd (st ! k) D) \<and> \<not> dlt (dadd (st ! k) D) (cs ! Suc k))
          \<longrightarrow> (\<forall>k < length xs. st ! k = ((\<lambda>t. dadd t D) ^^ k) (st ! 0)))"
proof -
  note run = enqueued_then_drained [where accepts = accepts and ch = ch and rate = rate,
      OF playing empty nonempty dur acc drains times]
  have st: "st = drain_starts (nextPlayTime m) D cs"
    unfolding st_def calls_def by (rule run(1))
  from nonempty drains have cs: "cs \<noteq> []" by auto
  have "length st = length xs" unfolding st using drains by simp
  moreover have "uncaught calls = []" unfolding calls_def by (rule run(3))
  moreover have "map chunk_data (started_chunks calls) = map fst xs"
    unfolding calls_def by (rule run(2))
  moreover have "st ! 0 = (if \<not> number_truthy (nextPlayTime m) \<or> dlt (nextPlayTime m) (cs ! 0)
                  then cs ! 0 else nextPlayTime m)"
    unfolding st using cs by (rule drain_starts_0)
  moreover have step: "st ! Suc k = (if \<not> number_truthy (dadd (st ! k) D) \<or> dlt (dadd (st ! k) D) (cs ! Suc k)
                          then cs ! Suc k else dadd (st ! k) D)"
    if "Suc k < length xs" for k
    unfolding st using that drains by (intro drain_starts_Suc) simp
  moreover have "dle (dadd (st ! k) D) (st ! Suc k)" if "Suc k < length xs" for k
    unfolding st using that drains by (intro drain_starts_gap [OF times D]) simp
  moreover have "\<forall>k < length xs. st ! k = ((\<lambda>t. dadd t D) ^^ k) (st ! 0)"
    if on_time: "\<forall>k. Suc k < length xs \<longrightarrow>
              number_truthy (dadd (st ! k) D) \<and> \<not> dlt (dadd (st ! k) D) (cs ! Suc k)"
  proof (intro allI impI)
    fix k assume "k < length xs"
    then show "st ! k = ((\<lambda>t. dadd t D) ^^ k) (st ! 0)"
    proof (induction k)
      case 0
      show ?case by simp
    next
      case (Suc k)
      then have ih: "st ! k = ((\<lambda>t. dadd t D) ^^ k) (st ! 0)" by simp
      from on_time Suc.prems
      have "number_truthy (dadd (st ! k) D) \<and> \<not> dlt (dadd (st ! k) D) (cs ! Suc k)" by blast
      with step [OF Suc.prems] have "st ! Suc k = dadd (st ! k) D" by simp
      then show ?case unfolding funpow_dadd_Suc ih .
    qed
  qed
  ultimately show ?thesis by blast
qed

theorem scheduled_start_times_witness:
  "start_times (snd (run_output createBuffer_guaranteed
      [Play tenth_of_a_second 44100 1 (double_of_nat 0),
       Play tenth_of_a_second 44100 1 (double_of_nat 0),
       Play tenth_of_a_second 44100 1 (double_of_nat 0),
       Drain (ddiv (double_of_nat 1) (double_of_nat 16)),
       Drain (ddiv (double_of_nat 3) (double_of_nat 16)),
       Drain (ddiv (double_of_nat 1) (double_of_nat 4))]
      (fst (run_output createBuffer_guaranteed
              [Play tenth_of_a_second 44100 1 (double_of_nat 0)] new_BotOutputManager))))
     = [Finite 7205759403792794 (-56), Finite 7205759403792794 (-55), Finite 5404319552844596 (-54)]
   \<and> uncaught (snd (run_output createBuffer_guaranteed
      [Play tenth_of_a_second 44100 1 (double_of_nat 0),
       Play tenth_of_a_second 44100 1 (double_of_nat 0),
       Play tenth_of_a_second 44100 1 (double_of_nat 0),
       Drain (ddiv (double_of_nat 1) (double_of_nat 16)),
       Drain (ddiv (double_of_nat 3) (double_of_nat 16)),
       Drain (ddiv (double_of_nat 1) (double_of_nat 4))]
      (fst (run_output createBuffer_guaranteed
              [Play tenth_of_a_second 44100 1 (double_of_nat 0)] new_BotOutputManager)))) = []"
proof -
  define m where "m = fst (run_output createBuffer_guaranteed
              [Play tenth_of_a_second 44100 1 (double_of_nat 0)] new_BotOutputManager)"
  define xs :: "(float32 list \<times> double) list" where
    "xs = [(tenth_of_a_second, double_of_nat 0), (tenth_of_a_second, double_of_nat 0),
           (tenth_of_a_second, double_of_nat 0)]"
  define cs where "cs = [ddiv (double_of_nat 1) (double_of_nat 16),
                         ddiv (double_of_nat 3) (double_of_nat 16),
                         ddiv (double_of_nat 1) (double_of_nat 4)]"
  define D where "D = Finite 7205759403792794 (-56)"
  define calls where "calls = snd (run_output createBuffer_guaranteed
                      (map (\<lambda>x. Play (fst x) 44100 1 (snd x)) xs @ map Drain cs) m)"
  define st where "st = start_times calls"
  have m: "m = \<lparr>audioQueue = [], isPlayingAudioQueue = True, nextPlayTime = D,
                 out_sampleRate = 44100, out_numChannels = 1, turnOffMicTimeout = False\<rparr>"
    unfolding m_def D_def using steps_of_tenths(1) by (simp add: Let_def)
  have playing: "isPlayingAudioQueue m" and empty: "audioQueue m = []"
    and npt: "nextPlayTime m = D" by (simp_all add: m)
  have nonempty: "xs \<noteq> []" and len: "length xs = 3" by (simp_all add: xs_def)
  have dur: "\<forall>x \<in> set xs. ddiv (double_of_nat (length (fst x)))
                                 (dmul (double_of_nat 1) (double_of_nat 44100)) = D"
    by (simp add: xs_def D_def chunk_lengths example_numbers)
  have acc: "\<forall>x \<in> set xs. createBuffer_guaranteed 1
               (ddiv (double_of_nat (length (fst x))) (double_of_nat 1)) 44100"
    by (simp add: xs_def createBuffer_guaranteed_def chunk_lengths example_numbers)
  have drains: "length cs = length xs" by (simp add: cs_def xs_def)
  have D: "D \<noteq> NaN" by (simp add: D_def)
  have cs: "cs = [Finite 4503599627370496 (-56), Finite 6755399441055744 (-55),
                  Finite 4503599627370496 (-54)]"
    by (simp add: cs_def example_numbers)
  have sched: "drain_starts (nextPlayTime m) D cs
      = [Finite 7205759403792794 (-56), Finite 7205759403792794 (-55), Finite 5404319552844596 (-54)]"
    unfolding npt cs D_def by (simp add: example_numbers Let_def)
  have times: "\<forall>t \<in> set (drain_starts (nextPlayTime m) D cs). is_time t"
    unfolding sched by simp
  note facts = scheduled_start_times [where accepts = createBuffer_guaranteed and rate = 44100
      and ch = 1, OF playing empty nonempty dur acc drains D times,
      folded calls_def, folded st_def, unfolded len npt]
  note l = facts [THEN conjunct1]
  note none = facts [THEN conjunct2, THEN conjunct1]
  note 0 = facts [THEN conjunct2, THEN conjunct2, THEN conjunct2, THEN conjunct1]
  note step = facts [THEN conjunct2, THEN conjunct2, THEN conjunct2, THEN conjunct2,
      THEN conjunct1, rule_format]
  have s0: "st ! 0 = Finite 7205759403792794 (-56)"
    unfolding 0 cs D_def by simp
  from step [of 0] have s1: "st ! 1 = Finite 7205759403792794 (-55)"
    unfolding s0 cs D_def by (simp add: example_numbers)
  from step [of 1] have s2: "st ! 2 = Finite 5404319552844596 (-54)"
    unfolding s1 cs D_def by (simp add: example_numbers numeral_2_eq_2)
  have "st = [st ! 0, st ! 1, st ! 2]"
    using l by (intro nth_equalityI) (auto simp: less_Suc_eq numeral_3_eq_3 numeral_2_eq_2)
  then have st: "st = [Finite 7205759403792794 (-56), Finite 7205759403792794 (-55),
                       Finite 5404319552844596 (-54)]"
    unfolding s0 s1 s2 .
  have evs: "map (\<lambda>x. Play (fst x) 44100 1 (snd x)) xs @ map Drain cs =
      [Play tenth_of_a_second 44100 1 (double_of_nat 0),
       Play tenth_of_a_second 44100 1 (double_of_nat 0),
       Play tenth_of_a_second 44100 1 (double_of_nat 0),
       Drain (ddiv (double_of_nat 1) (double_of_nat 16)),
       Drain (ddiv (double_of_nat 3) (double_of_nat 16)),
       Drain (ddiv (double_of_nat 1) (double_of_nat 4))]"
    unfolding xs_def cs_def by simp
  from st none show ?thesis
    unfolding st_def calls_def evs m_def by (intro conjI)
qed

end

